theory Spec2Isabelle
  imports Complex_Main "HOL-Library.AList"
begin

section \<open>Common conventions\<close>

text \<open>
  The repository is numerical Python (numpy, scipy, torch).  Floating-point numbers are
  idealised as \<^typ>\<open>real\<close> (exact arithmetic).  A numpy array is its shape together with
  an index function; only the entries inside the shape are meaningful.  Exceptions are
  values: a computation that can raise returns \<open>failure + 'a\<close> with \<open>Inl\<close> the exception.
  \<open>UsageError\<close> is the usage error of the specification.  \<open>NonFinite\<close> is not a
  Python exception: it marks a numpy result that would contain
  \<open>inf\<close> or \<open>nan\<close> (a division by zero), which the real-valued model cannot represent.
\<close>

datatype failure =
    IndexError | ValueError | TypeError | AttributeError | KeyError
  | AssertionError | StopIteration | LinAlgError | UsageError | NonFinite

definition ebind :: "failure + 'a \<Rightarrow> ('a \<Rightarrow> failure + 'b) \<Rightarrow> failure + 'b" where
  "ebind m f = (case m of Inl e \<Rightarrow> Inl e | Inr x \<Rightarrow> f x)"

record ndarray2 =
  rows :: nat
  cols :: nat
  at2 :: "nat \<Rightarrow> nat \<Rightarrow> real"

record 'a ndarray3 =
  dim0 :: nat
  dim1 :: nat
  dim2 :: nat
  at3 :: "nat \<Rightarrow> nat \<Rightarrow> nat \<Rightarrow> 'a"

text \<open>\<open>A.ravel()\<close>: the entries in C (row-major) order.\<close>

definition ravel3 :: "'a ndarray3 \<Rightarrow> 'a list" where
  "ravel3 A =
     concat (map (\<lambda>i. concat (map (\<lambda>j. map (\<lambda>c. at3 A i j c) [0..<dim2 A]) [0..<dim1 A]))
       [0..<dim0 A])"

text \<open>\<open>A.min()\<close> and \<open>A.max()\<close>: numpy raises ValueError on an array without entries.\<close>

definition arr_min :: "real list \<Rightarrow> failure + real" where
  "arr_min xs = (case xs of [] \<Rightarrow> Inl ValueError | y # ys \<Rightarrow> Inr (fold min ys y))"

definition arr_max :: "real list \<Rightarrow> failure + real" where
  "arr_max xs = (case xs of [] \<Rightarrow> Inl ValueError | y # ys \<Rightarrow> Inr (fold max ys y))"

text \<open>\<open>A[:, :, c]\<close> for a non-negative \<open>c\<close>: IndexError when the last axis is too short.\<close>

definition channel :: "real ndarray3 \<Rightarrow> nat \<Rightarrow> failure + ndarray2" where
  "channel A c =
     (if c < dim2 A
      then Inr \<lparr>rows = dim0 A, cols = dim1 A, at2 = (\<lambda>i j. at3 A i j c)\<rparr>
      else Inl IndexError)"

section \<open>Closed-form Tikhonov solver: \<open>lensless/recon/tikhonov.py\<close>\<close>

subsection \<open>\<open>bayer2rgb\<close>\<close>

text \<open>
  \<^verbatim>\<open>
  def bayer2rgb(X_bayer, normalize=True):
      X_rgb = np.empty(X_bayer.shape[:-1] + (3,))
      X_rgb[:, :, 2] = X_bayer[:, :, 0]
      X_rgb[:, :, 1] = 0.5 * (X_bayer[:, :, 1] + X_bayer[:, :, 2])
      X_rgb[:, :, 0] = X_bayer[:, :, 3]
      if normalize:
          X_rgb = (X_rgb - X_rgb.min()) / (X_rgb.max() - X_rgb.min())
      return X_rgb
  \<close>
\<close>

definition bayer2rgb :: "real ndarray3 \<Rightarrow> bool \<Rightarrow> failure + real ndarray3" where
  "bayer2rgb X_bayer normalize_flag =
     ebind (channel X_bayer 0) (\<lambda>b.
     ebind (channel X_bayer 1) (\<lambda>gb.
     ebind (channel X_bayer 2) (\<lambda>gr.
     ebind (channel X_bayer 3) (\<lambda>r.
       let X_rgb = \<lparr>dim0 = dim0 X_bayer, dim1 = dim1 X_bayer, dim2 = 3,
                    at3 = (\<lambda>i j c.
                      if c = 2 then at2 b i j
                      else if c = 1 then 0.5 * (at2 gb i j + at2 gr i j)
                      else if c = 0 then at2 r i j
                      else 0)\<rparr>
       in if normalize_flag
          then ebind (arr_min (ravel3 X_rgb)) (\<lambda>mn.
               ebind (arr_max (ravel3 X_rgb)) (\<lambda>mx.
                 if mx - mn = 0 then Inl NonFinite
                 else Inr (X_rgb\<lparr>at3 := (\<lambda>i j c. (at3 X_rgb i j c - mn) / (mx - mn))\<rparr>)))
          else Inr X_rgb))))"

subsection \<open>Matrix operations of numpy\<close>

text \<open>The matrix product of index functions, summing over the first \<open>K\<close> indices.\<close>

definition mm :: "nat \<Rightarrow> (nat \<Rightarrow> nat \<Rightarrow> real) \<Rightarrow> (nat \<Rightarrow> nat \<Rightarrow> real) \<Rightarrow> nat \<Rightarrow> nat \<Rightarrow> real" where
  "mm K A B = (\<lambda>i j. \<Sum>k<K. A i k * B k j)"

definition tr :: "(nat \<Rightarrow> nat \<Rightarrow> real) \<Rightarrow> nat \<Rightarrow> nat \<Rightarrow> real" where
  "tr A = (\<lambda>i j. A j i)"

text \<open>\<open>A.T\<close>\<close>

definition transpose2 :: "ndarray2 \<Rightarrow> ndarray2" where
  "transpose2 A = \<lparr>rows = cols A, cols = rows A, at2 = tr (at2 A)\<rparr>"

text \<open>\<open>np.dot(A, B)\<close> of two matrices: ValueError unless the inner dimensions agree.\<close>

definition dot :: "ndarray2 \<Rightarrow> ndarray2 \<Rightarrow> failure + ndarray2" where
  "dot A B =
     (if cols A = rows B
      then Inr \<lparr>rows = rows A, cols = cols B, at2 = mm (cols A) (at2 A) (at2 B)\<rparr>
      else Inl ValueError)"

text \<open>
  \<open>numpy.linalg.multi_dot\<close>: the product of the chain.  It picks the cheapest order of
  multiplication, which in exact arithmetic does not change the result; the model
  multiplies from the left.  It needs at least two arrays.
\<close>

fun dot_chain :: "ndarray2 \<Rightarrow> ndarray2 list \<Rightarrow> failure + ndarray2" where
  "dot_chain A [] = Inr A"
| "dot_chain A (B # rest) = ebind (dot A B) (\<lambda>AB. dot_chain AB rest)"

definition multi_dot :: "ndarray2 list \<Rightarrow> failure + ndarray2" where
  "multi_dot arrays =
     (case arrays of A # B # rest \<Rightarrow> dot_chain A (B # rest) | _ \<Rightarrow> Inl ValueError)"

text \<open>\<open>np.diag(s)\<close> of a vector, \<open>np.zeros([r, c])\<close>, \<open>np.full((r, c), v)\<close>, \<open>np.outer(a, b)\<close>.\<close>

definition diag :: "real list \<Rightarrow> ndarray2" where
  "diag s = \<lparr>rows = length s, cols = length s,
             at2 = (\<lambda>i j. if i = j \<and> i < length s then s ! i else 0)\<rparr>"

definition zeros2 :: "nat \<Rightarrow> nat \<Rightarrow> ndarray2" where
  "zeros2 r c = \<lparr>rows = r, cols = c, at2 = (\<lambda>i j. 0)\<rparr>"

definition full2 :: "nat \<times> nat \<Rightarrow> real \<Rightarrow> ndarray2" where
  "full2 shp v = \<lparr>rows = fst shp, cols = snd shp, at2 = (\<lambda>i j. v)\<rparr>"

definition outer :: "real list \<Rightarrow> real list \<Rightarrow> ndarray2" where
  "outer a b = \<lparr>rows = length a, cols = length b, at2 = (\<lambda>i j. a ! i * b ! j)\<rparr>"

text \<open>\<open>np.concatenate((A, B))\<close> along axis 0: ValueError unless the column counts agree.\<close>

definition concatenate :: "ndarray2 \<Rightarrow> ndarray2 \<Rightarrow> failure + ndarray2" where
  "concatenate A B =
     (if cols A = cols B
      then Inr \<lparr>rows = rows A + rows B, cols = cols A,
                at2 = (\<lambda>i j. if i < rows A then at2 A i j else at2 B (i - rows A) j)\<rparr>
      else Inl ValueError)"

text \<open>
  Broadcasting of two matrices under an elementwise operation: along each axis the
  lengths must agree or one of them must be 1, and an axis of length 1 is repeated.
\<close>

definition broadcast_len :: "nat \<Rightarrow> nat \<Rightarrow> nat option" where
  "broadcast_len a b = (if a = b then Some a else if a = 1 then Some b
                        else if b = 1 then Some a else None)"

definition broadcast2 ::
  "(real \<Rightarrow> real \<Rightarrow> real) \<Rightarrow> ndarray2 \<Rightarrow> ndarray2 \<Rightarrow> failure + ndarray2" where
  "broadcast2 f A B =
     (case (broadcast_len (rows A) (rows B), broadcast_len (cols A) (cols B)) of
        (Some r, Some c) \<Rightarrow>
          Inr \<lparr>rows = r, cols = c,
               at2 = (\<lambda>i j. f (at2 A (if rows A = 1 then 0 else i) (if cols A = 1 then 0 else j))
                              (at2 B (if rows B = 1 then 0 else i) (if cols B = 1 then 0 else j)))\<rparr>
      | _ \<Rightarrow> Inl ValueError)"

text \<open>
  Elementwise division.  Where a denominator is zero numpy gives \<open>inf\<close> or \<open>nan\<close>,
  which is outside the real-valued model.
\<close>

definition divide2 :: "ndarray2 \<Rightarrow> ndarray2 \<Rightarrow> failure + ndarray2" where
  "divide2 A B =
     ebind (broadcast2 (\<lambda>x y. x / y) A B) (\<lambda>R.
       if \<exists>i<rows R. \<exists>j<cols R.
            at2 B (if rows B = 1 then 0 else i) (if cols B = 1 then 0 else j) = 0
       then Inl NonFinite else Inr R)"

subsection \<open>\<open>reconstruction\<close>\<close>

text \<open>
  \<open>numpy.linalg.svd(A, full_matrices=True)\<close> is a parameter: it returns \<open>(U, S, Vh)\<close> or
  raises.  \<open>svd_ok\<close> is what numpy documents of the result: \<open>U\<close> and \<open>Vh\<close> are square
  orthogonal matrices of the sizes of the rows and the columns of \<open>A\<close>, \<open>S\<close> has
  \<open>min(rows, cols)\<close> entries, and \<open>A = U diag(S) Vh\<close>.
\<close>

type_synonym svd_fun = "ndarray2 \<Rightarrow> failure + (ndarray2 \<times> real list \<times> ndarray2)"

definition orthogonal :: "ndarray2 \<Rightarrow> bool" where
  "orthogonal M \<longleftrightarrow>
     rows M = cols M \<and>
     (\<forall>i<rows M. \<forall>j<rows M.
        (\<Sum>k<rows M. at2 M k i * at2 M k j) = (if i = j then 1 else 0)
      \<and> (\<Sum>k<rows M. at2 M i k * at2 M j k) = (if i = j then 1 else 0))"

definition svd_ok :: "ndarray2 \<Rightarrow> ndarray2 \<times> real list \<times> ndarray2 \<Rightarrow> bool" where
  "svd_ok A usv =
     (case usv of (U, S, Vh) \<Rightarrow>
        rows U = rows A \<and> rows Vh = cols A \<and> orthogonal U \<and> orthogonal Vh
        \<and> length S = min (rows A) (cols A)
        \<and> (\<forall>i<rows A. \<forall>j<cols A.
              at2 A i j = (\<Sum>k<length S. at2 U i k * S ! k * at2 Vh k j)))"

text \<open>
  The body of the loop for one Bayer channel \<open>Yc = Y[:, :, c]\<close>; \<open>shp\<close> is
  \<open>X_bayer.shape[0:2]\<close>.  \<open>np.zeros\<close> with a negative length raises ValueError.
  \<^verbatim>\<open>
        UL, SL, VLh = np.linalg.svd(P, full_matrices=True)
        VL = VLh.T
        DL = np.concatenate((np.diag(SL), np.zeros([P.shape[0] - SL.size, SL.size])))
        singLsq = np.square(SL)
        UR, SR, VRh = np.linalg.svd(Q, full_matrices=True)
        VR = VRh.T
        DR = np.concatenate((np.diag(SR), np.zeros([Q.shape[0] - SR.size, SR.size])))
        singRsq = np.square(SR)
        Yc = Y[:, :, c]
        inner = multi_dot([DL.T, UL.T, Yc, UR, DR]) / (
            np.outer(singLsq, singRsq) + np.full(X_bayer.shape[0:2], lmbd)
        )
        X_bayer[:, :, c] = multi_dot([VL, inner, VR.T])
  \<close>
\<close>

definition sigma_matrix :: "ndarray2 \<Rightarrow> real list \<Rightarrow> failure + ndarray2" where
  "sigma_matrix A S =
     (if rows A < length S then Inl ValueError
      else concatenate (diag S) (zeros2 (rows A - length S) (length S)))"

definition channel_solution ::
  "svd_fun \<Rightarrow> real ndarray3 \<Rightarrow> ndarray2 \<Rightarrow> ndarray2 \<Rightarrow> real \<Rightarrow> nat \<times> nat \<Rightarrow> nat
     \<Rightarrow> failure + ndarray2" where
  "channel_solution svd Y P Q lmbd shp c =
     ebind (svd P) (\<lambda>(UL, SL, VLh).
     let VL = transpose2 VLh in
     ebind (sigma_matrix P SL) (\<lambda>DL.
     let singLsq = map (\<lambda>s. s * s) SL in
     ebind (svd Q) (\<lambda>(UR, SR, VRh).
     let VR = transpose2 VRh in
     ebind (sigma_matrix Q SR) (\<lambda>DR.
     let singRsq = map (\<lambda>s. s * s) SR in
     ebind (channel Y c) (\<lambda>Yc.
     ebind (multi_dot [transpose2 DL, transpose2 UL, Yc, UR, DR]) (\<lambda>num.
     ebind (broadcast2 (\<lambda>x y. x + y) (outer singLsq singRsq) (full2 shp lmbd)) (\<lambda>den.
     ebind (divide2 num den) (\<lambda>inner.
       multi_dot [VL, inner, transpose2 VR]))))))))"

text \<open>
  \<open>X_bayer[:, :, c] = R\<close> on an array with spatial shape \<open>shp\<close>: \<open>R\<close> is broadcast to
  the shape of the slice, ValueError when it cannot be.
\<close>

definition assign_channel :: "nat \<times> nat \<Rightarrow> ndarray2 \<Rightarrow> failure + ndarray2" where
  "assign_channel shp R =
     (if (rows R = fst shp \<or> rows R = 1) \<and> (cols R = snd shp \<or> cols R = 1)
      then Inr \<lparr>rows = fst shp, cols = snd shp,
                at2 = (\<lambda>i j. at2 R (if rows R = 1 then 0 else i) (if cols R = 1 then 0 else j))\<rparr>
      else Inl ValueError)"

text \<open>
  The loop \<open>for c in range(4)\<close>, giving \<open>X_bayer\<close> before it is clipped.  The array
  starts as \<open>np.empty([P.shape[1], Q.shape[1], 4])\<close>, and every channel is assigned.
\<close>

definition solve_channel ::
  "svd_fun \<Rightarrow> real ndarray3 \<Rightarrow> ndarray2 \<Rightarrow> ndarray2 \<Rightarrow> real \<Rightarrow> nat \<Rightarrow> failure + ndarray2" where
  "solve_channel svd Y P Q lmbd c =
     ebind (channel_solution svd Y P Q lmbd (cols P, cols Q) c)
       (assign_channel (cols P, cols Q))"

definition X_bayer_of ::
  "svd_fun \<Rightarrow> real ndarray3 \<Rightarrow> ndarray2 \<Rightarrow> ndarray2 \<Rightarrow> real \<Rightarrow> failure + real ndarray3" where
  "X_bayer_of svd Y P Q lmbd =
     ebind (solve_channel svd Y P Q lmbd 0) (\<lambda>X0.
     ebind (solve_channel svd Y P Q lmbd 1) (\<lambda>X1.
     ebind (solve_channel svd Y P Q lmbd 2) (\<lambda>X2.
     ebind (solve_channel svd Y P Q lmbd 3) (\<lambda>X3.
       Inr \<lparr>dim0 = cols P, dim1 = cols Q, dim2 = 4,
            at3 = (\<lambda>i j c. if c = 0 then at2 X0 i j else if c = 1 then at2 X1 i j
                            else if c = 2 then at2 X2 i j else if c = 3 then at2 X3 i j
                            else 0)\<rparr>))))"

text \<open>\<open>X_bayer.clip(min=0)\<close>, then \<open>bayer2rgb\<close> with normalisation.\<close>

definition clip_min0 :: "real ndarray3 \<Rightarrow> real ndarray3" where
  "clip_min0 A = A\<lparr>at3 := (\<lambda>i j c. max 0 (at3 A i j c))\<rparr>"

definition reconstruction ::
  "svd_fun \<Rightarrow> real ndarray3 \<Rightarrow> ndarray2 \<Rightarrow> ndarray2 \<Rightarrow> real \<Rightarrow> failure + real ndarray3" where
  "reconstruction svd Y P Q lmbd =
     ebind (X_bayer_of svd Y P Q lmbd) (\<lambda>X_bayer. bayer2rgb (clip_min0 X_bayer) True)"

text \<open>
  The Tikhonov cost of a candidate \<open>X\<close> (a \<open>cols P \<times> cols Q\<close> matrix, as an index
  function) for the channel \<open>Yc\<close>: the squared Frobenius norm of \<open>P X Q\<^sup>T - Yc\<close> plus \<open>lmbd\<close>
  times that of \<open>X\<close>.
\<close>

definition tikhonov_cost ::
  "ndarray2 \<Rightarrow> ndarray2 \<Rightarrow> (nat \<Rightarrow> nat \<Rightarrow> real) \<Rightarrow> real \<Rightarrow> (nat \<Rightarrow> nat \<Rightarrow> real) \<Rightarrow> real" where
  "tikhonov_cost P Q Yc lmbd X =
     (\<Sum>i<rows P. \<Sum>j<rows Q.
        ((\<Sum>a<cols P. \<Sum>b<cols Q. at2 P i a * X a b * at2 Q j b) - Yc i j)\<^sup>2)
     + lmbd * (\<Sum>a<cols P. \<Sum>b<cols Q. (X a b)\<^sup>2)"

text \<open>\<open>A[:, :, c]\<close> as an index function.\<close>

definition slice3 :: "real ndarray3 \<Rightarrow> nat \<Rightarrow> nat \<Rightarrow> nat \<Rightarrow> real" where
  "slice3 A c = (\<lambda>i j. at3 A i j c)"

subsection \<open>Example inputs\<close>

text \<open>
  A tall factor \<open>P = [[3], [4]]\<close> with \<open>Q = [[1]]\<close> and the measurement
  \<open>Y[i, 0, c] = (c + 1) P[i, 0]\<close>; a wide factor \<open>P = [[1, 0]]\<close> with the measurement of
  ones.  \<open>example_svd\<close> gives singular value decompositions of these three matrices
  (\<open>[[3], [4]] = U [5] [[1]]\<close> with \<open>U\<close> the rotation with first column \<open>(3/5, 4/5)\<close>).
\<close>

definition tall_P :: ndarray2 where
  "tall_P = \<lparr>rows = 2, cols = 1, at2 = (\<lambda>i j. if i = 0 then 3 else 4)\<rparr>"

definition unit_Q :: ndarray2 where
  "unit_Q = \<lparr>rows = 1, cols = 1, at2 = (\<lambda>i j. 1)\<rparr>"

definition tall_Y :: "real ndarray3" where
  "tall_Y = \<lparr>dim0 = 2, dim1 = 1, dim2 = 4,
             at3 = (\<lambda>i j c. (real c + 1) * (if i = 0 then 3 else 4))\<rparr>"

definition wide_P :: ndarray2 where
  "wide_P = \<lparr>rows = 1, cols = 2, at2 = (\<lambda>i j. if j = 0 then 1 else 0)\<rparr>"

definition wide_Y :: "real ndarray3" where
  "wide_Y = \<lparr>dim0 = 1, dim1 = 1, dim2 = 4, at3 = (\<lambda>i j c. 1)\<rparr>"

definition wide_candidate :: "nat \<Rightarrow> nat \<Rightarrow> real" where
  "wide_candidate = (\<lambda>a b. if a = 0 then 1 / 2 else 0)"

definition example_svd :: svd_fun where
  "example_svd A =
     (if rows A = 2 \<and> cols A = 1
      then Inr (\<lparr>rows = 2, cols = 2,
                 at2 = (\<lambda>i j. if i = j then 3 / 5 else if i = 0 then - (4 / 5) else 4 / 5)\<rparr>,
                [5], unit_Q)
      else if rows A = 1 \<and> cols A = 2
      then Inr (unit_Q, [1],
                \<lparr>rows = 2, cols = 2, at2 = (\<lambda>i j. if i = j then 1 else 0)\<rparr>)
      else Inr (unit_Q, [at2 A 0 0], unit_Q))"

section \<open>Convolution operator: \<open>RealFFTConvolve2D\<close> in \<open>lensless/apgd.py\<close>\<close>

subsection \<open>Library functions used by the operator\<close>

text \<open>
  \<open>scipy.fftpack.next_fast_len(target)\<close> is documented to return the smallest 5-smooth
  number (a product of powers of 2, 3 and 5) that is at least \<open>target\<close>; targets up to 6
  are returned as they are, and the search is bounded by \<open>2 * target\<close>.  A negative
  target raises ValueError, which the constructor below checks before calling it.
\<close>

function strip_factor :: "nat \<Rightarrow> nat \<Rightarrow> nat" where
  "strip_factor p n = (if 2 \<le> p \<and> 0 < n \<and> p dvd n then strip_factor p (n div p) else n)"
  by pat_completeness auto
termination
  by (relation "measure snd") auto

declare strip_factor.simps [simp del]

definition is_5smooth :: "nat \<Rightarrow> bool" where
  "is_5smooth n = (strip_factor 5 (strip_factor 3 (strip_factor 2 n)) = 1)"

definition next_fast_len :: "nat \<Rightarrow> nat" where
  "next_fast_len target =
     (if target \<le> 6 then target
      else (case find is_5smooth [target..<2 * target] of Some n \<Rightarrow> n | None \<Rightarrow> 2 * target))"

text \<open>The root of unity \<open>exp (2 \<pi> i k / n)\<close>.\<close>

definition omega :: "nat \<Rightarrow> int \<Rightarrow> complex" where
  "omega n k = cis (2 * pi * real_of_int k / real n)"

text \<open>
  \<open>scipy.fft.rfft2(A, axes=(0, 1))\<close>: the two-dimensional discrete Fourier transform of a
  real array over its first two axes, of which only the non-negative frequencies
  \<open>0..n1 div 2\<close> of the last transformed axis are kept.
\<close>

definition rfft2 :: "real ndarray3 \<Rightarrow> complex ndarray3" where
  "rfft2 A =
     \<lparr>dim0 = dim0 A, dim1 = dim1 A div 2 + 1, dim2 = dim2 A,
      at3 = (\<lambda>k0 k1 c. \<Sum>n0<dim0 A. \<Sum>n1<dim1 A.
               complex_of_real (at3 A n0 n1 c)
               * omega (dim0 A) (- int (k0 * n0)) * omega (dim1 A) (- int (k1 * n1)))\<rparr>"

text \<open>
  \<open>scipy.fft.irfft2(X, axes=(0, 1))\<close> without \<open>s\<close>: a complex inverse transform along
  axis 0, then a complex-to-real inverse transform along axis 1 whose output length is
  \<open>2 * (m - 1)\<close> for \<open>m\<close> input frequencies.  The complex-to-real transform reads the
  frequencies \<open>0..n div 2\<close>, takes the remaining ones as their conjugate mirror images and
  ignores the imaginary parts of the first and the last input.  A transform of length 0
  raises ValueError.
\<close>

definition irfft2 :: "complex ndarray3 \<Rightarrow> failure + real ndarray3" where
  "irfft2 X =
     (let n0 = dim0 X; n1 = 2 * (dim1 X - 1)
      in if n0 = 0 \<or> n1 = 0 then Inl ValueError
         else
           let Z = (\<lambda>m0 k1 c. (\<Sum>k0<n0. at3 X k0 k1 c * omega n0 (int (k0 * m0))) / of_nat n0)
           in Inr \<lparr>dim0 = n0, dim1 = n1, dim2 = dim2 X,
                   at3 = (\<lambda>m0 m1 c.
                     (Re (Z m0 0 c)
                      + (\<Sum>k1 = 1..<n1 div 2. 2 * Re (Z m0 k1 c * omega n1 (int (k1 * m1))))
                      + Re (Z m0 (n1 div 2) c) * (- 1) ^ m1) / real n1)\<rparr>)"

text \<open>\<open>scipy.fft.ifftshift(A, axes=(0, 1))\<close>: each axis of length \<open>n\<close> is rolled by \<open>-(n // 2)\<close>.\<close>

definition ifftshift2 :: "'a ndarray3 \<Rightarrow> 'a ndarray3" where
  "ifftshift2 A =
     A\<lparr>at3 := (\<lambda>i j c. at3 A ((i + dim0 A div 2) mod dim0 A) ((j + dim1 A div 2) mod dim1 A) c)\<rparr>"

text \<open>\<open>np.reshape(x, (h, w, c))\<close> of a flat vector: ValueError unless the sizes agree.\<close>

definition reshape3 :: "'a list \<Rightarrow> nat \<times> nat \<times> nat \<Rightarrow> failure + 'a ndarray3" where
  "reshape3 x shp =
     (case shp of (h, w, ch) \<Rightarrow>
        if length x = h * w * ch
        then Inr \<lparr>dim0 = h, dim1 = w, dim2 = ch, at3 = (\<lambda>i j c. x ! ((i * w + j) * ch + c))\<rparr>
        else Inl ValueError)"

text \<open>Elementwise product of two arrays of the same shape.\<close>

definition mul3 :: "complex ndarray3 \<Rightarrow> complex ndarray3 \<Rightarrow> failure + complex ndarray3" where
  "mul3 A B =
     (if dim0 A = dim0 B \<and> dim1 A = dim1 B \<and> dim2 A = dim2 B
      then Inr (A\<lparr>at3 := (\<lambda>i j c. at3 A i j c * at3 B i j c)\<rparr>)
      else Inl ValueError)"

definition zeros3 :: "nat \<times> nat \<times> nat \<Rightarrow> real ndarray3" where
  "zeros3 shp = (case shp of (h, w, ch) \<Rightarrow> \<lparr>dim0 = h, dim1 = w, dim2 = ch, at3 = (\<lambda>i j c. 0)\<rparr>)"

subsection \<open>The operator\<close>

text \<open>
  The fields of a \<open>RealFFTConvolve2D\<close> object.  \<open>padded_data\<close> is the scratch buffer
  that \<open>__call__\<close> and \<open>adjoint\<close> overwrite in place.
\<close>

record conv2d =
  filter_shape :: "nat \<times> nat \<times> nat"
  n_channels :: nat
  padded_shape :: "nat \<times> nat \<times> nat"
  start_idx :: "nat \<times> nat"
  end_idx :: "nat \<times> nat"
  H_freq :: "complex ndarray3"
  Hadj_freq :: "complex ndarray3"
  padded_data :: "real ndarray3"
  op_shape :: "nat \<times> nat"

text \<open>The slice \<open>[start_idx[0]:end_idx[0], start_idx[1]:end_idx[1]]\<close>.\<close>

definition in_window :: "nat \<times> nat \<Rightarrow> nat \<times> nat \<Rightarrow> nat \<Rightarrow> nat \<Rightarrow> bool" where
  "in_window st en i j = (fst st \<le> i \<and> i < fst en \<and> snd st \<le> j \<and> j < snd en)"

text \<open>\<open>buf[start:end] = v\<close>: the entries of the slice are replaced by those of \<open>v\<close>.\<close>

definition write_window ::
  "real ndarray3 \<Rightarrow> nat \<times> nat \<Rightarrow> nat \<times> nat \<Rightarrow> real ndarray3 \<Rightarrow> real ndarray3" where
  "write_window buf st en v =
     buf\<lparr>at3 := (\<lambda>i j c. if in_window st en i j then at3 v (i - fst st) (j - snd st) c
                          else at3 buf i j c)\<rparr>"

text \<open>\<open>_pad\<close>: a fresh zero canvas of the padded shape with \<open>v\<close> written into the slice.\<close>

definition pad_to :: "nat \<times> nat \<times> nat \<Rightarrow> nat \<times> nat \<Rightarrow> nat \<times> nat \<Rightarrow> real ndarray3 \<Rightarrow> real ndarray3" where
  "pad_to pshape st en v = write_window (zeros3 pshape) st en v"

definition conv_pad :: "conv2d \<Rightarrow> real ndarray3 \<Rightarrow> real ndarray3" where
  "conv_pad opr v = pad_to (padded_shape opr) (start_idx opr) (end_idx opr) v"

text \<open>\<open>_crop\<close>: the slice of \<open>x\<close>; a numpy slice is clipped to the array's bounds.\<close>

definition conv_crop :: "conv2d \<Rightarrow> real ndarray3 \<Rightarrow> real ndarray3" where
  "conv_crop opr x =
     \<lparr>dim0 = min (fst (end_idx opr)) (dim0 x) - min (fst (start_idx opr)) (dim0 x),
      dim1 = min (snd (end_idx opr)) (dim1 x) - min (snd (start_idx opr)) (dim1 x),
      dim2 = dim2 x,
      at3 = (\<lambda>i j c. at3 x (fst (start_idx opr) + i) (snd (start_idx opr) + j) c)\<rparr>"

text \<open>
  \<open>__init__\<close>.  The filter is a three-dimensional array (the assertion of the source).
  For an empty spatial axis \<open>2 * 0 - 1\<close> is negative and \<open>next_fast_len\<close> raises.
  Since \<open>next_fast_len n \<ge> n\<close>, the subtraction in \<open>start_idx\<close> never truncates.
\<close>

definition conv_init :: "real ndarray3 \<Rightarrow> failure + conv2d" where
  "conv_init filt =
     (if dim0 filt = 0 \<or> dim1 filt = 0 then Inl ValueError
      else
        let fshape = (dim0 filt, dim1 filt, dim2 filt);
            nch = dim2 filt;
            pshape = (next_fast_len (2 * dim0 filt - 1), next_fast_len (2 * dim1 filt - 1), nch);
            st = ((fst pshape - dim0 filt) div 2, (fst (snd pshape) - dim1 filt) div 2);
            en = (fst st + dim0 filt, snd st + dim1 filt);
            Hf = rfft2 (pad_to pshape st en filt)
        in Inr \<lparr>filter_shape = fshape, n_channels = nch, padded_shape = pshape,
                start_idx = st, end_idx = en,
                H_freq = Hf, Hadj_freq = Hf\<lparr>at3 := (\<lambda>i j c. cnj (at3 Hf i j c))\<rparr>,
                padded_data = zeros3 pshape,
                op_shape = (dim0 filt * dim1 filt * dim2 filt, dim0 filt * dim1 filt * dim2 filt)\<rparr>)"

text \<open>
  The body shared by \<open>__call__\<close> (with \<open>_H\<close>) and \<open>adjoint\<close> (with \<open>_Hadj\<close>).  The write
  into the buffer happens before the transforms, so it persists when a transform raises;
  a failing \<open>np.reshape\<close> leaves the buffer as it was.
\<close>

definition conv_apply_with ::
  "complex ndarray3 \<Rightarrow> conv2d \<Rightarrow> real list \<Rightarrow> conv2d \<times> (failure + real list)" where
  "conv_apply_with Hf opr x =
     (case reshape3 x (filter_shape opr) of
        Inl e \<Rightarrow> (opr, Inl e)
      | Inr xr \<Rightarrow>
          let opr' = opr\<lparr>padded_data :=
                        write_window (padded_data opr) (start_idx opr) (end_idx opr) xr\<rparr>
          in (opr',
              ebind (mul3 (rfft2 (padded_data opr')) Hf) (\<lambda>prod.
              ebind (irfft2 prod) (\<lambda>z.
                Inr (ravel3 (conv_crop opr' (ifftshift2 z)))))))"

definition conv_call :: "conv2d \<Rightarrow> real list \<Rightarrow> conv2d \<times> (failure + real list)" where
  "conv_call opr x = conv_apply_with (H_freq opr) opr x"

definition conv_adjoint :: "conv2d \<Rightarrow> real list \<Rightarrow> conv2d \<times> (failure + real list)" where
  "conv_adjoint opr y = conv_apply_with (Hadj_freq opr) opr y"

text \<open>A sequence of invocations on one operator object, threading its state.\<close>

datatype invocation = Call "real list" | Adjoint "real list"

fun run_invocations :: "conv2d \<Rightarrow> invocation list \<Rightarrow> conv2d" where
  "run_invocations opr [] = opr"
| "run_invocations opr (Call x # rest) = run_invocations (fst (conv_call opr x)) rest"
| "run_invocations opr (Adjoint y # rest) = run_invocations (fst (conv_adjoint opr y)) rest"

text \<open>
  The shape of the states reachable from a constructed operator \<open>op0\<close>: only the
  scratch buffer differs, it keeps its shape, and it is zero outside the window.
\<close>

definition frame_inv :: "conv2d \<Rightarrow> conv2d \<Rightarrow> bool" where
  "frame_inv op0 s \<longleftrightarrow>
     (\<exists>buf. s = op0\<lparr>padded_data := buf\<rparr> \<and> dim0 buf = dim0 (padded_data op0)
        \<and> dim1 buf = dim1 (padded_data op0) \<and> dim2 buf = dim2 (padded_data op0)
        \<and> (\<forall>i j c. \<not> in_window (start_idx op0) (end_idx op0) i j \<longrightarrow> at3 buf i j c = 0))"

subsection \<open>The adjoint test\<close>

text \<open>
  The inner product \<open>np.dot(u, v)\<close> of two flat real vectors of the same length, as the
  adjoint test \<open>\<langle>apply(x), y\<rangle> = \<langle>x, adjoint(y)\<rangle>\<close> uses it.
\<close>

definition vdot :: "real list \<Rightarrow> real list \<Rightarrow> real" where
  "vdot u v = sum_list (map2 (\<lambda>a b. a * b) u v)"

text \<open>
  A PSF of shape \<open>(1, 2, 1)\<close> with the entries \<open>[1, 0]\<close>.  Its padded shape is
  \<open>(next_fast_len 1, next_fast_len 3, 1) = (1, 3, 1)\<close>, with an odd width.
\<close>

definition odd_psf :: "real ndarray3" where
  "odd_psf = \<lparr>dim0 = 1, dim1 = 2, dim2 = 1, at3 = (\<lambda>i j c. if j = 0 then 1 else 0)\<rparr>"

section \<open>Accelerated proximal gradient descent: \<open>APGD\<close> in \<open>lensless/apgd.py\<close>\<close>

subsection \<open>Penalties and the arguments that select them\<close>

text \<open>
  Pycsou's functionals are kept symbolic; \<open>Scaled l f\<close> is the product \<open>l * f\<close>.
\<close>

datatype functional =
    SquaredL2Norm nat | L1Norm nat | NonNegativeOrthant nat
  | UserFunctional string nat | Scaled real functional

text \<open>
  What a caller can pass as \<open>diff_penalty\<close> or \<open>prox_penalty\<close>: \<open>None\<close>, a string, a
  callable (a functional class, given by what calling it with \<open>dim\<close> does), or any other
  object.  The flag tells whether the object has an attribute \<open>jacobianT\<close>.
\<close>

datatype penalty_arg =
    PNone
  | PStr string
  | PCallable bool "nat \<Rightarrow> failure + functional"
  | PNotCallable bool

text \<open>\<open>penalty(dim=d)\<close>: calling a string or another non-callable object raises TypeError.\<close>

definition call_penalty :: "penalty_arg \<Rightarrow> nat \<Rightarrow> failure + functional" where
  "call_penalty p d = (case p of PCallable _ ctor \<Rightarrow> ctor d | _ \<Rightarrow> Inl TypeError)"

definition has_jacobianT :: "penalty_arg \<Rightarrow> bool" where
  "has_jacobianT p = (case p of PCallable b _ \<Rightarrow> b | PNotCallable b \<Rightarrow> b | _ \<Rightarrow> False)"

text \<open>An instance attribute that an exception path can leave unassigned.\<close>

datatype 'a attribute = Unset | Bound 'a

subsection \<open>Pycsou's solver\<close>

text \<open>
  The optimisation problem handed to pycsou's \<open>APGD\<close>: the dimension, the data of the
  squared loss, the forward operator, the two penalties and the acceleration scheme.
\<close>

record problem =
  prob_dim :: nat
  loss_data :: "real list"
  forward_op :: conv2d
  diff_term :: "functional option"
  prox_term :: "functional option"
  acceleration :: "string option"

text \<open>
  Pycsou is not part of the sources, so its numerical work is a parameter: the
  initial iterand that the constructor builds for a problem (or the exception it raises,
  as for an unknown acceleration scheme), the update of one iteration as a function of
  the problem, the iteration count and the current iterand, and the projection of an
  iterand to its entry \<open>"iterand"\<close>.  \<open>converged\<close> is the convergence test that \<open>apply\<close>
  may stop on.
\<close>

record 'it pycsou =
  make_init_iterand :: "problem \<Rightarrow> failure + 'it"
  update_iterand :: "problem \<Rightarrow> nat \<Rightarrow> 'it \<Rightarrow> 'it"
  iterand_of :: "'it \<Rightarrow> real list"
  converged :: "real list \<Rightarrow> bool"

text \<open>
  The solver object, following pycsou's \<open>GenericIterativeAlgorithm\<close>: the constructor
  sets \<open>iter = 0\<close> and \<open>iterand = None\<close> and stores \<open>init_iterand\<close>; \<open>reset()\<close> sets
  \<open>iter\<close> and \<open>iterand\<close> back to these; \<open>update_iterand()\<close> starts from \<open>init_iterand\<close>
  when \<open>iter\<close> is 0 and from \<open>iterand\<close> otherwise.  \<open>old_iterand\<close> is the attribute that
  the code of this repository assigns for the progress report.
\<close>

record 'it pyc_solver =
  the_problem :: problem
  iter :: nat
  iterand :: "'it option"
  init_iterand :: 'it
  old_iterand :: "'it option"

definition pyc_new :: "'it pycsou \<Rightarrow> problem \<Rightarrow> failure + 'it pyc_solver" where
  "pyc_new lib p =
     ebind (make_init_iterand lib p) (\<lambda>i0.
       Inr \<lparr>the_problem = p, iter = 0, iterand = None, init_iterand = i0, old_iterand = None\<rparr>)"

definition pyc_reset :: "'it pyc_solver \<Rightarrow> 'it pyc_solver" where
  "pyc_reset s = s\<lparr>iter := 0, iterand := None\<rparr>"

definition pyc_step :: "'it pycsou \<Rightarrow> 'it pyc_solver \<Rightarrow> 'it pyc_solver" where
  "pyc_step lib s =
     (let cur = (if iter s = 0 then init_iterand s
                 else (case iterand s of Some it \<Rightarrow> it | None \<Rightarrow> init_iterand s))
      in s\<lparr>iterand := Some (update_iterand lib (the_problem s) (iter s) cur),
           iter := iter s + 1\<rparr>)"

text \<open>
  The generator \<open>solver.iterates(n)\<close>: its body runs \<open>reset()\<close> when it is first
  resumed and then yields one updated iterand per \<open>next\<close>, \<open>n\<close> times; after that
  \<open>next\<close> raises StopIteration.
\<close>

record generator =
  started :: bool
  remaining :: nat

definition new_generator :: "nat \<Rightarrow> generator" where
  "new_generator n = \<lparr>started = False, remaining = n\<rparr>"

definition gen_next ::
  "'it pycsou \<Rightarrow> 'it pyc_solver \<Rightarrow> generator \<Rightarrow> 'it pyc_solver \<times> generator \<times> (failure + 'it)" where
  "gen_next lib s g =
     (let s1 = (if started g then s else pyc_reset s)
      in if remaining g = 0 then (s1, g\<lparr>started := True\<rparr>, Inl StopIteration)
         else
           let s2 = pyc_step lib s1
           in (s2, \<lparr>started = True, remaining = remaining g - 1\<rparr>,
               (case iterand s2 of Some it \<Rightarrow> Inr it | None \<Rightarrow> Inl StopIteration)))"

subsection \<open>The reconstruction object\<close>

record 'it apgd =
  original_shape :: "nat \<times> nat \<times> nat"
  original_size :: nat
  psf :: "real ndarray3"
  is_rgb :: bool
  max_iter :: nat
  H_op :: conv2d
  diff_penalty :: "functional option"
  prox_penalty :: "functional option attribute"
  acc_scheme :: "string option"
  image_est :: "real list"
  data :: "real ndarray3 option"
  solver :: "'it pyc_solver option"
  gen :: "generator option"

text \<open>
  \<open>reset\<close>: a new zero image estimate; when a solver exists it is reset, its
  \<open>old_iterand\<close> is set to a copy of the initial iterand, and a new generator is made.
\<close>

definition apgd_reset :: "'it apgd \<Rightarrow> 'it apgd" where
  "apgd_reset a =
     (let a1 = a\<lparr>image_est := replicate (original_size a) 0\<rparr>
      in case solver a1 of
           None \<Rightarrow> a1
         | Some s \<Rightarrow>
             a1\<lparr>solver := Some ((pyc_reset s)\<lparr>old_iterand := Some (init_iterand s)\<rparr>),
                gen := Some (new_generator (max_iter a1))\<rparr>)"

text \<open>
  Modelled from the spec: the constructor of the base class \<open>ReconstructionAlgorithm\<close>
  (\<open>lensless/recon/recon.py\<close>) is not among the sources.  The spec has the PSF as a
  three-dimensional array whose last axis is the channels, one or three of them, and an
  iterand that is zero before the first update.  The base constructor is taken to store the
  PSF, to set the colour flag from the channel count, to leave the data unset, and to call
  \<open>reset()\<close>; \<open>APGD.__init__\<close> assigns \<open>_original_size\<close>, \<open>_apgd\<close> and \<open>_gen\<close>
  before calling it, which \<open>reset\<close> reads.
\<close>

definition base_init :: "'it apgd \<Rightarrow> real ndarray3 \<Rightarrow> 'it apgd" where
  "base_init a p = apgd_reset (a\<lparr>psf := p, is_rgb := (dim2 p = 3), data := None\<rparr>)"

text \<open>
  \<open>__init__\<close>.  It returns the object and what it printed.  The base constructor
  cannot raise in this model, so the operator, which the source builds right after it, is
  built first; the fields that the source assigns later hold placeholders until then.
  \<^verbatim>\<open>
        if prox_penalty is not None:
            if prox_penalty == APGDPriors.L1:
                self._prox_penalty = prox_lambda * L1Norm(dim=self._H.shape[1])
            elif prox_penalty == APGDPriors.NONNEG:
                self._prox_penalty = prox_lambda * NonNegativeOrthant(dim=self._H.shape[1])
            else:
                try:
                    self._prox_penalty = prox_lambda * prox_penalty(dim=self._H.shape[1])
                except ValueError:
                    print("Unexpected prior.")
        else:
            self._prox_penalty = None
  \<close>
\<close>

definition select_diff_penalty :: "penalty_arg \<Rightarrow> real \<Rightarrow> nat \<Rightarrow> failure + functional option" where
  "select_diff_penalty dp diff_lambda d =
     (if dp \<noteq> PNone
      then (if dp = PStr ''l2'' then Inr (Some (Scaled diff_lambda (SquaredL2Norm d)))
            else if \<not> has_jacobianT dp then Inl AssertionError
            else ebind (call_penalty dp d) (\<lambda>f. Inr (Some (Scaled diff_lambda f))))
      else Inr None)"

definition select_prox_penalty ::
  "penalty_arg \<Rightarrow> real \<Rightarrow> nat \<Rightarrow> failure + (functional option attribute \<times> string list)" where
  "select_prox_penalty pp prox_lambda d =
     (if pp \<noteq> PNone
      then (if pp = PStr ''l1'' then Inr (Bound (Some (Scaled prox_lambda (L1Norm d))), [])
            else if pp = PStr ''nonneg''
            then Inr (Bound (Some (Scaled prox_lambda (NonNegativeOrthant d))), [])
            else (case call_penalty pp d of
                    Inr f \<Rightarrow> Inr (Bound (Some (Scaled prox_lambda f)), [])
                  | Inl ValueError \<Rightarrow> Inr (Unset, [''Unexpected prior.''])
                  | Inl e \<Rightarrow> Inl e))
      else Inr (Bound None, []))"

definition apgd_init ::
  "real ndarray3 \<Rightarrow> nat \<Rightarrow> penalty_arg \<Rightarrow> penalty_arg \<Rightarrow> string option \<Rightarrow> real \<Rightarrow> real
     \<Rightarrow> failure + ('it apgd \<times> string list)" where
  "apgd_init p mx dp pp accel diff_lambda prox_lambda =
     ebind (conv_init p) (\<lambda>H.
       let a0 = \<lparr>original_shape = (dim0 p, dim1 p, dim2 p),
                  original_size = dim0 p * dim1 p * dim2 p,
                  psf = p, is_rgb = False, max_iter = mx, H_op = H,
                  diff_penalty = None, prox_penalty = Unset, acc_scheme = None,
                  image_est = [], data = None, solver = None, gen = None\<rparr>;
           a1 = base_init a0 p
       in ebind (select_diff_penalty dp diff_lambda (snd (op_shape H))) (\<lambda>dpen.
          ebind (select_prox_penalty pp prox_lambda (snd (op_shape H))) (\<lambda>(ppen, printed).
            Inr (a1\<lparr>diff_penalty := dpen, prox_penalty := ppen, acc_scheme := accel\<rparr>,
                 printed))))"

text \<open>The dimension of a functional, \<open>G.shape[1]\<close>.\<close>

fun functional_dim :: "functional \<Rightarrow> nat" where
  "functional_dim (SquaredL2Norm d) = d"
| "functional_dim (L1Norm d) = d"
| "functional_dim (NonNegativeOrthant d) = d"
| "functional_dim (UserFunctional _ d) = d"
| "functional_dim (Scaled _ f) = functional_dim f"

text \<open>A measurement is a two-dimensional (grayscale) or a three-dimensional array.\<close>

datatype measurement = Gray ndarray2 | Colour "real ndarray3"

text \<open>
  \<open>set_data\<close>.  Reading \<open>self._prox_penalty\<close> raises AttributeError when \<open>__init__\<close>
  left it unassigned.
\<close>

definition set_data :: "'it pycsou \<Rightarrow> 'it apgd \<Rightarrow> measurement \<Rightarrow> failure + 'it apgd" where
  "set_data lib a d =
     ebind (if \<not> is_rgb a
            then (case d of
                    Gray g \<Rightarrow> Inr \<lparr>dim0 = rows g, dim1 = cols g, dim2 = 1,
                                   at3 = (\<lambda>i j c. at2 g i j)\<rparr>
                  | Colour _ \<Rightarrow> Inl AssertionError)
            else (case d of Colour c \<Rightarrow> Inr c | Gray _ \<Rightarrow> Inl AssertionError)) (\<lambda>d3.
     ebind (case prox_penalty a of
              Unset \<Rightarrow> Inl AttributeError
            | Bound None \<Rightarrow> Inr (None, dim0 d3 * dim1 d3 * dim2 d3)
            | Bound (Some G) \<Rightarrow> Inr (Some G, functional_dim G)) (\<lambda>(G, d).
     ebind (pyc_new lib \<lparr>prob_dim = d, loss_data = ravel3 d3, forward_op = H_op a,
                         diff_term = diff_penalty a, prox_term = G,
                         acceleration = acc_scheme a\<rparr>) (\<lambda>s.
       Inr (a\<lparr>data := Some d3,
              solver := Some (s\<lparr>old_iterand := Some (init_iterand s)\<rparr>),
              gen := Some (new_generator (max_iter a))\<rparr>))))"

text \<open>
  \<open>_update\<close>: \<open>next(self._gen)\<close>, then \<open>self._image_est[:] = iterand\<close>, which needs the
  iterand to have the length of the estimate or length one.  What the generator did
  persists when the assignment raises.
\<close>

definition apgd_update :: "'it pycsou \<Rightarrow> 'it apgd \<Rightarrow> 'it apgd \<times> failure option" where
  "apgd_update lib a =
     (case (solver a, gen a) of
        (Some s, Some g) \<Rightarrow>
          (case gen_next lib s g of
             (s', g', r) \<Rightarrow>
               let a1 = a\<lparr>solver := Some s', gen := Some g'\<rparr>
               in (case r of
                     Inl e \<Rightarrow> (a1, Some e)
                   | Inr it \<Rightarrow>
                       let x = iterand_of lib it
                       in if length x = length (image_est a1) then (a1\<lparr>image_est := x\<rparr>, None)
                          else if length x = 1
                          then (a1\<lparr>image_est := replicate (length (image_est a1)) (hd x)\<rparr>, None)
                          else (a1, Some ValueError)))
      | _ \<Rightarrow> (a, Some TypeError))"

text \<open>\<open>_progress\<close>: the solver's \<open>old_iterand\<close> becomes a copy of its iterand.\<close>

definition apgd_progress :: "'it apgd \<Rightarrow> 'it apgd \<times> failure option" where
  "apgd_progress a =
     (case solver a of
        None \<Rightarrow> (a, Some AttributeError)
      | Some s \<Rightarrow> (a\<lparr>solver := Some (s\<lparr>old_iterand := iterand s\<rparr>)\<rparr>, None))"

text \<open>
  \<open>_form_image\<close>: the reshaped estimate is a view, so setting its negative entries to
  zero also changes the estimate.
  \<^verbatim>\<open>
        image = self._image_est.reshape(self._original_shape)
        image[image < 0] = 0
        return image
  \<close>
\<close>

definition form_image :: "'it apgd \<Rightarrow> 'it apgd \<times> (failure + real ndarray3)" where
  "form_image a =
     (case reshape3 (image_est a) (original_shape a) of
        Inl e \<Rightarrow> (a, Inl e)
      | Inr _ \<Rightarrow>
          let clipped = map (\<lambda>v. if v < 0 then 0 else v) (image_est a)
          in (a\<lparr>image_est := clipped\<rparr>, reshape3 clipped (original_shape a)))"

text \<open>
  Modelled from the spec: \<open>apply\<close> is a method of the base class
  \<open>ReconstructionAlgorithm\<close>, which is not among the sources.  The spec: calling it before
  \<open>set_data\<close> is a usage error; it runs \<open>update()\<close> \<open>n_iter\<close> times or until an internal
  convergence test fires, optionally reporting progress every \<open>k\<close> iterations, and returns
  the final non-negative-clipped image estimate reshaped to the original PSF shape, which
  is what \<open>_form_image\<close> gives.  Saving and plotting intermediate images is output only.
\<close>

definition report_due :: "nat option \<Rightarrow> nat \<Rightarrow> bool" where
  "report_due disp_iter i = (case disp_iter of None \<Rightarrow> False | Some k \<Rightarrow> 0 < k \<and> i mod k = 0)"

fun apply_loop ::
  "'it pycsou \<Rightarrow> nat option \<Rightarrow> 'it apgd \<Rightarrow> nat \<Rightarrow> nat \<Rightarrow> 'it apgd \<times> failure option" where
  "apply_loop lib disp_iter a 0 i = (a, None)"
| "apply_loop lib disp_iter a (Suc k) i =
     (case apgd_update lib a of
        (a1, Some e) \<Rightarrow> (a1, Some e)
      | (a1, None) \<Rightarrow>
          (case (if report_due disp_iter (i + 1) then apgd_progress a1 else (a1, None)) of
             (a2, Some e) \<Rightarrow> (a2, Some e)
           | (a2, None) \<Rightarrow>
               if converged lib (image_est a2) then (a2, None)
               else apply_loop lib disp_iter a2 k (i + 1)))"

definition apgd_apply ::
  "'it pycsou \<Rightarrow> 'it apgd \<Rightarrow> nat \<Rightarrow> nat option \<Rightarrow> 'it apgd \<times> (failure + real ndarray3)" where
  "apgd_apply lib a n_iter disp_iter =
     (if data a = None then (a, Inl UsageError)
      else (case apply_loop lib disp_iter a n_iter 0 of
              (a1, Some e) \<Rightarrow> (a1, Inl e)
            | (a1, None) \<Rightarrow> form_image a1))"

text \<open>
  A sequence of method calls on one solver object, threading its state; a call that
  raises leaves the state it reached.
\<close>

datatype apgd_call = DoUpdate | DoProgress | DoReset | DoFormImage | DoApply nat "nat option"

fun run_call :: "'it pycsou \<Rightarrow> 'it apgd \<Rightarrow> apgd_call \<Rightarrow> 'it apgd" where
  "run_call lib a DoUpdate = fst (apgd_update lib a)"
| "run_call lib a DoProgress = fst (apgd_progress a)"
| "run_call lib a DoReset = apgd_reset a"
| "run_call lib a DoFormImage = fst (form_image a)"
| "run_call lib a (DoApply n disp_iter) = fst (apgd_apply lib a n disp_iter)"

definition run_calls :: "'it pycsou \<Rightarrow> 'it apgd \<Rightarrow> apgd_call list \<Rightarrow> 'it apgd" where
  "run_calls lib a calls = foldl (run_call lib) a calls"

text \<open>
  A concrete library for exercising the model: the iterand is a list of numbers, the
  update of iteration \<open>k\<close> gives the vector with all entries \<open>1 - k\<close>, and the
  convergence test never fires.
\<close>

definition example_pycsou :: "real list pycsou" where
  "example_pycsou =
     \<lparr>make_init_iterand = (\<lambda>p. Inr (replicate (prob_dim p) 0)),
      update_iterand = (\<lambda>p k it. replicate (prob_dim p) (1 - real k)),
      iterand_of = (\<lambda>it. it),
      converged = (\<lambda>x. False)\<rparr>"

definition example_psf :: "real ndarray3" where
  "example_psf = \<lparr>dim0 = 1, dim1 = 2, dim2 = 1, at3 = (\<lambda>i j c. if j = 0 then 1 else 0)\<rparr>"

definition example_measurement :: measurement where
  "example_measurement = Gray \<lparr>rows = 1, cols = 2, at2 = (\<lambda>i j. real j + 1)\<rparr>"

text \<open>A callable penalty whose construction raises ValueError.\<close>

definition rejecting_penalty :: penalty_arg where
  "rejecting_penalty = PCallable False (\<lambda>d. Inl ValueError)"

text \<open>
  The states that method calls reach from \<open>a1\<close>, the solver as \<open>set_data\<close> left it: only
  the image estimate, the solver object and the generator differ, and the solver object
  still has its problem and its initial iterand.
\<close>

definition same_binding :: "'it apgd \<Rightarrow> 'it apgd \<Rightarrow> bool" where
  "same_binding a1 a \<longleftrightarrow>
     a\<lparr>image_est := [], solver := None, gen := None\<rparr>
       = a1\<lparr>image_est := [], solver := None, gen := None\<rparr>
     \<and> (\<exists>s g s1. solver a = Some s \<and> gen a = Some g \<and> solver a1 = Some s1
           \<and> the_problem s = the_problem s1 \<and> init_iterand s = init_iterand s1)"

section \<open>Training loop: \<open>Trainer\<close> in \<open>lensless/recon/utils.py\<close>\<close>

subsection \<open>Tensors, parameters and the library calls\<close>

text \<open>
  Gradients can hold NaN, which the training step tests for, so the entries of a tensor
  are a real number or NaN.
\<close>

datatype fl = NaN | Fin real

type_synonym tensor = "fl list"

fun fl_add :: "fl \<Rightarrow> fl \<Rightarrow> fl" where
  "fl_add (Fin a) (Fin b) = Fin (a + b)"
| "fl_add _ _ = NaN"

fun fl_sub :: "fl \<Rightarrow> fl \<Rightarrow> fl" where
  "fl_sub (Fin a) (Fin b) = Fin (a - b)"
| "fl_sub _ _ = NaN"

fun fl_mul :: "fl \<Rightarrow> fl \<Rightarrow> fl" where
  "fl_mul (Fin a) (Fin b) = Fin (a * b)"
| "fl_mul _ _ = NaN"

text \<open>\<open>torch.isnan(g).any()\<close>\<close>

definition isnan_any :: "tensor \<Rightarrow> bool" where
  "isnan_any g = (NaN \<in> set g)"

text \<open>A \<open>torch.nn.Parameter\<close>: its data, its \<open>.grad\<close> (\<open>None\<close> or a tensor) and \<open>requires_grad\<close>.\<close>

record tparam =
  pdata :: tensor
  pgrad :: "tensor option"
  requires_grad :: bool

text \<open>
  The calls into torch and into the reconstruction and mask objects, none of which is
  part of the sources at hand, are parameters:
  \<^item> \<open>forward_backward\<close>: the forward pass, the loss (with the LPIPS and mask-L1 terms) and
    \<open>loss_v.backward()\<close>, giving the loss value and, for every parameter of the
    reconstruction and of the mask, the gradient that backward computes (\<open>None\<close> for a
    parameter that receives none);
  \<^item> \<open>clip_grad_norm\<close>: \<open>torch.nn.utils.clip_grad_norm_\<close>, which rescales the \<open>.grad\<close> fields;
  \<^item> \<open>optimizer_step\<close>: \<open>self.optimizer.step()\<close> on the reconstruction's parameters;
  \<^item> \<open>update_mask\<close>: \<open>self.mask.update_mask()\<close>, the mask's own optimiser step and
    projection;
  \<^item> \<open>benchmark\<close>: \<open>lensless.eval.benchmark\<close>, giving the dictionary of test metrics.
\<close>

record 'b torch_env =
  forward_backward ::
    "tparam list \<Rightarrow> tparam list option \<Rightarrow> 'b \<Rightarrow> fl \<times> tensor option list \<times> tensor option list"
  clip_grad_norm :: "real \<Rightarrow> tparam list \<Rightarrow> tparam list"
  optimizer_step :: "tparam list \<Rightarrow> tparam list"
  update_mask :: "tparam list \<Rightarrow> tparam list"
  benchmark :: "tparam list \<Rightarrow> (string \<times> fl) list"

text \<open>Backward adds a new gradient to \<open>.grad\<close>, or stores it when \<open>.grad\<close> is \<open>None\<close>.\<close>

definition accumulate_grad :: "tparam \<Rightarrow> tensor option \<Rightarrow> tparam" where
  "accumulate_grad p g =
     (case g of
        None \<Rightarrow> p
      | Some new \<Rightarrow>
          (case pgrad p of
             None \<Rightarrow> p\<lparr>pgrad := Some new\<rparr>
           | Some old \<Rightarrow> p\<lparr>pgrad := Some (map2 fl_add old new)\<rparr>))"

text \<open>\<open>optimizer.zero_grad(set_to_none=True)\<close>\<close>

definition zero_grad :: "tparam list \<Rightarrow> tparam list" where
  "zero_grad ps = map (\<lambda>p. p\<lparr>pgrad := None\<rparr>) ps"

subsection \<open>The metrics dictionary\<close>

text \<open>
  A value of the dictionary \<open>self.metrics\<close>: a list of numbers, or one of the scalar
  entries.  The dictionary is an association list in insertion order.
\<close>

datatype mvalue = MList "fl list" | MInt int | MStr string | MNone | MFloat fl | MInf

type_synonym metrics_dict = "(string \<times> mvalue) list"

text \<open>\<open>d[key].append(v)\<close>: KeyError for a missing key, AttributeError when the value has no \<open>append\<close>.\<close>

definition dict_append :: "metrics_dict \<Rightarrow> string \<Rightarrow> fl \<Rightarrow> failure + metrics_dict" where
  "dict_append d key v =
     (case map_of d key of
        None \<Rightarrow> Inl KeyError
      | Some (MList xs) \<Rightarrow> Inr (AList.update key (MList (xs @ [v])) d)
      | Some _ \<Rightarrow> Inl AttributeError)"

subsection \<open>The trainer\<close>

record trainer =
  recon_params :: "tparam list"
  mask :: "tparam list option"
  use_mask :: bool
  skip_NAN :: bool
  clip_grad :: "real option"
  lpips :: "real option"
  has_test_dataset :: bool
  metrics :: metrics_dict

text \<open>
  The part of \<open>__init__\<close> that the training step and the evaluation read: \<open>use_mask\<close> is
  set from the presence of the mask, the test dataset is split off the training set
  when none is given, and the metrics dictionary starts with empty lists.
\<close>

definition initial_metrics :: "int \<Rightarrow> string \<Rightarrow> string option \<Rightarrow> metrics_dict" where
  "initial_metrics n_iter algorithm_name metric_for_best_model =
     [(''LOSS'', MList []), (''MSE'', MList []), (''MAE'', MList []),
      (''LPIPS_Vgg'', MList []), (''LPIPS_Alex'', MList []), (''PSNR'', MList []),
      (''SSIM'', MList []), (''ReconstructionError'', MList []),
      (''n_iter'', MInt n_iter), (''algorithm'', MStr algorithm_name),
      (''metric_for_best_model'',
         (case metric_for_best_model of None \<Rightarrow> MNone | Some m \<Rightarrow> MStr m)),
      (''best_epoch'', MInt 0),
      (''best_eval_score'',
         (if metric_for_best_model = Some ''PSNR'' \<or> metric_for_best_model = Some ''SSIM''
          then MFloat (Fin 0) else MInf))]"

definition trainer_init ::
  "tparam list \<Rightarrow> tparam list option \<Rightarrow> bool \<Rightarrow> real option \<Rightarrow> real option
     \<Rightarrow> int \<Rightarrow> string \<Rightarrow> string option \<Rightarrow> failure + trainer" where
  "trainer_init recon msk skip clip lp n_iter algorithm_name metric_for_best_model =
     (let m = initial_metrics n_iter algorithm_name metric_for_best_model
      in if (case metric_for_best_model of None \<Rightarrow> False | Some k \<Rightarrow> map_of m k = None)
         then Inl AssertionError
         else Inr \<lparr>recon_params = recon, mask = msk, use_mask = (msk \<noteq> None),
                   skip_NAN = skip, clip_grad = clip, lpips = lp,
                   has_test_dataset = True, metrics = m\<rparr>)"

text \<open>\<open>self.mask.parameters()\<close>: AttributeError when \<open>self.mask\<close> is \<open>None\<close>.\<close>

definition mask_parameters :: "trainer \<Rightarrow> failure + tparam list" where
  "mask_parameters t = (case mask t of None \<Rightarrow> Inl AttributeError | Some ps \<Rightarrow> Inr ps)"

text \<open>
  The loop \<open>for param in ps: if param.grad is not None and torch.isnan(param.grad).any()\<close>.
\<close>

definition any_grad_nan :: "tparam list \<Rightarrow> bool" where
  "any_grad_nan ps = (\<exists>p \<in> set ps. case pgrad p of None \<Rightarrow> False | Some g \<Rightarrow> isnan_any g)"

text \<open>
  The hook \<open>detect_nan\<close>, registered in \<open>__init__\<close> when \<open>skip_NAN\<close> is false on the
  reconstruction's parameters that require a gradient: it raises ValueError when the
  gradient computed for such a parameter holds NaN.
\<close>

definition hook_raises :: "trainer \<Rightarrow> tensor option list \<Rightarrow> bool" where
  "hook_raises t gs =
     (\<not> skip_NAN t \<and>
      (\<exists>(p, g) \<in> set (zip (recon_params t) gs).
          requires_grad p \<and> (case g of None \<Rightarrow> False | Some g' \<Rightarrow> isnan_any g')))"

text \<open>
  One iteration of the loop of \<open>train_epoch\<close>, from the forward pass to the update of the
  running mean loss.  The accumulator is \<open>(mean_loss, i)\<close>.  The result tells whether the
  step was skipped (the \<open>continue\<close> of the source).
\<close>

definition train_step ::
  "'b torch_env \<Rightarrow> trainer \<Rightarrow> 'b \<Rightarrow> fl \<times> real \<Rightarrow> failure + (trainer \<times> (fl \<times> real) \<times> bool)" where
  "train_step env t batch acc =
     (case forward_backward env (recon_params t) (mask t) batch of (loss_v, rgrads, mgrads) \<Rightarrow>
      if hook_raises t rgrads then Inl ValueError
      else
        let t1 = t\<lparr>recon_params := map2 accumulate_grad (recon_params t) rgrads,
                   mask := map_option (\<lambda>ps. map2 accumulate_grad ps mgrads) (mask t)\<rparr>
        in
        ebind (if use_mask t1
               then ebind (mask_parameters t1) (\<lambda>mps.
                      if \<forall>p \<in> set mps. pgrad p \<noteq> None then Inr () else Inl AssertionError)
               else Inr ()) (\<lambda>_.
        ebind (case clip_grad t1 of
                 None \<Rightarrow> Inr t1
               | Some c \<Rightarrow>
                   ebind (mask_parameters t1) (\<lambda>mps.
                     Inr (t1\<lparr>mask := Some (clip_grad_norm env c mps),
                             recon_params := clip_grad_norm env c (recon_params t1)\<rparr>))) (\<lambda>t2.
        ebind (if skip_NAN t2
               then (let recon_is_NAN = any_grad_nan (recon_params t2)
                     in ebind (mask_parameters t2) (\<lambda>mps.
                          Inr (recon_is_NAN \<or> any_grad_nan mps)))
               else Inr False) (\<lambda>skip.
        if skip then Inr (t2, (fst acc, snd acc + 1), True)
        else
          let t3 = t2\<lparr>recon_params := zero_grad (optimizer_step env (recon_params t2))\<rparr>;
              t4 = (if use_mask t3 then t3\<lparr>mask := map_option (update_mask env) (mask t3)\<rparr>
                    else t3);
              mean_loss = fl_add (fst acc)
                            (fl_mul (fl_sub loss_v (fst acc)) (Fin (1 / snd acc)))
          in Inr (t4, (mean_loss, snd acc + 1), False)))))"

text \<open>\<open>train_epoch\<close>: the loop over the batches of the data loader; it returns the mean loss.\<close>

fun train_loop ::
  "'b torch_env \<Rightarrow> trainer \<Rightarrow> 'b list \<Rightarrow> fl \<times> real \<Rightarrow> failure + (trainer \<times> (fl \<times> real))" where
  "train_loop env t [] acc = Inr (t, acc)"
| "train_loop env t (b # bs) acc =
     ebind (train_step env t b acc) (\<lambda>(t', acc', skipped). train_loop env t' bs acc')"

definition train_epoch :: "'b torch_env \<Rightarrow> trainer \<Rightarrow> 'b list \<Rightarrow> failure + (trainer \<times> fl)" where
  "train_epoch env t data_loader =
     ebind (train_loop env t data_loader (Fin 0, 1)) (\<lambda>(t', acc). Inr (t', fst acc))"

text \<open>
  \<open>evaluate\<close>: the appends to the metrics happen one after the other, so those made
  before an exception persist; the result is the updated trainer and either the exception
  or the returned value (\<open>None\<close> when there is no test dataset).
\<close>

fun append_all :: "metrics_dict \<Rightarrow> (string \<times> fl) list \<Rightarrow> metrics_dict \<times> failure option" where
  "append_all d [] = (d, None)"
| "append_all d ((key, v) # rest) =
     (case dict_append d key v of
        Inl e \<Rightarrow> (d, Some e)
      | Inr d' \<Rightarrow> append_all d' rest)"

definition dict_get :: "(string \<times> fl) list \<Rightarrow> string \<Rightarrow> failure + fl" where
  "dict_get d key = (case map_of d key of None \<Rightarrow> Inl KeyError | Some v \<Rightarrow> Inr v)"

definition evaluate ::
  "'b torch_env \<Rightarrow> trainer \<Rightarrow> fl \<Rightarrow> trainer \<times> (failure + fl option)" where
  "evaluate env t mean_loss =
     (if \<not> has_test_dataset t then (t, Inr None)
      else
        let current_metrics = benchmark env (recon_params t)
        in case dict_append (metrics t) ''LOSS'' mean_loss of
             Inl e \<Rightarrow> (t, Inl e)
           | Inr d1 \<Rightarrow>
               (case append_all d1 current_metrics of
                  (d2, Some e) \<Rightarrow> (t\<lparr>metrics := d2\<rparr>, Inl e)
                | (d2, None) \<Rightarrow>
                    (t\<lparr>metrics := d2\<rparr>,
                     (case map_of d2 ''metric_for_best_model'' of
                        Some MNone \<Rightarrow>
                          ebind (dict_get current_metrics ''MSE'') (\<lambda>eval_loss.
                            (case lpips t of
                               None \<Rightarrow> Inr (Some eval_loss)
                             | Some w \<Rightarrow>
                                 ebind (dict_get current_metrics ''LPIPS_Vgg'') (\<lambda>lp.
                                   Inr (Some (fl_add eval_loss (fl_mul (Fin w) lp))))))
                      | Some (MStr k) \<Rightarrow>
                          ebind (dict_get current_metrics k) (\<lambda>v. Inr (Some v))
                      | _ \<Rightarrow> Inl KeyError))))"

text \<open>The names of the metrics whose entries are lists.\<close>

definition list_lengths :: "metrics_dict \<Rightarrow> nat list" where
  "list_lengths d = concat (map (\<lambda>(k, v). case v of MList xs \<Rightarrow> [length xs] | _ \<Rightarrow> []) d)"

definition equal_lengths :: "metrics_dict \<Rightarrow> bool" where
  "equal_lengths d = (\<forall>a \<in> set (list_lengths d). \<forall>b \<in> set (list_lengths d). a = b)"

text \<open>
  Append-only: the new dictionary has the keys of the old one in the same order, the
  old list under each key is a prefix of the new one, and the other entries do not turn
  into or out of lists.
\<close>

definition extends :: "metrics_dict \<Rightarrow> metrics_dict \<Rightarrow> bool" where
  "extends d d' =
     (map fst d' = map fst d \<and>
      (\<forall>(k, v) \<in> set d. case v of
           MList xs \<Rightarrow> (\<exists>ys. map_of d' k = Some (MList (xs @ ys)))
         | _ \<Rightarrow> True))"

text \<open>The metric names that \<open>__init__\<close> prepares a list for, other than the training loss.\<close>

definition test_metric_names :: "string list" where
  "test_metric_names =
     [''MSE'', ''MAE'', ''LPIPS_Vgg'', ''LPIPS_Alex'', ''PSNR'', ''SSIM'', ''ReconstructionError'']"

text \<open>
  \<open>on_epoch_end\<close>, as far as the metrics dictionary goes: it calls \<open>evaluate\<close> and
  compares the returned score with \<open>best_eval_score\<close> (a comparison with \<open>None\<close> raises
  TypeError, one with NaN is false); on a new best it overwrites the scalar entries
  \<open>best_eval_score\<close> and \<open>best_epoch\<close>.  Saving the model is file output and is left out.
\<close>

fun fl_less :: "fl \<Rightarrow> fl \<Rightarrow> bool" where
  "fl_less (Fin a) (Fin b) = (a < b)"
| "fl_less _ _ = False"

definition is_new_best :: "metrics_dict \<Rightarrow> fl \<Rightarrow> bool" where
  "is_new_best d score =
     (if map_of d ''metric_for_best_model'' = Some (MStr ''PSNR'')
         \<or> map_of d ''metric_for_best_model'' = Some (MStr ''SSIM'')
      then (case map_of d ''best_eval_score'' of
              Some (MFloat b) \<Rightarrow> fl_less b score | _ \<Rightarrow> False)
      else (case map_of d ''best_eval_score'' of
              Some (MFloat b) \<Rightarrow> fl_less score b | Some MInf \<Rightarrow> score \<noteq> NaN | _ \<Rightarrow> False))"

definition on_epoch_end ::
  "'b torch_env \<Rightarrow> trainer \<Rightarrow> fl \<Rightarrow> int \<Rightarrow> trainer \<times> failure option" where
  "on_epoch_end env t mean_loss epoch =
     (case evaluate env t mean_loss of
        (t1, Inl e) \<Rightarrow> (t1, Some e)
      | (t1, Inr None) \<Rightarrow> (t1, Some TypeError)
      | (t1, Inr (Some score)) \<Rightarrow>
          if is_new_best (metrics t1) score
          then (t1\<lparr>metrics := AList.update ''best_epoch'' (MInt epoch)
                               (AList.update ''best_eval_score'' (MFloat score) (metrics t1))\<rparr>,
                None)
          else (t1, None))"

text \<open>
  The trainers that a run can pass through, starting from \<open>t0\<close>: between training steps,
  after a completed \<open>evaluate\<close>, and after a completed \<open>on_epoch_end\<close>.
\<close>

inductive reachable :: "'b torch_env \<Rightarrow> trainer \<Rightarrow> trainer \<Rightarrow> bool"
  for env :: "'b torch_env" and t0 :: trainer where
  start: "reachable env t0 t0"
| step: "reachable env t0 t \<Longrightarrow> train_step env t batch acc = Inr (t', acc', skipped)
           \<Longrightarrow> reachable env t0 t'"
| evaluated: "reachable env t0 t \<Longrightarrow> evaluate env t mean_loss = (t', Inr r)
           \<Longrightarrow> reachable env t0 t'"
| epoch_end: "reachable env t0 t \<Longrightarrow> on_epoch_end env t mean_loss epoch = (t', None)
           \<Longrightarrow> reachable env t0 t'"

text \<open>
  What is assumed of the absent \<open>benchmark\<close>: its dictionary has exactly the seven test
  metric names, each once.
\<close>

definition benchmark_keys_ok :: "'b torch_env \<Rightarrow> bool" where
  "benchmark_keys_ok env =
     (\<forall>ps. distinct (map fst (benchmark env ps))
          \<and> set (map fst (benchmark env ps)) = set test_metric_names)"

text \<open>
  The invariant of the metrics dictionary: it has the keys that \<open>__init__\<close> created, in
  that order; the entries that are lists are those under \<open>LOSS\<close> and the test metric
  names; and a list has length \<open>L + 1\<close> when its key is in \<open>S\<close> (the keys that the
  running \<open>evaluate\<close> has already appended to) and \<open>L\<close> otherwise.
\<close>

definition metric_keys :: "string list" where
  "metric_keys = map fst (initial_metrics 0 [] None)"

definition metrics_inv :: "metrics_dict \<Rightarrow> nat \<Rightarrow> string set \<Rightarrow> bool" where
  "metrics_inv d L S =
     (map fst d = metric_keys \<and>
      (\<forall>k v. map_of d k = Some v \<longrightarrow>
         (case v of
            MList xs \<Rightarrow> k \<in> set (''LOSS'' # test_metric_names)
                         \<and> length xs = (if k \<in> S then Suc L else L)
          | _ \<Rightarrow> k \<notin> set (''LOSS'' # test_metric_names))))"

text \<open>
  A small concrete environment for exercising the model: every backward pass gives the
  one parameter of the reconstruction a NaN gradient, the optimiser subtracts nothing,
  and \<open>benchmark\<close> reports the seven test metrics.
\<close>

definition example_env :: "unit torch_env" where
  "example_env =
     \<lparr>forward_backward = (\<lambda>ps m b. (Fin 1, [Some [NaN]], [])),
      clip_grad_norm = (\<lambda>c ps. ps),
      optimizer_step = (\<lambda>ps. ps),
      update_mask = (\<lambda>ps. ps),
      benchmark = (\<lambda>ps. [(''MSE'', Fin 1), (''MAE'', Fin 1), (''LPIPS_Vgg'', Fin 1),
                           (''LPIPS_Alex'', Fin 1), (''PSNR'', Fin 1), (''SSIM'', Fin 1),
                           (''ReconstructionError'', Fin 1)])\<rparr>"

definition example_param :: tparam where
  "example_param = \<lparr>pdata = [Fin 1], pgrad = None, requires_grad = True\<rparr>"

section \<open>Properties of \<open>bayer2rgb\<close>\<close>

text \<open>
  Claim C8.  For a 4-channel Bayer array (channels blue, green-blue, green-red, red) the
  RGB output of \<open>bayer2rgb\<close> before normalisation has the shape of the input with three
  channels; its blue channel (index 2) is Bayer channel 0, its green channel (index 1) is
  the average of Bayer channels 1 and 2, and its red channel (index 0) is Bayer channel 3.
\<close>

theorem bayer2rgb_channels:
  assumes "dim2 X = 4"
  shows "\<exists>R. bayer2rgb X False = Inr R
           \<and> dim0 R = dim0 X \<and> dim1 R = dim1 X \<and> dim2 R = 3
           \<and> (\<forall>i<dim0 X. \<forall>j<dim1 X.
                 at3 R i j 2 = at3 X i j 0
               \<and> at3 R i j 1 = 0.5 * (at3 X i j 1 + at3 X i j 2)
               \<and> at3 R i j 0 = at3 X i j 3)"
  using assms by (simp add: bayer2rgb_def channel_def ebind_def)

theorem bayer2rgb_channels_witness:
  "\<exists>R. bayer2rgb \<lparr>dim0 = 1, dim1 = 1, dim2 = 4, at3 = (\<lambda>i j c. real c + 1)\<rparr> False = Inr R
     \<and> dim0 R = 1 \<and> dim1 R = 1 \<and> dim2 R = 3
     \<and> at3 R 0 0 2 = 1 \<and> at3 R 0 0 1 = 2.5 \<and> at3 R 0 0 0 = 4"
  using bayer2rgb_channels [of "\<lparr>dim0 = 1, dim1 = 1, dim2 = 4, at3 = (\<lambda>i j c. real c + 1)\<rparr>"]
  by simp

section \<open>Properties of the closed-form Tikhonov solver\<close>

subsection \<open>Matrix algebra\<close>

lemma mm_assoc: "mm K (mm L A B) C = mm L A (mm K B C)"
proof (intro ext)
  fix i j
  have "mm K (mm L A B) C i j = (\<Sum>k<K. \<Sum>l<L. A i l * B l k * C k j)"
    by (simp add: mm_def sum_distrib_right)
  also have "\<dots> = (\<Sum>l<L. \<Sum>k<K. A i l * B l k * C k j)"
    by (rule sum.swap)
  also have "\<dots> = mm L A (mm K B C) i j"
    by (simp add: mm_def sum_distrib_left mult.assoc)
  finally show "mm K (mm L A B) C i j = mm L A (mm K B C) i j" .
qed

lemma tr_mm: "tr (mm K A B) = mm K (tr B) (tr A)"
  by (simp add: mm_def tr_def mult.commute)

lemma tr_tr: "tr (tr A) = A"
  by (simp add: tr_def)

lemma mm_cong_right:
  assumes "\<And>k j. k < K \<Longrightarrow> B k j = B' k j"
  shows "mm K A B = mm K A B'"
  using assms by (simp add: mm_def)

lemma sum_delta_nat:
  fixes f :: "nat \<Rightarrow> real"
  assumes "k < n"
  shows "(\<Sum>l<n. (if k = l then 1 else 0) * f l) = f k"
proof -
  have "(\<Sum>l<n. (if k = l then 1 else 0) * f l) = (\<Sum>l<n. if l = k then f l else 0)"
    by (intro sum.cong) auto
  also have "\<dots> = f k" using assms by simp
  finally show ?thesis .
qed

lemma orth_rows_cancel:
  assumes "\<forall>i<n. \<forall>j<n. (\<Sum>a<n. V i a * V j a) = (if i = j then 1 else 0)" and "k < n"
  shows "mm n V (mm n (tr V) M) k j = M k j"
proof -
  have "mm n V (mm n (tr V) M) k j = (\<Sum>a<n. \<Sum>l<n. V k a * V l a * M l j)"
    by (simp add: mm_def tr_def sum_distrib_left mult.assoc)
  also have "\<dots> = (\<Sum>l<n. \<Sum>a<n. V k a * V l a * M l j)"
    by (rule sum.swap)
  also have "\<dots> = (\<Sum>l<n. (\<Sum>a<n. V k a * V l a) * M l j)"
    by (simp add: sum_distrib_right)
  also have "\<dots> = (\<Sum>l<n. (if k = l then 1 else 0) * M l j)"
    using assms by (intro sum.cong) auto
  also have "\<dots> = M k j" using assms(2) by (rule sum_delta_nat)
  finally show ?thesis .
qed

lemma gram_cols_scaled:
  assumes "\<forall>i<m. \<forall>j<m. (\<Sum>r<m. U r i * U r j) = (if i = j then 1 else 0)"
    and "n \<le> m" and "k < n"
  shows "mm m (tr (\<lambda>i k. U i k * s k)) (mm n (\<lambda>i k. U i k * s k) M) k j = (s k)\<^sup>2 * M k j"
proof -
  have "mm m (tr (\<lambda>i k. U i k * s k)) (mm n (\<lambda>i k. U i k * s k) M) k j
        = (\<Sum>r<m. \<Sum>l<n. U r k * U r l * (s k * s l * M l j))"
    by (simp add: mm_def tr_def sum_distrib_left mult_ac)
  also have "\<dots> = (\<Sum>l<n. \<Sum>r<m. U r k * U r l * (s k * s l * M l j))"
    by (rule sum.swap)
  also have "\<dots> = (\<Sum>l<n. (\<Sum>r<m. U r k * U r l) * (s k * s l * M l j))"
    by (simp add: sum_distrib_right)
  also have "\<dots> = (\<Sum>l<n. (if k = l then 1 else 0) * (s k * s l * M l j))"
    using assms by (intro sum.cong) auto
  also have "\<dots> = s k * s k * M k j" using assms(3) by (rule sum_delta_nat)
  finally show ?thesis by (simp add: power2_eq_square)
qed

lemma mm_diff_right: "mm K A (\<lambda>i j. B i j - C i j) = (\<lambda>i j. mm K A B i j - mm K A C i j)"
  by (simp add: mm_def right_diff_distrib sum_subtractf)

lemma mm_diff_left: "mm K (\<lambda>i j. B i j - C i j) A = (\<lambda>i j. mm K B A i j - mm K C A i j)"
  by (simp add: mm_def left_diff_distrib sum_subtractf)

lemma normal_equations:
  fixes U V W Z Y :: "nat \<Rightarrow> nat \<Rightarrow> real" and s t :: "nat \<Rightarrow> real"
  assumes oU: "\<forall>i<m. \<forall>j<m. (\<Sum>r<m. U r i * U r j) = (if i = j then 1 else 0)"
    and oW: "\<forall>i<p. \<forall>j<p. (\<Sum>r<p. W r i * W r j) = (if i = j then 1 else 0)"
    and oV: "\<forall>i<n. \<forall>j<n. (\<Sum>a<n. V i a * V j a) = (if i = j then 1 else 0)"
    and oZ: "\<forall>i<q. \<forall>j<q. (\<Sum>a<q. Z i a * Z j a) = (if i = j then 1 else 0)"
    and nm: "n \<le> m" and qp: "q \<le> p"
    and c: "\<forall>k<n. \<forall>l<q. (s k)\<^sup>2 * (t l)\<^sup>2 + lam \<noteq> 0"
  defines "Us \<equiv> \<lambda>i k. U i k * s k" and "Wt \<equiv> \<lambda>j l. W j l * t l"
  defines "Pf \<equiv> mm n Us V" and "Qf \<equiv> mm q Wt Z"
  defines "N \<equiv> mm p (mm m (tr Us) Y) Wt"
  defines "A \<equiv> \<lambda>k l. N k l / ((s k)\<^sup>2 * (t l)\<^sup>2 + lam)"
  defines "X \<equiv> mm q (mm n (tr V) A) Z"
  shows "mm p (mm m (tr Pf) (\<lambda>i j. mm q (mm n Pf X) (tr Qf) i j - Y i j)) Qf a b
           + lam * X a b = 0"
proof -
  have X': "X = mm n (tr V) (mm q A Z)"
    by (simp add: X_def mm_assoc)
  have trQ: "tr Qf = mm q (tr Z) (tr Wt)" by (simp add: Qf_def tr_mm)
  have trP: "tr Pf = mm n (tr V) (tr Us)" by (simp add: Pf_def tr_mm)
  \<comment> \<open>the fitted array is \<open>Us A Wt\<^sup>T\<close>\<close>
  have "mm q (mm n Pf X) (tr Qf)
        = mm n Us (mm n V (mm n (tr V) (mm q A (mm q Z (mm q (tr Z) (tr Wt))))))"
    by (simp add: Pf_def X' trQ mm_assoc)
  also have "\<dots> = mm n Us (mm q A (mm q Z (mm q (tr Z) (tr Wt))))"
    by (rule mm_cong_right) (rule orth_rows_cancel [OF oV])
  also have "\<dots> = mm n Us (mm q A (tr Wt))"
    by (intro mm_cong_right arg_cong [where f = "mm n Us"]) (rule orth_rows_cancel [OF oZ])
  finally have F: "mm q (mm n Pf X) (tr Qf) = mm n Us (mm q A (tr Wt))" .
  \<comment> \<open>its image under \<open>P\<^sup>T \<cdot> Q\<close>\<close>
  have "mm p (mm m (tr Pf) (mm n Us (mm q A (tr Wt)))) Qf
        = mm n (tr V) (mm m (tr Us) (mm n Us (mm q A (mm p (tr Wt) (mm q Wt Z)))))"
    by (simp add: trP Qf_def mm_assoc)
  also have "\<dots> = mm n (tr V) (mm m (tr Us) (mm n Us (mm q A (\<lambda>l b. (t l)\<^sup>2 * Z l b))))"
    unfolding Wt_def
    by (intro mm_cong_right arg_cong [where f = "mm n (tr V)"] arg_cong [where f = "mm m (tr Us)"]
          arg_cong [where f = "mm n Us"])
       (rule gram_cols_scaled [OF oW qp])
  also have "\<dots> = mm n (tr V) (\<lambda>k j. (s k)\<^sup>2 * mm q A (\<lambda>l b. (t l)\<^sup>2 * Z l b) k j)"
    unfolding Us_def
    by (rule mm_cong_right) (rule gram_cols_scaled [OF oU nm])
  finally have G1: "mm p (mm m (tr Pf) (mm n Us (mm q A (tr Wt)))) Qf
        = mm n (tr V) (\<lambda>k j. (s k)\<^sup>2 * mm q A (\<lambda>l b. (t l)\<^sup>2 * Z l b) k j)" .
  have G2: "mm p (mm m (tr Pf) Y) Qf = mm n (tr V) (mm q N Z)"
    by (simp add: trP Qf_def N_def mm_assoc)
  have split: "mm p (mm m (tr Pf) (\<lambda>i j. mm q (mm n Pf X) (tr Qf) i j - Y i j)) Qf a b
        = mm p (mm m (tr Pf) (mm q (mm n Pf X) (tr Qf))) Qf a b - mm p (mm m (tr Pf) Y) Qf a b"
    by (simp add: mm_diff_right mm_diff_left)
  have pointwise: "(s k)\<^sup>2 * mm q A (\<lambda>l b. (t l)\<^sup>2 * Z l b) k b - mm q N Z k b
                     + lam * mm q A Z k b = 0" if "k < n" for k
  proof -
    have "(s k)\<^sup>2 * mm q A (\<lambda>l b. (t l)\<^sup>2 * Z l b) k b - mm q N Z k b + lam * mm q A Z k b
          = (\<Sum>l<q. (((s k)\<^sup>2 * (t l)\<^sup>2 + lam) * A k l - N k l) * Z l b)"
      by (simp add: mm_def sum_distrib_left sum_subtractf sum.distrib [symmetric] algebra_simps)
    also have "\<dots> = (\<Sum>l<q. 0)"
      using c that by (intro sum.cong) (auto simp: A_def)
    finally show ?thesis by simp
  qed
  have "mm p (mm m (tr Pf) (mm q (mm n Pf X) (tr Qf))) Qf a b - mm p (mm m (tr Pf) Y) Qf a b
        = mm n (tr V) (\<lambda>k j. (s k)\<^sup>2 * mm q A (\<lambda>l b. (t l)\<^sup>2 * Z l b) k j) a b
          - mm n (tr V) (mm q N Z) a b"
    by (simp only: F G1 G2)
  with split have L: "mm p (mm m (tr Pf) (\<lambda>i j. mm q (mm n Pf X) (tr Qf) i j - Y i j)) Qf a b
        = mm n (tr V) (\<lambda>k j. (s k)\<^sup>2 * mm q A (\<lambda>l b. (t l)\<^sup>2 * Z l b) k j) a b
          - mm n (tr V) (mm q N Z) a b"
    by (rule trans)
  have "mm p (mm m (tr Pf) (\<lambda>i j. mm q (mm n Pf X) (tr Qf) i j - Y i j)) Qf a b + lam * X a b
        = (\<Sum>k<n. V k a * ((s k)\<^sup>2 * mm q A (\<lambda>l b. (t l)\<^sup>2 * Z l b) k b - mm q N Z k b
                              + lam * mm q A Z k b))"
    apply (subst L)
    apply (subst X')
    by (simp add: mm_def [of n] tr_def sum_distrib_left sum_subtractf sum.distrib [symmetric]
        algebra_simps)
  also have "\<dots> = (\<Sum>k<n. 0)"
    using pointwise by (intro sum.cong) auto
  finally show ?thesis by simp
qed

lemma fit_mm:
  "(\<Sum>a<n. \<Sum>b<q. P i a * X a b * Q j b) = mm q (mm n P X) (tr Q) i (j::nat)"
proof -
  have "(\<Sum>a<n. \<Sum>b<q. P i a * X a b * Q j b) = (\<Sum>b<q. \<Sum>a<n. P i a * X a b * Q j b)"
    by (rule sum.swap)
  then show ?thesis by (simp add: mm_def tr_def sum_distrib_right)
qed

lemma cross_swap:
  fixes R P D Q :: "nat \<Rightarrow> nat \<Rightarrow> real"
  shows "(\<Sum>i<m. \<Sum>j<p. R i j * (\<Sum>a<n. \<Sum>b<q. P i a * D a b * Q j b))
         = (\<Sum>a<n. \<Sum>b<q. D a b * mm p (mm m (tr P) R) Q a b)"
proof -
  have "(\<Sum>i<m. \<Sum>j<p. R i j * (\<Sum>a<n. \<Sum>b<q. P i a * D a b * Q j b))
        = (\<Sum>i<m. \<Sum>j<p. \<Sum>a<n. \<Sum>b<q. D a b * (P i a * R i j * Q j b))"
    by (simp add: sum_distrib_left mult.assoc mult.left_commute)
  also have "\<dots> = (\<Sum>i<m. \<Sum>a<n. \<Sum>j<p. \<Sum>b<q. D a b * (P i a * R i j * Q j b))"
    by (rule sum.cong [OF refl], rule sum.swap)
  also have "\<dots> = (\<Sum>a<n. \<Sum>i<m. \<Sum>j<p. \<Sum>b<q. D a b * (P i a * R i j * Q j b))"
    by (rule sum.swap)
  also have "\<dots> = (\<Sum>a<n. \<Sum>i<m. \<Sum>b<q. \<Sum>j<p. D a b * (P i a * R i j * Q j b))"
    by (rule sum.cong [OF refl], rule sum.cong [OF refl], rule sum.swap)
  also have "\<dots> = (\<Sum>a<n. \<Sum>b<q. \<Sum>i<m. \<Sum>j<p. D a b * (P i a * R i j * Q j b))"
    by (rule sum.cong [OF refl], rule sum.swap)
  also have "\<dots> = (\<Sum>a<n. \<Sum>b<q. \<Sum>j<p. \<Sum>i<m. D a b * (P i a * R i j * Q j b))"
    by (rule sum.cong [OF refl], rule sum.cong [OF refl], rule sum.swap)
  also have "\<dots> = (\<Sum>a<n. \<Sum>b<q. D a b * mm p (mm m (tr P) R) Q a b)"
    by (simp add: mm_def tr_def sum_distrib_left sum_distrib_right mult.assoc)
  finally show ?thesis .
qed

lemma cost_gap:
  fixes P Q Y X D :: "nat \<Rightarrow> nat \<Rightarrow> real"
  assumes ne: "\<And>a b. a < n \<Longrightarrow> b < q \<Longrightarrow>
      mm p (mm m (tr P) (\<lambda>i j. mm q (mm n P X) (tr Q) i j - Y i j)) Q a b + lam * X a b = 0"
  shows "(\<Sum>i<m. \<Sum>j<p. ((\<Sum>a<n. \<Sum>b<q. P i a * (X a b + D a b) * Q j b) - Y i j)\<^sup>2)
           + lam * (\<Sum>a<n. \<Sum>b<q. (X a b + D a b)\<^sup>2)
       = ((\<Sum>i<m. \<Sum>j<p. ((\<Sum>a<n. \<Sum>b<q. P i a * X a b * Q j b) - Y i j)\<^sup>2)
           + lam * (\<Sum>a<n. \<Sum>b<q. (X a b)\<^sup>2))
         + ((\<Sum>i<m. \<Sum>j<p. (\<Sum>a<n. \<Sum>b<q. P i a * D a b * Q j b)\<^sup>2)
           + lam * (\<Sum>a<n. \<Sum>b<q. (D a b)\<^sup>2))"
proof -
  define FX where "FX = (\<lambda>i j. \<Sum>a<n. \<Sum>b<q. P i a * X a b * Q j b)"
  define FD where "FD = (\<lambda>i j. \<Sum>a<n. \<Sum>b<q. P i a * D a b * Q j b)"
  define R where "R = (\<lambda>i j. FX i j - Y i j)"
  define G where "G = mm p (mm m (tr P) R) Q"
  have lin: "(\<Sum>a<n. \<Sum>b<q. P i a * (X a b + D a b) * Q j b) = FX i j + FD i j" for i j
    by (simp add: FX_def FD_def algebra_simps sum.distrib)
  have sq1: "(\<Sum>i<m. \<Sum>j<p. (FX i j + FD i j - Y i j)\<^sup>2)
        = (\<Sum>i<m. \<Sum>j<p. (R i j)\<^sup>2) + (\<Sum>i<m. \<Sum>j<p. (FD i j)\<^sup>2)
          + 2 * (\<Sum>i<m. \<Sum>j<p. R i j * FD i j)"
    by (simp add: R_def power2_eq_square algebra_simps sum.distrib sum_distrib_left sum_subtractf)
  have sq2: "(\<Sum>a<n. \<Sum>b<q. (X a b + D a b)\<^sup>2)
        = (\<Sum>a<n. \<Sum>b<q. (X a b)\<^sup>2) + (\<Sum>a<n. \<Sum>b<q. (D a b)\<^sup>2)
          + 2 * (\<Sum>a<n. \<Sum>b<q. D a b * X a b)"
    by (simp add: power2_eq_square algebra_simps sum.distrib sum_distrib_left)
  have cs: "(\<Sum>i<m. \<Sum>j<p. R i j * FD i j) = (\<Sum>a<n. \<Sum>b<q. D a b * G a b)"
    unfolding FD_def G_def by (rule cross_swap)
  have Rmm: "R = (\<lambda>i j. mm q (mm n P X) (tr Q) i j - Y i j)"
    by (simp add: R_def FX_def fit_mm)
  have "(\<Sum>a<n. \<Sum>b<q. D a b * G a b) + lam * (\<Sum>a<n. \<Sum>b<q. D a b * X a b)
        = (\<Sum>a<n. \<Sum>b<q. D a b * (G a b + lam * X a b))"
    by (simp add: algebra_simps sum.distrib sum_distrib_left)
  also have "\<dots> = (\<Sum>a<n. \<Sum>b<q. 0)"
    using ne by (intro sum.cong refl) (simp add: G_def Rmm)
  finally have zero: "(\<Sum>a<n. \<Sum>b<q. D a b * G a b) + lam * (\<Sum>a<n. \<Sum>b<q. D a b * X a b) = 0"
    by simp
  have "(\<Sum>i<m. \<Sum>j<p. (FX i j + FD i j - Y i j)\<^sup>2) + lam * (\<Sum>a<n. \<Sum>b<q. (X a b + D a b)\<^sup>2)
        = ((\<Sum>i<m. \<Sum>j<p. (R i j)\<^sup>2) + lam * (\<Sum>a<n. \<Sum>b<q. (X a b)\<^sup>2))
          + ((\<Sum>i<m. \<Sum>j<p. (FD i j)\<^sup>2) + lam * (\<Sum>a<n. \<Sum>b<q. (D a b)\<^sup>2))
          + 2 * ((\<Sum>a<n. \<Sum>b<q. D a b * G a b) + lam * (\<Sum>a<n. \<Sum>b<q. D a b * X a b))"
    unfolding sq1 sq2 cs by (simp add: algebra_simps)
  then show ?thesis
    unfolding zero lin by (simp add: R_def FX_def FD_def)
qed

lemma mm_cong:
  assumes "\<And>k. k < K \<Longrightarrow> A i k = A' i k" and "\<And>k. k < K \<Longrightarrow> B k j = B' k j"
  shows "mm K A B i j = mm K A' B' i j"
  using assms by (simp add: mm_def)

lemma svd_ok_dims:
  assumes "svd_ok A (U, S, Vh)" and "cols A \<le> rows A"
  shows "rows U = rows A" "cols U = rows A" "rows Vh = cols A" "cols Vh = cols A"
    "length S = cols A"
  using assms by (auto simp: svd_ok_def orthogonal_def)

lemma sq_den_pos: "0 < lam \<Longrightarrow> 0 < x * x * (y * y) + (lam::real)"
  by (metis add_pos_nonneg add.commute mult_nonneg_nonneg zero_le_square)

lemma sigma_matrix_value:
  assumes "length S = cols A" and "cols A \<le> rows A"
  shows "\<exists>D. sigma_matrix A S = Inr D \<and> rows D = rows A \<and> cols D = cols A
           \<and> (\<forall>r k. at2 D r k = (if r = k \<and> r < cols A then S ! r else 0))"
  using assms
  by (auto simp: sigma_matrix_def concatenate_def diag_def zeros2_def intro!: ext)

lemma sum_pick:
  fixes f :: "nat \<Rightarrow> real"
  assumes "k < m"
  shows "(\<Sum>r<m. (if r = k \<and> c then s r else 0) * f r) = (if c then s k * f k else 0)"
proof -
  have "(\<Sum>r<m. (if r = k \<and> c then s r else 0) * f r)
        = (\<Sum>r<m. if r = k then (if c then s k * f k else 0) else 0)"
    by (intro sum.cong refl) auto
  also have "\<dots> = (if c then s k * f k else 0)"
    using assms by (simp add: sum.delta)
  finally show ?thesis .
qed

lemma numerator_value:
  assumes dl: "rows DL = m" "cols DL = n" "\<forall>r k. at2 DL r k = (if r = k \<and> r < n then SL ! r else 0)"
    and dr: "rows DR = p" "cols DR = q" "\<forall>r k. at2 DR r k = (if r = k \<and> r < q then SR ! r else 0)"
    and ul: "rows UL = m" "cols UL = m" and ur: "rows UR = p" "cols UR = p"
    and yc: "rows Yc = m" "cols Yc = p"
    and nm: "n \<le> m" and qp: "q \<le> p"
  shows "\<exists>num. multi_dot [transpose2 DL, transpose2 UL, Yc, UR, DR] = Inr num
           \<and> rows num = n \<and> cols num = q
           \<and> (\<forall>k<n. \<forall>l<q. at2 num k l =
                 mm p (mm m (tr (\<lambda>i k. at2 UL i k * SL ! k)) (at2 Yc))
                   (\<lambda>j l. at2 UR j l * SR ! l) k l)"
proof -
  have left: "mm m (tr (at2 DL)) (tr (at2 UL)) k i = tr (\<lambda>i k. at2 UL i k * SL ! k) k i"
    if "k < n" for k i
  proof -
    have "mm m (tr (at2 DL)) (tr (at2 UL)) k i
          = (\<Sum>r<m. (if r = k \<and> k < n then SL ! r else 0) * at2 UL i r)"
      using dl(3) by (auto simp: mm_def tr_def intro!: sum.cong)
    also have "\<dots> = SL ! k * at2 UL i k"
      using that nm by (subst sum_pick) auto
    finally show ?thesis by (simp add: tr_def)
  qed
  have right: "mm p (at2 UR) (at2 DR) j l = at2 UR j l * SR ! l" if "l < q" for j l
  proof -
    have "mm p (at2 UR) (at2 DR) j l
          = (\<Sum>r<p. (if r = l \<and> l < q then SR ! r else 0) * at2 UR j r)"
      using dr(3) by (auto simp: mm_def intro!: sum.cong)
    also have "\<dots> = SR ! l * at2 UR j l"
      using that qp by (subst sum_pick) auto
    finally show ?thesis by simp
  qed
  have val: "mm p (mm p (mm m (mm m (tr (at2 DL)) (tr (at2 UL))) (at2 Yc)) (at2 UR)) (at2 DR) k l
        = mm p (mm m (tr (\<lambda>i k. at2 UL i k * SL ! k)) (at2 Yc)) (\<lambda>j l. at2 UR j l * SR ! l) k l"
    if "k < n" "l < q" for k l
  proof -
    have "mm p (mm p (mm m (mm m (tr (at2 DL)) (tr (at2 UL))) (at2 Yc)) (at2 UR)) (at2 DR) k l
          = mm m (mm m (tr (at2 DL)) (tr (at2 UL))) (mm p (at2 Yc) (mm p (at2 UR) (at2 DR))) k l"
      by (simp only: mm_assoc)
    also have "\<dots> = mm m (tr (\<lambda>i k. at2 UL i k * SL ! k))
                        (mm p (at2 Yc) (\<lambda>j l. at2 UR j l * SR ! l)) k l"
      by (intro mm_cong left right that refl)
    also have "\<dots> = mm p (mm m (tr (\<lambda>i k. at2 UL i k * SL ! k)) (at2 Yc))
                        (\<lambda>j l. at2 UR j l * SR ! l) k l"
      by (simp only: mm_assoc)
    finally show ?thesis .
  qed
  have "multi_dot [transpose2 DL, transpose2 UL, Yc, UR, DR]
        = Inr \<lparr>rows = n, cols = q,
               at2 = mm p (mm p (mm m (mm m (tr (at2 DL)) (tr (at2 UL))) (at2 Yc)) (at2 UR))
                       (at2 DR)\<rparr>"
    by (simp add: multi_dot_def dot_def transpose2_def ebind_def dl dr ul ur yc)
  with val show ?thesis by simp
qed

lemma inner_value:
  assumes nu: "rows num = n" "cols num = q"
    and ls: "length SL = n" "length SR = q"
    and pos: "0 < lmbd"
  shows "\<exists>inner.
           ebind (broadcast2 (\<lambda>x y. x + y) (outer (map (\<lambda>s. s * s) SL) (map (\<lambda>s. s * s) SR))
                    (full2 (n, q) lmbd))
             (divide2 num) = Inr inner
           \<and> rows inner = n \<and> cols inner = q
           \<and> (\<forall>k<n. \<forall>l<q. at2 inner k l = at2 num k l / ((SL ! k)\<^sup>2 * (SR ! l)\<^sup>2 + lmbd))"
proof -
  have nz: "\<not> (\<exists>i<n. \<exists>j<q.
       map (\<lambda>s. s * s) SL ! (if n = 1 then 0 else i)
         * map (\<lambda>s. s * s) SR ! (if q = 1 then 0 else j) + lmbd = 0)"
  proof clarify
    fix i j assume "i < n" "j < q"
      and e: "map (\<lambda>s. s * s) SL ! (if n = 1 then 0 else i)
          * map (\<lambda>s. s * s) SR ! (if q = 1 then 0 else j) + lmbd = 0"
    then have "(if n = 1 then 0 else i) < length SL" "(if q = 1 then 0 else j) < length SR"
      using ls by auto
    then have "0 < map (\<lambda>s. s * s) SL ! (if n = 1 then 0 else i)
          * map (\<lambda>s. s * s) SR ! (if q = 1 then 0 else j) + lmbd"
      using sq_den_pos [OF pos] by (simp del: One_nat_def)
    with e show False by simp
  qed
  have idx: "(if n = 1 then 0 else k) = k" "(if q = 1 then 0 else l) = l" if "k < n" "l < q" for k l
    using that by auto
  show ?thesis
    using nz
    apply (simp add: broadcast2_def broadcast_len_def outer_def full2_def divide2_def ebind_def
        nu ls del: One_nat_def)
    apply (intro allI impI)
    apply (simp add: idx ls power2_eq_square del: One_nat_def)
    done
qed

lemma channel_solution_value:
  assumes sP: "svd P = Inr (UL, SL, VLh)" and okP: "svd_ok P (UL, SL, VLh)"
    and sQ: "svd Q = Inr (UR, SR, VRh)" and okQ: "svd_ok Q (UR, SR, VRh)"
    and tP: "cols P \<le> rows P" and tQ: "cols Q \<le> rows Q"
    and y0: "dim0 Y = rows P" and y1: "dim1 Y = rows Q" and y2: "c < dim2 Y"
    and pos: "0 < lmbd"
  shows "\<exists>R. channel_solution svd Y P Q lmbd (cols P, cols Q) c = Inr R
           \<and> rows R = cols P \<and> cols R = cols Q
           \<and> (\<forall>a<cols P. \<forall>b<cols Q. at2 R a b =
                mm (cols Q) (mm (cols P) (tr (at2 VLh))
                  (\<lambda>k l. mm (rows Q) (mm (rows P) (tr (\<lambda>i k. at2 UL i k * SL ! k))
                                          (\<lambda>i j. at3 Y i j c))
                            (\<lambda>j l. at2 UR j l * SR ! l) k l
                          / ((SL ! k)\<^sup>2 * (SR ! l)\<^sup>2 + lmbd)))
                  (at2 VRh) a b)"
proof -
  note dP = svd_ok_dims [OF okP tP] and dQ = svd_ok_dims [OF okQ tQ]
  from sigma_matrix_value [OF dP(5) tP] obtain DL where
    DL: "sigma_matrix P SL = Inr DL" "rows DL = rows P" "cols DL = cols P"
      "\<forall>r k. at2 DL r k = (if r = k \<and> r < cols P then SL ! r else 0)" by blast
  from sigma_matrix_value [OF dQ(5) tQ] obtain DR where
    DR: "sigma_matrix Q SR = Inr DR" "rows DR = rows Q" "cols DR = cols Q"
      "\<forall>r k. at2 DR r k = (if r = k \<and> r < cols Q then SR ! r else 0)" by blast
  define Yc where "Yc = \<lparr>rows = dim0 Y, cols = dim1 Y, at2 = (\<lambda>i j. at3 Y i j c)\<rparr>"
  have ch: "channel Y c = Inr Yc" using y2 by (simp add: channel_def Yc_def)
  have ycd: "rows Yc = rows P" "cols Yc = rows Q" "at2 Yc = (\<lambda>i j. at3 Y i j c)"
    by (simp_all add: Yc_def y0 y1)
  from numerator_value [OF DL(2,3,4) DR(2,3,4) dP(1,2) dQ(1,2) ycd(1,2) tP tQ]
  obtain num where num: "multi_dot [transpose2 DL, transpose2 UL, Yc, UR, DR] = Inr num"
      "rows num = cols P" "cols num = cols Q"
      "\<forall>k<cols P. \<forall>l<cols Q. at2 num k l =
          mm (rows Q) (mm (rows P) (tr (\<lambda>i k. at2 UL i k * SL ! k)) (at2 Yc))
            (\<lambda>j l. at2 UR j l * SR ! l) k l" by blast
  from inner_value [OF num(2,3) dP(5) dQ(5) pos]
  obtain inner where inner:
      "ebind (broadcast2 (\<lambda>x y. x + y) (outer (map (\<lambda>s. s * s) SL) (map (\<lambda>s. s * s) SR))
                (full2 (cols P, cols Q) lmbd))
         (divide2 num) = Inr inner"
      "rows inner = cols P" "cols inner = cols Q"
      "\<forall>k<cols P. \<forall>l<cols Q. at2 inner k l = at2 num k l / ((SL ! k)\<^sup>2 * (SR ! l)\<^sup>2 + lmbd)"
    by blast
  have fin: "multi_dot [transpose2 VLh, inner, transpose2 (transpose2 VRh)]
        = Inr \<lparr>rows = cols P, cols = cols Q,
               at2 = mm (cols Q) (mm (cols P) (tr (at2 VLh)) (at2 inner)) (at2 VRh)\<rparr>"
    by (simp add: multi_dot_def dot_def transpose2_def ebind_def dP dQ inner(2,3) tr_tr)
  have cs: "channel_solution svd Y P Q lmbd (cols P, cols Q) c
        = Inr \<lparr>rows = cols P, cols = cols Q,
               at2 = mm (cols Q) (mm (cols P) (tr (at2 VLh)) (at2 inner)) (at2 VRh)\<rparr>"
  proof -
    from inner(1) obtain den where
      den: "broadcast2 (\<lambda>x y. x + y) (outer (map (\<lambda>s. s * s) SL) (map (\<lambda>s. s * s) SR))
                (full2 (cols P, cols Q) lmbd) = Inr den" "divide2 num den = Inr inner"
      by (auto simp: ebind_def split: sum.splits)
    show ?thesis
      by (simp add: channel_solution_def sP sQ DL(1) DR(1) ch num(1) den fin ebind_def Let_def)
  qed
  have "mm (cols Q) (mm (cols P) (tr (at2 VLh)) (at2 inner)) (at2 VRh) a b =
                mm (cols Q) (mm (cols P) (tr (at2 VLh))
                  (\<lambda>k l. mm (rows Q) (mm (rows P) (tr (\<lambda>i k. at2 UL i k * SL ! k))
                                          (\<lambda>i j. at3 Y i j c))
                            (\<lambda>j l. at2 UR j l * SR ! l) k l
                          / ((SL ! k)\<^sup>2 * (SR ! l)\<^sup>2 + lmbd)))
                  (at2 VRh) a b" for a b
    using inner(4) num(4) by (intro mm_cong refl) (simp add: ycd(3))
  with cs show ?thesis by simp
qed

lemma tikhonov_cost_cong:
  assumes "rows P = rows P'" "cols P = cols P'" "rows Q = rows Q'" "cols Q = cols Q'"
    and "\<And>i a. i < rows P \<Longrightarrow> a < cols P \<Longrightarrow> at2 P i a = at2 P' i a"
    and "\<And>j b. j < rows Q \<Longrightarrow> b < cols Q \<Longrightarrow> at2 Q j b = at2 Q' j b"
    and "\<And>a b. a < cols P \<Longrightarrow> b < cols Q \<Longrightarrow> X a b = X' a b"
  shows "tikhonov_cost P Q Yc lmbd X = tikhonov_cost P' Q' Yc lmbd X'"
proof -
  have fit: "(\<Sum>a<cols P. \<Sum>b<cols Q. at2 P i a * X a b * at2 Q j b)
        = (\<Sum>a<cols P'. \<Sum>b<cols Q'. at2 P' i a * X' a b * at2 Q' j b)"
    if "i < rows P" "j < rows Q" for i j
    unfolding assms(2,4) [symmetric]
    by (intro sum.cong refl) (simp add: assms(5,6,7) that)
  have a: "(\<Sum>i<rows P. \<Sum>j<rows Q.
        ((\<Sum>a<cols P. \<Sum>b<cols Q. at2 P i a * X a b * at2 Q j b) - Yc i j)\<^sup>2)
      = (\<Sum>i<rows P'. \<Sum>j<rows Q'.
        ((\<Sum>a<cols P'. \<Sum>b<cols Q'. at2 P' i a * X' a b * at2 Q' j b) - Yc i j)\<^sup>2)"
    unfolding assms(1,3) [symmetric]
    by (intro sum.cong refl) (simp add: fit)
  have b: "(\<Sum>a<cols P. \<Sum>b<cols Q. (X a b)\<^sup>2) = (\<Sum>a<cols P'. \<Sum>b<cols Q'. (X' a b)\<^sup>2)"
    unfolding assms(2,4) [symmetric]
    by (intro sum.cong refl) (simp add: assms(7))
  show ?thesis by (simp only: tikhonov_cost_def a b)
qed

lemma normal_equations_minimise:
  fixes Pf Qf Yc X :: "nat \<Rightarrow> nat \<Rightarrow> real"
  assumes ne: "\<And>a b. a < n \<Longrightarrow> b < q \<Longrightarrow>
      mm p (mm m (tr Pf) (\<lambda>i j. mm q (mm n Pf X) (tr Qf) i j - Yc i j)) Qf a b + lam * X a b = 0"
    and pos: "0 < lam"
  defines "cost \<equiv> tikhonov_cost \<lparr>rows = m, cols = n, at2 = Pf\<rparr> \<lparr>rows = p, cols = q, at2 = Qf\<rparr> Yc lam"
  shows "cost X \<le> cost X'"
    and "cost X' = cost X \<Longrightarrow> a < n \<Longrightarrow> b < q \<Longrightarrow> X' a b = X a b"
proof -
  define D where "D = (\<lambda>a b. X' a b - X a b)"
  define g1 where "g1 = (\<Sum>i<m. \<Sum>j<p. (\<Sum>a<n. \<Sum>b<q. Pf i a * D a b * Qf j b)\<^sup>2)"
  define g2 where "g2 = (\<Sum>a<n. \<Sum>b<q. (D a b)\<^sup>2)"
  have X': "X' = (\<lambda>a b. X a b + D a b)" by (simp add: D_def)
  have gap: "cost X' = cost X + (g1 + lam * g2)"
    unfolding cost_def tikhonov_cost_def g1_def g2_def
    by (subst X', subst X') (simp add: cost_gap [of n q p m Pf X Qf Yc lam D, OF ne])
  have g1: "0 \<le> g1" unfolding g1_def by (intro sum_nonneg) simp
  have g2: "0 \<le> g2" unfolding g2_def by (intro sum_nonneg) simp
  from gap g1 g2 pos show "cost X \<le> cost X'" by simp
  assume "cost X' = cost X" and ab: "a < n" "b < q"
  with gap have "g1 + lam * g2 = 0" by simp
  moreover have "0 \<le> lam * g2" using pos g2 by simp
  ultimately have "lam * g2 = 0" using g1 by linarith
  with pos have "g2 = 0" by simp
  then have "(\<Sum>b<q. (D a b)\<^sup>2) = 0"
    unfolding g2_def using ab(1)
    by (subst (asm) sum_nonneg_eq_0_iff) (auto intro: sum_nonneg)
  then have "(D a b)\<^sup>2 = 0"
    using ab(2) by (subst (asm) sum_nonneg_eq_0_iff) auto
  then show "X' a b = X a b" by (simp add: D_def)
qed

lemma solve_channel_value:
  assumes sP: "svd P = Inr (UL, SL, VLh)" and okP: "svd_ok P (UL, SL, VLh)"
    and sQ: "svd Q = Inr (UR, SR, VRh)" and okQ: "svd_ok Q (UR, SR, VRh)"
    and tP: "cols P \<le> rows P" and tQ: "cols Q \<le> rows Q"
    and y0: "dim0 Y = rows P" and y1: "dim1 Y = rows Q" and y2: "c < dim2 Y"
    and pos: "0 < lmbd"
  shows "\<exists>R. solve_channel svd Y P Q lmbd c = Inr R
           \<and> rows R = cols P \<and> cols R = cols Q
           \<and> (\<forall>a<cols P. \<forall>b<cols Q. at2 R a b =
                mm (cols Q) (mm (cols P) (tr (at2 VLh))
                  (\<lambda>k l. mm (rows Q) (mm (rows P) (tr (\<lambda>i k. at2 UL i k * SL ! k))
                                          (\<lambda>i j. at3 Y i j c))
                            (\<lambda>j l. at2 UR j l * SR ! l) k l
                          / ((SL ! k)\<^sup>2 * (SR ! l)\<^sup>2 + lmbd)))
                  (at2 VRh) a b)"
proof -
  from channel_solution_value [OF assms] obtain R0 where
    R0: "channel_solution svd Y P Q lmbd (cols P, cols Q) c = Inr R0"
      "rows R0 = cols P" "cols R0 = cols Q"
      "\<forall>a<cols P. \<forall>b<cols Q. at2 R0 a b =
                mm (cols Q) (mm (cols P) (tr (at2 VLh))
                  (\<lambda>k l. mm (rows Q) (mm (rows P) (tr (\<lambda>i k. at2 UL i k * SL ! k))
                                          (\<lambda>i j. at3 Y i j c))
                            (\<lambda>j l. at2 UR j l * SR ! l) k l
                          / ((SL ! k)\<^sup>2 * (SR ! l)\<^sup>2 + lmbd)))
                  (at2 VRh) a b" by blast
  have idx: "(if cols P = 1 then 0 else a) = a" "(if cols Q = 1 then 0 else b) = b"
    if "a < cols P" "b < cols Q" for a b
    using that by auto
  show ?thesis
    using R0(4)
    by (simp add: solve_channel_def R0(1,2,3) assign_channel_def ebind_def idx del: One_nat_def)
qed

lemma solution_depends_on_channel:
  assumes "\<And>i j. i < m \<Longrightarrow> j < p \<Longrightarrow> Y' i j = (Y i j :: real)"
  shows "mm q (mm n V (\<lambda>k l. mm p (mm m A Y') B k l / d k l)) Z a b
       = mm q (mm n V (\<lambda>k l. mm p (mm m A Y) B k l / d k l)) Z a b"
proof -
  have "mm p (mm m A Y') B k l = mm p (mm m A Y) B k l" for k l
    by (intro mm_cong refl) (simp add: assms)
  then show ?thesis by simp
qed

lemma solve_channel_minimises:
  assumes sP: "svd P = Inr (UL, SL, VLh)" and okP: "svd_ok P (UL, SL, VLh)"
    and sQ: "svd Q = Inr (UR, SR, VRh)" and okQ: "svd_ok Q (UR, SR, VRh)"
    and tP: "cols P \<le> rows P" and tQ: "cols Q \<le> rows Q"
    and y0: "dim0 Y = rows P" and y1: "dim1 Y = rows Q" and y2: "c < dim2 Y"
    and pos: "0 < lmbd"
    and R: "solve_channel svd Y P Q lmbd c = Inr R"
  shows "tikhonov_cost P Q (slice3 Y c) lmbd (at2 R) \<le> tikhonov_cost P Q (slice3 Y c) lmbd X'"
    and "tikhonov_cost P Q (slice3 Y c) lmbd X' = tikhonov_cost P Q (slice3 Y c) lmbd (at2 R)
         \<Longrightarrow> a < cols P \<Longrightarrow> b < cols Q \<Longrightarrow> X' a b = at2 R a b"
proof -
  note dP = svd_ok_dims [OF okP tP] and dQ = svd_ok_dims [OF okQ tQ]
  define s where "s = (\<lambda>k. SL ! k)"
  define t where "t = (\<lambda>l. SR ! l)"
  define Us where "Us = (\<lambda>i k. at2 UL i k * s k)"
  define Wt where "Wt = (\<lambda>j l. at2 UR j l * t l)"
  define Pf where "Pf = mm (cols P) Us (at2 VLh)"
  define Qf where "Qf = mm (cols Q) Wt (at2 VRh)"
  define N where "N = mm (rows Q) (mm (rows P) (tr Us) (slice3 Y c)) Wt"
  define A where "A = (\<lambda>k l. N k l / ((s k)\<^sup>2 * (t l)\<^sup>2 + lmbd))"
  define Xf where "Xf = mm (cols Q) (mm (cols P) (tr (at2 VLh)) A) (at2 VRh)"
  from solve_channel_value [OF sP okP sQ okQ tP tQ y0 y1 y2 pos] R
  have Rv: "at2 R a b = Xf a b" if "a < cols P" "b < cols Q" for a b
    using that by (simp add: Xf_def A_def N_def Us_def Wt_def s_def t_def slice3_def)
  have oU: "\<forall>i<rows P. \<forall>j<rows P. (\<Sum>r<rows P. at2 UL r i * at2 UL r j) = (if i = j then 1 else 0)"
    and oV: "\<forall>i<cols P. \<forall>j<cols P. (\<Sum>r<cols P. at2 VLh i r * at2 VLh j r) = (if i = j then 1 else 0)"
    using okP dP by (simp_all add: svd_ok_def orthogonal_def)
  have oW: "\<forall>i<rows Q. \<forall>j<rows Q. (\<Sum>r<rows Q. at2 UR r i * at2 UR r j) = (if i = j then 1 else 0)"
    and oZ: "\<forall>i<cols Q. \<forall>j<cols Q. (\<Sum>r<cols Q. at2 VRh i r * at2 VRh j r) = (if i = j then 1 else 0)"
    using okQ dQ by (simp_all add: svd_ok_def orthogonal_def)
  have nz: "\<forall>k<cols P. \<forall>l<cols Q. (s k)\<^sup>2 * (t l)\<^sup>2 + lmbd \<noteq> 0"
    using sq_den_pos [OF pos] by (simp add: power2_eq_square less_imp_neq [THEN not_sym])
  have ne: "mm (rows Q) (mm (rows P) (tr Pf)
              (\<lambda>i j. mm (cols Q) (mm (cols P) Pf Xf) (tr Qf) i j - slice3 Y c i j)) Qf a b
            + lmbd * Xf a b = 0" for a b
    unfolding Pf_def Qf_def Xf_def A_def N_def Us_def Wt_def
    by (rule normal_equations [OF oU oW oV oZ tP tQ nz])
  have Pv: "at2 P i a = Pf i a" if "i < rows P" "a < cols P" for i a
    using okP that dP by (simp add: svd_ok_def Pf_def Us_def s_def mm_def)
  have Qv: "at2 Q j b = Qf j b" if "j < rows Q" "b < cols Q" for j b
    using okQ that dQ by (simp add: svd_ok_def Qf_def Wt_def t_def mm_def)
  have cost: "tikhonov_cost P Q (slice3 Y c) lmbd X
        = tikhonov_cost \<lparr>rows = rows P, cols = cols P, at2 = Pf\<rparr>
            \<lparr>rows = rows Q, cols = cols Q, at2 = Qf\<rparr> (slice3 Y c) lmbd X" for X
    by (rule tikhonov_cost_cong) (simp_all add: Pv Qv)
  have costR: "tikhonov_cost P Q (slice3 Y c) lmbd (at2 R)
        = tikhonov_cost \<lparr>rows = rows P, cols = cols P, at2 = Pf\<rparr>
            \<lparr>rows = rows Q, cols = cols Q, at2 = Qf\<rparr> (slice3 Y c) lmbd Xf"
    by (rule tikhonov_cost_cong) (simp_all add: Pv Qv Rv)
  show "tikhonov_cost P Q (slice3 Y c) lmbd (at2 R) \<le> tikhonov_cost P Q (slice3 Y c) lmbd X'"
    unfolding costR cost [of X'] by (rule normal_equations_minimise(1) [OF ne pos])
  assume "tikhonov_cost P Q (slice3 Y c) lmbd X' = tikhonov_cost P Q (slice3 Y c) lmbd (at2 R)"
    and ab: "a < cols P" "b < cols Q"
  then have "X' a b = Xf a b"
    unfolding costR cost [of X'] by (rule normal_equations_minimise(2) [OF ne pos])
  with Rv [OF ab] show "X' a b = at2 R a b" by simp
qed

lemma X_bayer_of_channels:
  assumes "\<And>c. c < 4 \<Longrightarrow> \<exists>R. solve_channel svd Y P Q lmbd c = Inr R"
  shows "\<exists>Xb. X_bayer_of svd Y P Q lmbd = Inr Xb
           \<and> dim0 Xb = cols P \<and> dim1 Xb = cols Q \<and> dim2 Xb = 4
           \<and> (\<forall>c<4. \<forall>R. solve_channel svd Y P Q lmbd c = Inr R \<longrightarrow> slice3 Xb c = at2 R)"
proof -
  from assms [of 0] obtain R0 where R0: "solve_channel svd Y P Q lmbd 0 = Inr R0" by auto
  from assms [of 1] obtain R1 where R1: "solve_channel svd Y P Q lmbd 1 = Inr R1" by auto
  from assms [of 2] obtain R2 where R2: "solve_channel svd Y P Q lmbd 2 = Inr R2" by auto
  from assms [of 3] obtain R3 where R3: "solve_channel svd Y P Q lmbd 3 = Inr R3" by auto
  have cases4: "c = 0 \<or> c = 1 \<or> c = 2 \<or> c = 3" if "c < 4" for c :: nat
    using that by arith
  show ?thesis
    apply (simp add: X_bayer_of_def R0 R1 R2 R3 ebind_def slice3_def del: One_nat_def)
    apply (intro allI impI)
    subgoal for c R
      using cases4 [of c] R0 R1 R2 R3 by auto
    done
qed

subsection \<open>The closed form is the regularised least-squares solution\<close>

text \<open>
  Claim C2, for factors with at least as many rows as columns.  Let \<open>P\<close> and \<open>Q\<close> have
  at least as many rows as columns, let \<open>Y\<close> have the shape \<open>(rows P, rows Q, \<ge> 4)\<close>, let
  numpy's SVD return decompositions of \<open>P\<close> and \<open>Q\<close>, and let \<open>lmbd > 0\<close>.  Then the solver
  returns, before clipping, an array of shape \<open>(cols P, cols Q, 4)\<close>, and for each Bayer
  channel \<open>c < 4\<close>: its channel \<open>c\<close> minimises
  \<open>||P X Q\<^sup>T - Y[:,:,c]||\<^sup>2 + lmbd ||X||\<^sup>2\<close> over all \<open>X\<close>; every \<open>X\<close> of the same cost has the
  same entries; and a measurement \<open>Y'\<close> of the same shape that agrees with \<open>Y\<close> on channel
  \<open>c\<close> gives the same channel \<open>c\<close>.  No rank condition on \<open>P\<close> or \<open>Q\<close> is needed.
\<close>

theorem tikhonov_closed_form_tall:
  assumes sP: "svd P = Inr uP" and okP: "svd_ok P uP"
    and sQ: "svd Q = Inr uQ" and okQ: "svd_ok Q uQ"
    and tP: "cols P \<le> rows P" and tQ: "cols Q \<le> rows Q"
    and y0: "dim0 Y = rows P" and y1: "dim1 Y = rows Q" and y2: "4 \<le> dim2 Y"
    and pos: "0 < lmbd"
  shows "\<exists>Xb. X_bayer_of svd Y P Q lmbd = Inr Xb
           \<and> dim0 Xb = cols P \<and> dim1 Xb = cols Q \<and> dim2 Xb = 4
           \<and> (\<forall>c<4.
                (\<forall>X'. tikhonov_cost P Q (slice3 Y c) lmbd (slice3 Xb c)
                         \<le> tikhonov_cost P Q (slice3 Y c) lmbd X')
              \<and> (\<forall>X'. tikhonov_cost P Q (slice3 Y c) lmbd X'
                         = tikhonov_cost P Q (slice3 Y c) lmbd (slice3 Xb c)
                       \<longrightarrow> (\<forall>a<cols P. \<forall>b<cols Q. X' a b = slice3 Xb c a b))
              \<and> (\<forall>Y'. dim0 Y' = rows P \<and> dim1 Y' = rows Q \<and> 4 \<le> dim2 Y'
                         \<and> (\<forall>i<rows P. \<forall>j<rows Q. slice3 Y' c i j = slice3 Y c i j)
                       \<longrightarrow> (\<exists>Xb'. X_bayer_of svd Y' P Q lmbd = Inr Xb'
                              \<and> (\<forall>a<cols P. \<forall>b<cols Q. slice3 Xb' c a b = slice3 Xb c a b))))"
proof -
  obtain UL SL VLh where uP: "uP = (UL, SL, VLh)" by (cases uP) auto
  obtain UR SR VRh where uQ: "uQ = (UR, SR, VRh)" by (cases uQ) auto
  note sP' = sP [unfolded uP] and okP' = okP [unfolded uP]
    and sQ' = sQ [unfolded uQ] and okQ' = okQ [unfolded uQ]
  have val: "\<exists>R. solve_channel svd Z P Q lmbd c = Inr R
           \<and> rows R = cols P \<and> cols R = cols Q
           \<and> (\<forall>a<cols P. \<forall>b<cols Q. at2 R a b =
                mm (cols Q) (mm (cols P) (tr (at2 VLh))
                  (\<lambda>k l. mm (rows Q) (mm (rows P) (tr (\<lambda>i k. at2 UL i k * SL ! k))
                                          (\<lambda>i j. at3 Z i j c))
                            (\<lambda>j l. at2 UR j l * SR ! l) k l
                          / ((SL ! k)\<^sup>2 * (SR ! l)\<^sup>2 + lmbd)))
                  (at2 VRh) a b)"
    if "dim0 Z = rows P" "dim1 Z = rows Q" "4 \<le> dim2 Z" "c < 4" for Z c
    using that by (intro solve_channel_value [OF sP' okP' sQ' okQ' tP tQ _ _ _ pos]) auto
  have "\<exists>R. solve_channel svd Y P Q lmbd c = Inr R" if "c < 4" for c
    using val [OF y0 y1 y2 that] by blast
  from X_bayer_of_channels [OF this] obtain Xb where
    Xb: "X_bayer_of svd Y P Q lmbd = Inr Xb" "dim0 Xb = cols P" "dim1 Xb = cols Q" "dim2 Xb = 4"
      "\<And>c R. c < 4 \<Longrightarrow> solve_channel svd Y P Q lmbd c = Inr R \<Longrightarrow> slice3 Xb c = at2 R"
    by blast
  have main: "(\<forall>X'. tikhonov_cost P Q (slice3 Y c) lmbd (slice3 Xb c)
                         \<le> tikhonov_cost P Q (slice3 Y c) lmbd X')
              \<and> (\<forall>X'. tikhonov_cost P Q (slice3 Y c) lmbd X'
                         = tikhonov_cost P Q (slice3 Y c) lmbd (slice3 Xb c)
                       \<longrightarrow> (\<forall>a<cols P. \<forall>b<cols Q. X' a b = slice3 Xb c a b))
              \<and> (\<forall>Y'. dim0 Y' = rows P \<and> dim1 Y' = rows Q \<and> 4 \<le> dim2 Y'
                         \<and> (\<forall>i<rows P. \<forall>j<rows Q. slice3 Y' c i j = slice3 Y c i j)
                       \<longrightarrow> (\<exists>Xb'. X_bayer_of svd Y' P Q lmbd = Inr Xb'
                              \<and> (\<forall>a<cols P. \<forall>b<cols Q. slice3 Xb' c a b = slice3 Xb c a b)))"
    if c: "c < 4" for c
  proof -
    from val [OF y0 y1 y2 c] obtain R where
      R: "solve_channel svd Y P Q lmbd c = Inr R"
        "\<forall>a<cols P. \<forall>b<cols Q. at2 R a b =
                mm (cols Q) (mm (cols P) (tr (at2 VLh))
                  (\<lambda>k l. mm (rows Q) (mm (rows P) (tr (\<lambda>i k. at2 UL i k * SL ! k))
                                          (\<lambda>i j. at3 Y i j c))
                            (\<lambda>j l. at2 UR j l * SR ! l) k l
                          / ((SL ! k)\<^sup>2 * (SR ! l)\<^sup>2 + lmbd)))
                  (at2 VRh) a b" by blast
    have sl: "slice3 Xb c = at2 R" by (rule Xb(5) [OF c R(1)])
    have cy: "c < dim2 Y" using c y2 by simp
    note opt = solve_channel_minimises [OF sP' okP' sQ' okQ' tP tQ y0 y1 cy pos R(1)]
    have A: "tikhonov_cost P Q (slice3 Y c) lmbd (slice3 Xb c)
               \<le> tikhonov_cost P Q (slice3 Y c) lmbd X'" for X'
      unfolding sl by (rule opt(1))
    have B: "X' a b = slice3 Xb c a b"
      if "tikhonov_cost P Q (slice3 Y c) lmbd X'
            = tikhonov_cost P Q (slice3 Y c) lmbd (slice3 Xb c)" "a < cols P" "b < cols Q"
      for X' a b
      using that unfolding sl by (rule opt(2))
    have C: "\<exists>Xb'. X_bayer_of svd Y' P Q lmbd = Inr Xb'
               \<and> (\<forall>a<cols P. \<forall>b<cols Q. slice3 Xb' c a b = slice3 Xb c a b)"
      if Y': "dim0 Y' = rows P" "dim1 Y' = rows Q" "4 \<le> dim2 Y'"
        "\<forall>i<rows P. \<forall>j<rows Q. slice3 Y' c i j = slice3 Y c i j" for Y'
    proof -
      have "\<exists>R. solve_channel svd Y' P Q lmbd d = Inr R" if "d < 4" for d
        using val [OF Y'(1,2,3) that] by blast
      from X_bayer_of_channels [OF this] obtain Xb' where
        Xb': "X_bayer_of svd Y' P Q lmbd = Inr Xb'"
          "\<And>d R. d < 4 \<Longrightarrow> solve_channel svd Y' P Q lmbd d = Inr R \<Longrightarrow> slice3 Xb' d = at2 R"
        by blast
      from val [OF Y'(1,2,3) c] obtain R' where
        R': "solve_channel svd Y' P Q lmbd c = Inr R'"
          "\<forall>a<cols P. \<forall>b<cols Q. at2 R' a b =
                mm (cols Q) (mm (cols P) (tr (at2 VLh))
                  (\<lambda>k l. mm (rows Q) (mm (rows P) (tr (\<lambda>i k. at2 UL i k * SL ! k))
                                          (\<lambda>i j. at3 Y' i j c))
                            (\<lambda>j l. at2 UR j l * SR ! l) k l
                          / ((SL ! k)\<^sup>2 * (SR ! l)\<^sup>2 + lmbd)))
                  (at2 VRh) a b" by blast
      have sl': "slice3 Xb' c = at2 R'" by (rule Xb'(2) [OF c R'(1)])
      have agree: "at3 Y' i j c = at3 Y i j c" if "i < rows P" "j < rows Q" for i j
        using Y'(4) that by (simp add: slice3_def)
      have "at2 R' a b = at2 R a b" if "a < cols P" "b < cols Q" for a b
        using R'(2) R(2) that
        by (simp add: solution_depends_on_channel [where Y' = "\<lambda>i j. at3 Y' i j c"
              and Y = "\<lambda>i j. at3 Y i j c", OF agree])
      with Xb'(1) show ?thesis by (auto simp: sl sl')
    qed
    from A B C show ?thesis by blast
  qed
  from Xb(1,2,3,4) main show ?thesis by blast
qed

text \<open>
  The theorem at \<open>P = [[3], [4]]\<close>, \<open>Q = [[1]]\<close>, \<open>Y[i, 0, c] = (c + 1) P[i, 0]\<close> and
  \<open>lmbd = 25\<close>.
\<close>

theorem tikhonov_closed_form_tall_witness:
  "\<exists>Xb. X_bayer_of example_svd tall_Y tall_P unit_Q 25 = Inr Xb
      \<and> dim0 Xb = 1 \<and> dim1 Xb = 1 \<and> dim2 Xb = 4
      \<and> (\<forall>X'. tikhonov_cost tall_P unit_Q (slice3 tall_Y 0) 25 (slice3 Xb 0)
                \<le> tikhonov_cost tall_P unit_Q (slice3 tall_Y 0) 25 X')"
proof -
  have two: "(i < (2::nat)) = (i = 0 \<or> i = 1)" for i by auto
  have okP: "svd_ok tall_P
     (\<lparr>rows = 2, cols = 2,
        at2 = (\<lambda>i j. if i = j then 3 / 5 else if i = 0 then - (4 / 5) else 4 / 5)\<rparr>,
      [5], unit_Q)"
    by (auto simp: svd_ok_def orthogonal_def tall_P_def unit_Q_def two numeral_2_eq_2)
  have okQ: "svd_ok unit_Q (unit_Q, [at2 unit_Q 0 0], unit_Q)"
    by (simp add: svd_ok_def orthogonal_def unit_Q_def)
  have sP: "example_svd tall_P = Inr (\<lparr>rows = 2, cols = 2,
        at2 = (\<lambda>i j. if i = j then 3 / 5 else if i = 0 then - (4 / 5) else 4 / 5)\<rparr>,
      [5], unit_Q)"
    by (simp add: example_svd_def tall_P_def)
  have sQ: "example_svd unit_Q = Inr (unit_Q, [at2 unit_Q 0 0], unit_Q)"
    by (simp add: example_svd_def unit_Q_def)
  have "\<exists>Xb. X_bayer_of example_svd tall_Y tall_P unit_Q 25 = Inr Xb
      \<and> dim0 Xb = cols tall_P \<and> dim1 Xb = cols unit_Q \<and> dim2 Xb = 4
      \<and> (\<forall>c<4. (\<forall>X'. tikhonov_cost tall_P unit_Q (slice3 tall_Y c) 25 (slice3 Xb c)
                \<le> tikhonov_cost tall_P unit_Q (slice3 tall_Y c) 25 X'))"
    using tikhonov_closed_form_tall [OF sP okP sQ okQ, of tall_Y 25]
    by (simp add: tall_P_def unit_Q_def tall_Y_def) blast
  then show ?thesis
    by (simp add: tall_P_def unit_Q_def) (metis zero_less_numeral)
qed

text \<open>
  Claim C2 as stated, for every \<open>P\<close> and \<open>Q\<close>, fails for a factor with fewer rows than
  columns.  For \<open>P = [[1, 0]]\<close>, \<open>Q = [[1]]\<close>, a measurement of ones and \<open>lmbd = 1\<close> the
  solver returns normally: \<open>DL\<close> is \<open>1 \<times> 1\<close>, the numerator is \<open>1 \<times> 1\<close>, and the division
  by the \<open>2 \<times> 1\<close> denominator broadcasts it to both rows, so the result is
  \<open>[[1/2], [1/2]]\<close> with cost \<open>3/4\<close>, while \<open>[[1/2], [0]]\<close> has cost \<open>1/2\<close>.
\<close>

theorem tikhonov_wide_counterexample:
  "\<not> isl (X_bayer_of example_svd wide_Y wide_P unit_Q 1)
   \<and> tikhonov_cost wide_P unit_Q (slice3 wide_Y 0) 1 wide_candidate
       < tikhonov_cost wide_P unit_Q (slice3 wide_Y 0) 1
           (slice3 (projr (X_bayer_of example_svd wide_Y wide_P unit_Q 1)) 0)"
proof -
  have sc: "\<exists>R. solve_channel example_svd wide_Y wide_P unit_Q 1 c = Inr R
              \<and> at2 R 0 0 = 1 / 2 \<and> at2 R (Suc 0) 0 = 1 / 2"
    if "c < 4" for c
    using that
    by (simp add: solve_channel_def channel_solution_def example_svd_def wide_P_def unit_Q_def
        wide_Y_def sigma_matrix_def concatenate_def diag_def zeros2_def multi_dot_def dot_def
        transpose2_def channel_def broadcast2_def broadcast_len_def outer_def full2_def
        divide2_def assign_channel_def ebind_def Let_def mm_def tr_def numeral_2_eq_2)
  from sc [of 0] obtain R0 where R0: "solve_channel example_svd wide_Y wide_P unit_Q 1 0 = Inr R0"
    "at2 R0 0 0 = 1 / 2" "at2 R0 (Suc 0) 0 = 1 / 2" by auto
  from sc [of 1] obtain R1 where R1: "solve_channel example_svd wide_Y wide_P unit_Q 1 1 = Inr R1"
    by auto
  from sc [of 2] obtain R2 where R2: "solve_channel example_svd wide_Y wide_P unit_Q 1 2 = Inr R2"
    by auto
  from sc [of 3] obtain R3 where R3: "solve_channel example_svd wide_Y wide_P unit_Q 1 3 = Inr R3"
    by auto
  have X: "X_bayer_of example_svd wide_Y wide_P unit_Q 1
        = Inr \<lparr>dim0 = 2, dim1 = 1, dim2 = 4,
               at3 = (\<lambda>i j c. if c = 0 then at2 R0 i j else if c = 1 then at2 R1 i j
                               else if c = 2 then at2 R2 i j else if c = 3 then at2 R3 i j
                               else 0)\<rparr>"
    by (simp add: X_bayer_of_def R0(1) R1 R2 R3 ebind_def del: One_nat_def)
       (simp add: wide_P_def unit_Q_def)
  show ?thesis
    unfolding X
    by (simp add: slice3_def tikhonov_cost_def wide_P_def unit_Q_def
        wide_Y_def wide_candidate_def numeral_2_eq_2 power2_eq_square R0(2,3))
qed

section \<open>Properties of the convolution operator\<close>

subsection \<open>The padded shape and the scratch buffer\<close>

lemma next_fast_len_ge: "n \<le> next_fast_len n"
  by (auto simp: next_fast_len_def find_Some_iff split: option.splits)

lemma conv_apply_with_fst:
  "fst (conv_apply_with Hf opr x) =
     (case reshape3 x (filter_shape opr) of Inl e \<Rightarrow> opr
      | Inr xr \<Rightarrow> opr\<lparr>padded_data := write_window (padded_data opr) (start_idx opr) (end_idx opr) xr\<rparr>)"
  by (simp add: conv_apply_with_def Let_def split: sum.splits)

lemma frame_inv_step:
  assumes "frame_inv op0 s"
  shows "frame_inv op0 (fst (conv_apply_with Hf s x))"
  using assms
  by (auto simp: frame_inv_def conv_apply_with_fst write_window_def split: sum.splits)

lemma frame_inv_run:
  "frame_inv op0 s \<Longrightarrow> frame_inv op0 (run_invocations s invs)"
proof (induction invs arbitrary: s)
  case Nil then show ?case by simp
next
  case (Cons a invs)
  then show ?case
    by (cases a) (simp_all add: conv_call_def conv_adjoint_def frame_inv_step)
qed

lemma frame_inv_init:
  "conv_init filt = Inr op0 \<Longrightarrow> frame_inv op0 op0 \<and> (\<forall>i j c. at3 (padded_data op0) i j c = 0)"
  by (auto simp: conv_init_def frame_inv_def Let_def zeros3_def split: if_splits)

lemma write_window_clean:
  assumes "frame_inv op0 s" "conv_init filt = Inr op0"
  shows "write_window (padded_data s) (start_idx s) (end_idx s) xr = conv_pad op0 xr"
proof -
  from assms(1) obtain buf where b: "s = op0\<lparr>padded_data := buf\<rparr>"
      "dim0 buf = dim0 (padded_data op0)" "dim1 buf = dim1 (padded_data op0)"
      "dim2 buf = dim2 (padded_data op0)"
      "\<forall>i j c. \<not> in_window (start_idx op0) (end_idx op0) i j \<longrightarrow> at3 buf i j c = 0"
    unfolding frame_inv_def by blast
  from assms(2) have z: "padded_data op0 = zeros3 (padded_shape op0)"
    by (auto simp: conv_init_def Let_def split: if_splits)
  have "at3 (write_window buf (start_idx op0) (end_idx op0) xr)
        = at3 (write_window (zeros3 (padded_shape op0)) (start_idx op0) (end_idx op0) xr)"
    using b(5) by (auto simp: write_window_def zeros3_def fun_eq_iff split: prod.splits)
  moreover have "dim0 buf = dim0 (zeros3 (padded_shape op0))"
    "dim1 buf = dim1 (zeros3 (padded_shape op0))" "dim2 buf = dim2 (zeros3 (padded_shape op0))"
    using b(2-4) z by simp_all
  ultimately have "write_window buf (start_idx op0) (end_idx op0) xr
        = write_window (zeros3 (padded_shape op0)) (start_idx op0) (end_idx op0) xr"
    by (simp add: write_window_def)
  then show ?thesis using b(1) by (simp add: conv_pad_def pad_to_def)
qed

lemma conv_apply_with_clean:
  assumes "frame_inv op0 s" "conv_init filt = Inr op0"
  shows "snd (conv_apply_with Hf s x) = snd (conv_apply_with Hf op0 x)"
proof -
  have fs: "filter_shape s = filter_shape op0" "start_idx s = start_idx op0"
    "end_idx s = end_idx op0"
    using assms(1) by (auto simp: frame_inv_def)
  have i0: "frame_inv op0 op0" using frame_inv_init [OF assms(2)] by simp
  show ?thesis
  proof (cases "reshape3 x (filter_shape op0)")
    case (Inl e)
    then show ?thesis by (simp add: conv_apply_with_def fs)
  next
    case (Inr xr)
    have "write_window (padded_data s) (start_idx s) (end_idx s) xr
          = write_window (padded_data op0) (start_idx op0) (end_idx op0) xr"
      using write_window_clean [OF assms] write_window_clean [OF i0 assms(2)] by simp
    then show ?thesis
      using Inr by (simp add: conv_apply_with_def fs Let_def conv_crop_def)
  qed
qed

text \<open>
  Claim C7.  For a filter with spatial dimensions \<open>H \<times> W\<close> (both positive) the constructor
  succeeds, the padded shape is \<open>next_fast_len (2H - 1) \<times> next_fast_len (2W - 1)\<close> with
  the filter's channel count, each padded dimension is at least \<open>2 * dimension - 1\<close>, and
  after any sequence of \<open>__call__\<close> and \<open>adjoint\<close> invocations the padded shape, the
  precomputed frequency-domain filter and its conjugate, and the shape of the scratch
  buffer are what the constructor set.
\<close>

theorem padded_shape_fixed:
  assumes "0 < dim0 filt" and "0 < dim1 filt"
  shows "\<exists>op0. conv_init filt = Inr op0
     \<and> padded_shape op0
         = (next_fast_len (2 * dim0 filt - 1), next_fast_len (2 * dim1 filt - 1), dim2 filt)
     \<and> 2 * dim0 filt - 1 \<le> next_fast_len (2 * dim0 filt - 1)
     \<and> 2 * dim1 filt - 1 \<le> next_fast_len (2 * dim1 filt - 1)
     \<and> (\<forall>invs. padded_shape (run_invocations op0 invs) = padded_shape op0
            \<and> H_freq (run_invocations op0 invs) = H_freq op0
            \<and> Hadj_freq (run_invocations op0 invs) = Hadj_freq op0
            \<and> (dim0 (padded_data (run_invocations op0 invs)),
                dim1 (padded_data (run_invocations op0 invs)),
                dim2 (padded_data (run_invocations op0 invs))) = padded_shape op0)"
proof -
  from assms obtain op0 where i: "conv_init filt = Inr op0"
    by (simp add: conv_init_def Let_def)
  have shp: "padded_shape op0
         = (next_fast_len (2 * dim0 filt - 1), next_fast_len (2 * dim1 filt - 1), dim2 filt)"
    and buf: "padded_data op0 = zeros3 (padded_shape op0)"
    using i assms by (auto simp: conv_init_def Let_def)
  have fr: "frame_inv op0 (run_invocations op0 invs)" for invs
    using frame_inv_init [OF i] frame_inv_run by blast
  have "padded_shape (run_invocations op0 invs) = padded_shape op0
            \<and> H_freq (run_invocations op0 invs) = H_freq op0
            \<and> Hadj_freq (run_invocations op0 invs) = Hadj_freq op0
            \<and> (dim0 (padded_data (run_invocations op0 invs)),
                dim1 (padded_data (run_invocations op0 invs)),
                dim2 (padded_data (run_invocations op0 invs))) = padded_shape op0" for invs
  proof -
    from fr [of invs] obtain buf where b: "run_invocations op0 invs = op0\<lparr>padded_data := buf\<rparr>"
      "dim0 buf = dim0 (padded_data op0)" "dim1 buf = dim1 (padded_data op0)"
      "dim2 buf = dim2 (padded_data op0)"
      unfolding frame_inv_def by blast
    show ?thesis
      using b(2-4) by (simp add: b(1) buf shp zeros3_def)
  qed
  with i shp show ?thesis
    using next_fast_len_ge by blast
qed

theorem padded_shape_fixed_witness:
  "\<exists>op0. conv_init \<lparr>dim0 = 2, dim1 = 4, dim2 = 1, at3 = (\<lambda>i j c. 1)\<rparr> = Inr op0
     \<and> padded_shape op0 = (3, 8, 1)
     \<and> padded_shape (run_invocations op0 [Call [1, 2, 3, 4, 5, 6, 7, 8], Adjoint [0, 0, 0, 0, 0, 0, 0, 1]])
         = (3, 8, 1)
     \<and> H_freq (run_invocations op0 [Call [1, 2, 3, 4, 5, 6, 7, 8], Adjoint [0, 0, 0, 0, 0, 0, 0, 1]])
         = H_freq op0"
proof -
  define invs where "invs = [Call [1, 2, 3, 4, 5, 6, 7, 8], Adjoint [0, 0, 0, 0, 0, 0, 0, 1]]"
  have n7: "next_fast_len 7 = 8" by code_simp
  have n3: "next_fast_len 3 = 3" by (simp add: next_fast_len_def)
  from padded_shape_fixed [of "\<lparr>dim0 = 2, dim1 = 4, dim2 = 1, at3 = (\<lambda>i j c. 1)\<rparr>"]
  obtain op0 where o: "conv_init \<lparr>dim0 = 2, dim1 = 4, dim2 = 1, at3 = (\<lambda>i j c. 1)\<rparr> = Inr op0"
      "padded_shape op0 = (3, 8, 1)"
      "\<forall>invs. padded_shape (run_invocations op0 invs) = padded_shape op0
            \<and> H_freq (run_invocations op0 invs) = H_freq op0"
    by (auto simp: n7 n3)
  from o(3) have "padded_shape (run_invocations op0 invs) = padded_shape op0
            \<and> H_freq (run_invocations op0 invs) = H_freq op0"
    by blast
  with o(1,2) show ?thesis unfolding invs_def by auto
qed

text \<open>
  Claim C10.  On an operator built by the constructor, after any sequence of \<open>__call__\<close>
  and \<open>adjoint\<close> invocations every entry of the scratch buffer outside the window
  \<open>[start_idx, end_idx)\<close> is zero; hence a further call returns what it returns on the
  freshly constructed operator, and the buffer it transforms is \<open>_pad\<close> of its reshaped
  argument, a fresh zero canvas with the argument written into the window.
\<close>

theorem padded_buffer_outside_window_zero:
  assumes "conv_init filt = Inr op0"
  shows "(\<forall>i j c. \<not> in_window (start_idx op0) (end_idx op0) i j
             \<longrightarrow> at3 (padded_data (run_invocations op0 invs)) i j c = 0)
     \<and> snd (conv_call (run_invocations op0 invs) x) = snd (conv_call op0 x)
     \<and> snd (conv_adjoint (run_invocations op0 invs) y) = snd (conv_adjoint op0 y)
     \<and> (\<forall>xr. reshape3 x (filter_shape op0) = Inr xr
           \<longrightarrow> padded_data (fst (conv_call (run_invocations op0 invs) x)) = conv_pad op0 xr)"
proof -
  let ?s = "run_invocations op0 invs"
  have inv: "frame_inv op0 ?s"
    using frame_inv_init [OF assms] frame_inv_run by blast
  have fs: "filter_shape ?s = filter_shape op0" "H_freq ?s = H_freq op0"
    "Hadj_freq ?s = Hadj_freq op0"
    using inv by (auto simp: frame_inv_def)
  have 1: "\<forall>i j c. \<not> in_window (start_idx op0) (end_idx op0) i j
             \<longrightarrow> at3 (padded_data ?s) i j c = 0"
    using inv by (auto simp: frame_inv_def)
  have 2: "snd (conv_call ?s x) = snd (conv_call op0 x)"
    unfolding conv_call_def fs using conv_apply_with_clean [OF inv assms] .
  have 3: "snd (conv_adjoint ?s y) = snd (conv_adjoint op0 y)"
    unfolding conv_adjoint_def fs using conv_apply_with_clean [OF inv assms] .
  have 4: "\<forall>xr. reshape3 x (filter_shape op0) = Inr xr
           \<longrightarrow> padded_data (fst (conv_call ?s x)) = conv_pad op0 xr"
    using write_window_clean [OF inv assms]
    by (simp add: conv_call_def conv_apply_with_fst fs)
  from 1 2 3 4 show ?thesis by blast
qed

theorem padded_buffer_outside_window_zero_witness:
  "\<exists>op0. conv_init \<lparr>dim0 = 1, dim1 = 2, dim2 = 1, at3 = (\<lambda>i j c. 1)\<rparr> = Inr op0
     \<and> start_idx op0 = (0, 0) \<and> end_idx op0 = (1, 2) \<and> padded_shape op0 = (1, 3, 1)
     \<and> at3 (padded_data (run_invocations op0 [Call [5, 6], Adjoint [7, 8]])) 0 2 0 = 0
     \<and> snd (conv_call (run_invocations op0 [Call [5, 6], Adjoint [7, 8]]) [1, 2])
         = snd (conv_call op0 [1, 2])"
proof -
  define invs where "invs = [Call [5, 6], Adjoint [7, 8]]"
  obtain op0 where i: "conv_init \<lparr>dim0 = 1, dim1 = 2, dim2 = 1, at3 = (\<lambda>i j c. 1)\<rparr> = Inr op0"
    by (simp add: conv_init_def Let_def)
  have n: "next_fast_len 3 = 3" "next_fast_len (Suc 0) = Suc 0"
    by (simp_all add: next_fast_len_def)
  have f: "start_idx op0 = (0, 0)" "end_idx op0 = (1, 2)" "padded_shape op0 = (1, 3, 1)"
    using i by (auto simp: conv_init_def Let_def n)
  have "\<not> in_window (start_idx op0) (end_idx op0) 0 2"
    by (simp add: f in_window_def)
  with padded_buffer_outside_window_zero [OF i, of invs "[1, 2]" "[]"]
  have "at3 (padded_data (run_invocations op0 invs)) 0 2 0 = 0
     \<and> snd (conv_call (run_invocations op0 invs) [1, 2]) = snd (conv_call op0 [1, 2])"
    by blast
  with i f show ?thesis unfolding invs_def by blast
qed

section \<open>The adjoint test of the convolution operator\<close>

lemma next_fast_len_odd_psf: "next_fast_len (Suc 0) = Suc 0" "next_fast_len 3 = 3"
  by (simp_all add: next_fast_len_def)

lemma conv_init_odd_psf_raw:
  "conv_init odd_psf =
     Inr \<lparr>filter_shape = (1, 2, 1), n_channels = 1, padded_shape = (1, 3, 1),
          start_idx = (0, 0), end_idx = (1, 2),
          H_freq = rfft2 (pad_to (1, 3, 1) (0, 0) (1, 2) odd_psf),
          Hadj_freq = (rfft2 (pad_to (1, 3, 1) (0, 0) (1, 2) odd_psf))
             \<lparr>at3 := (\<lambda>i j c. cnj (at3 (rfft2 (pad_to (1, 3, 1) (0, 0) (1, 2) odd_psf)) i j c))\<rparr>,
          padded_data = zeros3 (1, 3, 1), op_shape = (2, 2)\<rparr>"
  by (simp add: conv_init_def odd_psf_def Let_def next_fast_len_odd_psf) (simp add: numeral_2_eq_2)

lemma omega_0: "omega n 0 = 1"
  by (simp add: omega_def)

lemma lessThan_3: "{..<(3::nat)} = {0, 1, 2}" by auto

lemma upt_0_2: "[0..<2] = [0, 1]"
  by (simp add: numeral_2_eq_2)

lemma Re_omega_3: "Re (omega 3 (- 1)) = - (1 / 2)"
  using cos_120 by (simp add: omega_def)

lemma spectrum_odd_psf:
  "rfft2 (pad_to (1, 3, 1) (0, 0) (1, 2) odd_psf)
     = \<lparr>dim0 = 1, dim1 = 2, dim2 = 1, at3 = (\<lambda>k0 k1 c. 1)\<rparr>"
  by (simp add: rfft2_def pad_to_def write_window_def zeros3_def in_window_def odd_psf_def lessThan_3 omega_0)

lemma conv_init_odd_psf:
  "conv_init odd_psf =
     Inr \<lparr>filter_shape = (1, 2, 1), n_channels = 1, padded_shape = (1, 3, 1),
          start_idx = (0, 0), end_idx = (1, 2),
          H_freq = \<lparr>dim0 = 1, dim1 = 2, dim2 = 1, at3 = (\<lambda>k0 k1 c. 1)\<rparr>,
          Hadj_freq = \<lparr>dim0 = 1, dim1 = 2, dim2 = 1, at3 = (\<lambda>k0 k1 c. 1)\<rparr>,
          padded_data = zeros3 (1, 3, 1), op_shape = (2, 2)\<rparr>"
  unfolding conv_init_odd_psf_raw spectrum_odd_psf by simp

lemma call_odd_psf:
  "snd (conv_call \<lparr>filter_shape = (1, 2, 1), n_channels = 1, padded_shape = (1, 3, 1),
          start_idx = (0, 0), end_idx = (1, 2),
          H_freq = \<lparr>dim0 = 1, dim1 = 2, dim2 = 1, at3 = (\<lambda>k0 k1 c. 1)\<rparr>,
          Hadj_freq = \<lparr>dim0 = 1, dim1 = 2, dim2 = 1, at3 = (\<lambda>k0 k1 c. 1)\<rparr>,
          padded_data = zeros3 (1, 3, 1), op_shape = (2, 2)\<rparr> [1, 0]) = Inr [0, 1]"
  apply (simp add: conv_call_def conv_apply_with_def reshape3_def Let_def)
  apply (simp add: rfft2_def write_window_def zeros3_def in_window_def lessThan_3 mul3_def ebind_def omega_0)
  apply (simp add: irfft2_def Let_def ifftshift2_def conv_crop_def ravel3_def upt_0_2 omega_0)
  done

lemma adjoint_odd_psf:
  "snd (conv_adjoint (fst (conv_call \<lparr>filter_shape = (1, 2, 1), n_channels = 1, padded_shape = (1, 3, 1),
          start_idx = (0, 0), end_idx = (1, 2),
          H_freq = \<lparr>dim0 = 1, dim1 = 2, dim2 = 1, at3 = (\<lambda>k0 k1 c. 1)\<rparr>,
          Hadj_freq = \<lparr>dim0 = 1, dim1 = 2, dim2 = 1, at3 = (\<lambda>k0 k1 c. 1)\<rparr>,
          padded_data = zeros3 (1, 3, 1), op_shape = (2, 2)\<rparr> [1, 0])) [0, 1]) = Inr [3 / 4, 1 / 4]"
  apply (simp add: conv_call_def conv_adjoint_def conv_apply_with_def reshape3_def Let_def)
  apply (simp add: rfft2_def write_window_def zeros3_def in_window_def lessThan_3 mul3_def ebind_def omega_0)
  apply (simp add: irfft2_def Let_def ifftshift2_def conv_crop_def ravel3_def upt_0_2 Re_omega_3 omega_0)
  done

text \<open>
  Claim C1 fails for the operator built from the PSF \<open>[1, 0]\<close> of shape \<open>(1, 2, 1)\<close>, whose
  padded width \<open>next_fast_len 3 = 3\<close> is odd.  The transform \<open>rfft2\<close> keeps two
  frequencies of the three, and \<open>irfft2\<close>, called without the output shape, returns a
  row of length \<open>2 * (2 - 1) = 2\<close>.  For \<open>x = [1, 0]\<close> and \<open>y = [0, 1]\<close>, \<open>__call__\<close>
  returns \<open>[0, 1]\<close>, the following \<open>adjoint\<close> returns \<open>[3/4, 1/4]\<close>, and so
  \<open>\<langle>apply(x), y\<rangle> = 1\<close> while \<open>\<langle>x, adjoint(y)\<rangle> = 3/4\<close>.
\<close>

theorem adjoint_identity_fails_odd_width:
  "\<exists>opr. conv_init odd_psf = Inr opr
      \<and> padded_shape opr = (1, 3, 1)
      \<and> snd (conv_call opr [1, 0]) = Inr [0, 1]
      \<and> snd (conv_adjoint (fst (conv_call opr [1, 0])) [0, 1]) = Inr [3 / 4, 1 / 4]
      \<and> vdot [0, 1] [0, 1] = 1
      \<and> vdot [1, 0] [3 / 4, 1 / 4] = 3 / 4"
  by (intro exI conjI, rule conv_init_odd_psf)
     (simp_all add: call_odd_psf adjoint_odd_psf vdot_def del: One_nat_def)

section \<open>Properties of the APGD solver\<close>

subsection \<open>Construction\<close>

lemma select_prox_unknown:
  assumes "(\<exists>s. pp = PStr s \<and> s \<noteq> ''l1'' \<and> s \<noteq> ''nonneg'') \<or> (\<exists>b. pp = PNotCallable b)"
  shows "select_prox_penalty pp l d = Inl TypeError"
  using assms by (auto simp: select_prox_penalty_def call_penalty_def)

lemma select_prox_rejected:
  assumes "pp = PCallable b ctor" and "ctor d = Inl ValueError"
  shows "select_prox_penalty pp l d = Inr (Unset, [''Unexpected prior.''])"
  using assms by (simp add: select_prox_penalty_def call_penalty_def)

lemma apgd_init_fields:
  assumes "apgd_init p mx dp pp accel dl pl = Inr (a, printed)"
  shows "original_shape a = (dim0 p, dim1 p, dim2 p)"
    and "original_size a = dim0 p * dim1 p * dim2 p"
    and "image_est a = replicate (dim0 p * dim1 p * dim2 p) 0"
    and "solver a = None" and "gen a = None" and "data a = None" and "max_iter a = mx"
    and "select_prox_penalty pp pl (dim0 p * dim1 p * dim2 p) = Inr (prox_penalty a, printed)"
  using assms
  by (auto simp: apgd_init_def ebind_def Let_def base_init_def apgd_reset_def conv_init_def
      split: sum.splits if_splits prod.splits)

lemma isl_ebind: "isl m \<Longrightarrow> isl (ebind m f)"
  by (cases m) (simp_all add: ebind_def)

text \<open>
  Claim C4, as amended.  The claim says that every unsupported proximal-penalty
  identifier is signalled at construction.  What the constructor does: for a string other
  than \<open>l1\<close> and \<open>nonneg\<close>, and for any other object that cannot be called, construction
  raises (the TypeError of calling it); but for a callable whose construction raises
  ValueError the constructor catches the exception, prints \<open>Unexpected prior.\<close> and returns
  a solver whose proximal penalty is left unassigned, and the error shows only when
  \<open>set_data\<close> reads the attribute.
\<close>

theorem unknown_prox_penalty_outcomes:
  "(((\<exists>s. pp = PStr s \<and> s \<noteq> ''l1'' \<and> s \<noteq> ''nonneg'') \<or> (\<exists>b. pp = PNotCallable b))
      \<longrightarrow> isl (apgd_init p mx dp pp accel dl pl :: failure + ('it apgd \<times> string list)))
   \<and> ((\<exists>b ctor. pp = PCallable b ctor \<and> ctor (dim0 p * dim1 p * dim2 p) = Inl ValueError)
        \<and> 0 < dim0 p \<and> 0 < dim1 p \<and> dp = PNone
      \<longrightarrow> (\<exists>a :: 'it apgd. apgd_init p mx dp pp accel dl pl = Inr (a, [''Unexpected prior.''])
              \<and> prox_penalty a = Unset
              \<and> (\<forall>lib d. isl (set_data lib a d))))"
proof (intro conjI impI)
  assume u: "(\<exists>s. pp = PStr s \<and> s \<noteq> ''l1'' \<and> s \<noteq> ''nonneg'') \<or> (\<exists>b. pp = PNotCallable b)"
  show "isl (apgd_init p mx dp pp accel dl pl :: failure + ('it apgd \<times> string list))"
    using select_prox_unknown [OF u]
    by (auto simp: apgd_init_def ebind_def Let_def split: sum.splits)
next
  assume r: "(\<exists>b ctor. pp = PCallable b ctor \<and> ctor (dim0 p * dim1 p * dim2 p) = Inl ValueError)
        \<and> 0 < dim0 p \<and> 0 < dim1 p \<and> dp = PNone"
  then obtain b ctor where pp: "pp = PCallable b ctor"
    "ctor (dim0 p * dim1 p * dim2 p) = Inl ValueError" by blast
  from r obtain H where H: "conv_init p = Inr H"
    "snd (op_shape H) = dim0 p * dim1 p * dim2 p"
    by (auto simp: conv_init_def Let_def)
  have sp: "select_prox_penalty pp pl (dim0 p * dim1 p * dim2 p) = Inr (Unset, [''Unexpected prior.''])"
    using select_prox_rejected [OF pp] .
  have sd: "select_diff_penalty dp dl (dim0 p * dim1 p * dim2 p) = Inr None"
    using r by (simp add: select_diff_penalty_def)
  obtain a :: "'it apgd" where a: "apgd_init p mx dp pp accel dl pl = Inr (a, [''Unexpected prior.''])"
    "prox_penalty a = Unset"
    by (simp add: apgd_init_def ebind_def Let_def H sp sd)
  have "isl (set_data lib a d)" for lib d
    by (auto simp: set_data_def ebind_def a(2) split: sum.splits measurement.splits)
  with a show "\<exists>a :: 'it apgd. apgd_init p mx dp pp accel dl pl = Inr (a, [''Unexpected prior.''])
              \<and> prox_penalty a = Unset
              \<and> (\<forall>lib d. isl (set_data lib a d))"
    by blast
qed

theorem unknown_prox_penalty_outcomes_witness:
  "isl (apgd_init example_psf 500 PNone (PStr ''l2'') (Some ''BT'') 0.001 0.001
          :: failure + (real list apgd \<times> string list))
   \<and> (\<exists>a :: real list apgd.
         apgd_init example_psf 500 PNone rejecting_penalty (Some ''BT'') 0.001 0.001
           = Inr (a, [''Unexpected prior.''])
         \<and> prox_penalty a = Unset
         \<and> isl (set_data example_pycsou a example_measurement))"
proof -
  have 1: "isl (apgd_init example_psf 500 PNone (PStr ''l2'') (Some ''BT'') 0.001 0.001
          :: failure + (real list apgd \<times> string list))"
    by (rule unknown_prox_penalty_outcomes [THEN conjunct1, rule_format]) simp
  have 2: "\<exists>a :: real list apgd.
         apgd_init example_psf 500 PNone rejecting_penalty (Some ''BT'') 0.001 0.001
           = Inr (a, [''Unexpected prior.''])
         \<and> prox_penalty a = Unset
         \<and> (\<forall>lib d. isl (set_data lib a d))"
    by (rule unknown_prox_penalty_outcomes [THEN conjunct2, rule_format])
       (auto simp: rejecting_penalty_def example_psf_def)
  from 1 2 show ?thesis by blast
qed

text \<open>
  The claim as stated fails for a callable penalty whose construction raises ValueError:
  construction returns normally.
\<close>

theorem unknown_prox_penalty_counterexample:
  "\<not> isl (apgd_init example_psf 500 PNone rejecting_penalty (Some ''BT'') 0.001 0.001
            :: failure + (real list apgd \<times> string list))"
proof -
  have H: "\<not> isl (conv_init example_psf)"
    by (simp add: conv_init_def example_psf_def Let_def)
  then obtain H where H: "conv_init example_psf = Inr H" by (cases "conv_init example_psf") auto
  have sp: "select_prox_penalty rejecting_penalty l d = Inr (Unset, [''Unexpected prior.''])" for l d
    by (rule select_prox_rejected [of _ False "\<lambda>d. Inl ValueError"])
       (simp_all add: rejecting_penalty_def)
  show ?thesis
    by (simp add: apgd_init_def ebind_def Let_def H sp select_diff_penalty_def)
qed

subsection \<open>The image that \<open>apply\<close> returns\<close>

lemma reshape3_Inr:
  "reshape3 x (h, w, ch) = Inr img \<Longrightarrow>
     length x = h * w * ch \<and> dim0 img = h \<and> dim1 img = w \<and> dim2 img = ch
     \<and> at3 img = (\<lambda>i j c. x ! ((i * w + j) * ch + c))"
  by (auto simp: reshape3_def split: if_splits)

lemma flat_index_bound:
  fixes i j c h w ch :: nat
  assumes "i < h" and "j < w" and "c < ch"
  shows "(i * w + j) * ch + c < h * w * ch"
proof -
  have "i * w + j < i * w + w" using assms(2) by simp
  also have "\<dots> = (i + 1) * w" by simp
  also have "\<dots> \<le> h * w" using assms(1) by (intro mult_le_mono1) simp
  finally have 1: "i * w + j + 1 \<le> h * w" by simp
  have "(i * w + j) * ch + c < (i * w + j) * ch + ch" using assms(3) by simp
  also have "\<dots> = (i * w + j + 1) * ch" by simp
  also have "\<dots> \<le> h * w * ch" using 1 by (intro mult_le_mono1)
  finally show ?thesis .
qed

lemma form_image_result:
  assumes "snd (form_image a) = Inr img" and "original_shape a = (h, w, ch)"
  shows "dim0 img = h \<and> dim1 img = w \<and> dim2 img = ch
       \<and> (\<forall>i<h. \<forall>j<w. \<forall>c<ch. 0 \<le> at3 img i j c)"
proof -
  let ?cl = "map (\<lambda>v. if v < 0 then 0 else v) (image_est a)"
  from assms have r: "reshape3 ?cl (h, w, ch) = Inr img"
    by (auto simp: form_image_def Let_def split: sum.splits)
  note R = reshape3_Inr [OF r]
  have nn: "0 \<le> ?cl ! k" if "k < length ?cl" for k
    using that by (simp add: nth_map)
  have "0 \<le> at3 img i j c" if "i < h" "j < w" "c < ch" for i j c
  proof -
    have "(i * w + j) * ch + c < length ?cl"
      using flat_index_bound [OF that] R by simp
    from nn [OF this] show ?thesis using R by simp
  qed
  with R show ?thesis by blast
qed

lemma apgd_update_shape: "original_shape (fst (apgd_update lib a)) = original_shape a"
  by (auto simp: apgd_update_def Let_def split: option.splits prod.splits sum.splits)

lemma apgd_progress_shape: "original_shape (fst (apgd_progress a)) = original_shape a"
  by (auto simp: apgd_progress_def split: option.splits)

lemma apgd_reset_shape: "original_shape (apgd_reset a) = original_shape a"
  by (auto simp: apgd_reset_def Let_def split: option.splits)

lemma form_image_shape: "original_shape (fst (form_image a)) = original_shape a"
  by (auto simp: form_image_def Let_def split: sum.splits)

lemma apply_loop_shape: "original_shape (fst (apply_loop lib disp a k i)) = original_shape a"
proof (induction k arbitrary: a i)
  case 0 then show ?case by simp
next
  case (Suc k)
  obtain a1 r1 where u: "apgd_update lib a = (a1, r1)" by (cases "apgd_update lib a")
  have s1: "original_shape a1 = original_shape a"
    using apgd_update_shape [of lib a] u by simp
  show ?case
  proof (cases r1)
    case (Some e) then show ?thesis using u s1 by simp
  next
    case None
    obtain a2 r2 where pr: "(if report_due disp (i + 1) then apgd_progress a1 else (a1, None)) = (a2, r2)"
      by (cases "if report_due disp (i + 1) then apgd_progress a1 else (a1, None)")
    have s2: "original_shape a2 = original_shape a"
      using pr s1 apgd_progress_shape [of a1] by (auto split: if_splits)
    show ?thesis
      using u None pr s2 Suc.IH [of a2 "i + 1"]
      by (cases r2) simp_all
  qed
qed

lemma apgd_apply_shape: "original_shape (fst (apgd_apply lib a n disp)) = original_shape a"
proof -
  obtain a1 r1 where l: "apply_loop lib disp a n 0 = (a1, r1)" by (cases "apply_loop lib disp a n 0")
  have "original_shape a1 = original_shape a" using apply_loop_shape [of lib disp a n 0] l by simp
  then show ?thesis using l form_image_shape [of a1]
    by (cases r1) (simp_all add: apgd_apply_def)
qed

lemma run_call_shape: "original_shape (run_call lib a c) = original_shape a"
  by (cases c) (simp_all add: apgd_update_shape apgd_progress_shape apgd_reset_shape
      form_image_shape apgd_apply_shape)

lemma run_calls_shape: "original_shape (run_calls lib a calls) = original_shape a"
  unfolding run_calls_def
  by (induction calls arbitrary: a) (simp_all add: run_call_shape)

lemma set_data_shape: "set_data lib a0 d = Inr a1 \<Longrightarrow> original_shape a1 = original_shape a0"
  by (auto simp: set_data_def ebind_def split: sum.splits prod.splits)

lemma apgd_update_returns:
  assumes "solver a = Some s" and "gen a = Some g" and "0 < remaining g"
    and "length (image_est a) = N"
    and "\<forall>m it. length (iterand_of lib (update_iterand lib (the_problem s) m it)) = N"
  shows "\<exists>a' s' g'. apgd_update lib a = (a', None) \<and> solver a' = Some s' \<and> gen a' = Some g'
           \<and> remaining g' = remaining g - 1 \<and> length (image_est a') = N
           \<and> the_problem s' = the_problem s"
  using assms
  by (auto simp: apgd_update_def gen_next_def pyc_step_def pyc_reset_def Let_def)

lemma apgd_progress_returns:
  assumes "solver a = Some s" and "gen a = Some g"
  shows "\<exists>s'. apgd_progress a = (a\<lparr>solver := Some s'\<rparr>, None) \<and> the_problem s' = the_problem s"
  using assms by (auto simp: apgd_progress_def)

lemma apply_loop_returns:
  assumes "solver a = Some s" and "gen a = Some g" and "k \<le> remaining g"
    and "length (image_est a) = N" and "the_problem s = P"
    and sized: "\<forall>m it. length (iterand_of lib (update_iterand lib P m it)) = N"
  shows "\<exists>a'. apply_loop lib disp a k i = (a', None) \<and> length (image_est a') = N"
  using assms(1-5)
proof (induction k arbitrary: a s g i)
  case 0 then show ?case by simp
next
  case (Suc k)
  from Suc.prems have pos: "0 < remaining g" by simp
  have sz: "\<forall>m it. length (iterand_of lib (update_iterand lib (the_problem s) m it)) = N"
    using sized Suc.prems(5) by simp
  from apgd_update_returns [OF Suc.prems(1,2) pos Suc.prems(4) sz]
  obtain a1 s1 g1 where u: "apgd_update lib a = (a1, None)" "solver a1 = Some s1"
      "gen a1 = Some g1" "remaining g1 = remaining g - 1" "length (image_est a1) = N"
      "the_problem s1 = the_problem s"
    by blast
  obtain a2 where p: "(if report_due disp (i + 1) then apgd_progress a1 else (a1, None)) = (a2, None)"
      and a2: "\<exists>s2. solver a2 = Some s2 \<and> the_problem s2 = P" "gen a2 = Some g1"
        "length (image_est a2) = N"
  proof (cases "report_due disp (i + 1)")
    case True
    from apgd_progress_returns [OF u(2,3)] obtain s' where
      "apgd_progress a1 = (a1\<lparr>solver := Some s'\<rparr>, None)" "the_problem s' = the_problem s1"
      by blast
    then show ?thesis using that [of "a1\<lparr>solver := Some s'\<rparr>"] True u Suc.prems(5) by simp
  next
    case False
    then show ?thesis using that [of a1] u Suc.prems(5) by simp
  qed
  from a2(1) obtain s2 where s2: "solver a2 = Some s2" "the_problem s2 = P" by blast
  show ?case
  proof (cases "converged lib (image_est a2)")
    case True
    then show ?thesis using u(1) p a2(3) by simp
  next
    case False
    have "k \<le> remaining g1" using u(4) Suc.prems(3) by simp
    from Suc.IH [OF s2(1) a2(2) this a2(3) s2(2), of "i + 1"]
    show ?thesis using u(1) p False by simp
  qed
qed

lemma set_data_fields:
  assumes "set_data lib a0 d = Inr a1"
  shows "\<exists>s. solver a1 = Some s \<and> iter s = 0 \<and> iterand s = None
            \<and> old_iterand s = Some (init_iterand s)"
    and "gen a1 = Some (new_generator (max_iter a0))"
    and "data a1 \<noteq> None" and "image_est a1 = image_est a0"
    and "original_shape a1 = original_shape a0" and "original_size a1 = original_size a0"
    and "max_iter a1 = max_iter a0"
  using assms
  by (auto simp: set_data_def ebind_def pyc_new_def split: sum.splits prod.splits)

text \<open>
  Claim C3.  Take a solver constructed from a PSF \<open>p\<close> with any penalties, on which
  \<open>set_data\<close> has succeeded, after any sequence of method calls.  Every image that
  \<open>apply(n)\<close> returns has the shape of \<open>p\<close> and no negative entry.  And \<open>apply(n)\<close> on
  the solver as \<open>set_data\<close> left it does return an image when \<open>n\<close> is at most \<open>max_iter\<close>
  (the length of the generator that \<open>set_data\<close> creates) and pycsou's iterands have the
  size of the PSF.
\<close>

theorem apply_returns_nonnegative_psf_shaped:
  assumes "apgd_init p mx dp pp accel dl pl = Inr (a0, printed)"
    and "set_data lib a0 d = Inr a1"
  shows "(\<forall>calls n disp_iter img.
            snd (apgd_apply lib (run_calls lib a1 calls) n disp_iter) = Inr img
            \<longrightarrow> (dim0 img, dim1 img, dim2 img) = (dim0 p, dim1 p, dim2 p)
                \<and> (\<forall>i<dim0 p. \<forall>j<dim1 p. \<forall>c<dim2 p. 0 \<le> at3 img i j c))
       \<and> (\<forall>n disp_iter.
            n \<le> mx \<and> (\<forall>s m it. solver a1 = Some s \<longrightarrow>
                          length (iterand_of lib (update_iterand lib (the_problem s) m it))
                            = dim0 p * dim1 p * dim2 p)
            \<longrightarrow> (\<exists>img. snd (apgd_apply lib a1 n disp_iter) = Inr img))"
proof -
  have A: "(dim0 img, dim1 img, dim2 img) = (dim0 p, dim1 p, dim2 p)
                \<and> (\<forall>i<dim0 p. \<forall>j<dim1 p. \<forall>c<dim2 p. 0 \<le> at3 img i j c)"
    if r: "snd (apgd_apply lib (run_calls lib a1 calls) n disp_iter) = Inr img"
    for calls n disp_iter img
  proof -
    let ?a = "run_calls lib a1 calls"
    have shp: "original_shape ?a = (dim0 p, dim1 p, dim2 p)"
      using run_calls_shape [of lib a1 calls] set_data_shape [OF assms(2)]
        apgd_init_fields(1) [OF assms(1)] by simp
    obtain a2 r2 where l: "apply_loop lib disp_iter ?a n 0 = (a2, r2)"
      by (cases "apply_loop lib disp_iter ?a n 0")
    have shp2: "original_shape a2 = (dim0 p, dim1 p, dim2 p)"
      using apply_loop_shape [of lib disp_iter ?a n 0] l shp by simp
    have "snd (form_image a2) = Inr img"
      using r l by (cases r2) (auto simp: apgd_apply_def split: if_splits)
    from form_image_result [OF this shp2] show ?thesis by simp
  qed
  have B: "\<exists>img. snd (apgd_apply lib a1 n disp_iter) = Inr img"
    if h: "n \<le> mx \<and> (\<forall>s m it. solver a1 = Some s \<longrightarrow>
                          length (iterand_of lib (update_iterand lib (the_problem s) m it))
                            = dim0 p * dim1 p * dim2 p)"
    for n disp_iter
  proof -
    note F = set_data_fields [OF assms(2)]
    note I = apgd_init_fields [OF assms(1)]
    from F(1) obtain s where s: "solver a1 = Some s" by blast
    have g: "gen a1 = Some (new_generator mx)" using F(2) I(7) by simp
    have len: "length (image_est a1) = dim0 p * dim1 p * dim2 p" using F(4) I(3) by simp
    have "n \<le> remaining (new_generator mx)" using h by (simp add: new_generator_def)
    from apply_loop_returns [OF s g this len refl, of lib disp_iter 0] h s
    obtain a2 where a2: "apply_loop lib disp_iter a1 n 0 = (a2, None)"
        "length (image_est a2) = dim0 p * dim1 p * dim2 p" by blast
    have shp2: "original_shape a2 = (dim0 p, dim1 p, dim2 p)"
      using apply_loop_shape [of lib disp_iter a1 n 0] a2(1) F(5) I(1) by simp
    have "\<exists>img. snd (form_image a2) = Inr img"
      using a2(2) shp2 by (simp add: form_image_def reshape3_def Let_def)
    then show ?thesis
      using a2(1) F(3) by (simp add: apgd_apply_def)
  qed
  from A B show ?thesis by blast
qed

lemma example_init:
  "\<exists>a0 :: real list apgd.
      apgd_init example_psf 5 PNone (PStr ''nonneg'') (Some ''BT'') 0.001 0.001 = Inr (a0, [])
      \<and> \<not> is_rgb a0 \<and> prox_penalty a0 = Bound (Some (Scaled 0.001 (NonNegativeOrthant 2)))"
proof -
  obtain H where H: "conv_init example_psf = Inr H" "snd (op_shape H) = 2"
    by (auto simp: conv_init_def example_psf_def Let_def)
  have d: "dim0 example_psf = 1" "dim1 example_psf = 2" "dim2 example_psf = 1"
    by (simp_all add: example_psf_def)
  show ?thesis
    by (simp add: apgd_init_def ebind_def Let_def H select_diff_penalty_def
        select_prox_penalty_def base_init_def apgd_reset_def d)
qed

lemma example_set_data:
  assumes "\<not> is_rgb a0" and "prox_penalty a0 = Bound (Some (Scaled 0.001 (NonNegativeOrthant 2)))"
  shows "\<exists>a1 s. set_data example_pycsou a0 example_measurement = Inr a1
           \<and> solver a1 = Some s \<and> prob_dim (the_problem s) = 2"
  using assms
  by (simp add: set_data_def ebind_def example_measurement_def pyc_new_def example_pycsou_def)

theorem apply_returns_nonnegative_psf_shaped_witness:
  "\<exists>(a0 :: real list apgd) a1 img.
      apgd_init example_psf 5 PNone (PStr ''nonneg'') (Some ''BT'') 0.001 0.001 = Inr (a0, [])
      \<and> set_data example_pycsou a0 example_measurement = Inr a1
      \<and> snd (apgd_apply example_pycsou a1 3 None) = Inr img
      \<and> (dim0 img, dim1 img, dim2 img) = (1, 2, 1) \<and> 0 \<le> at3 img 0 1 0"
proof -
  from example_init obtain a0 :: "real list apgd" where
    a0: "apgd_init example_psf 5 PNone (PStr ''nonneg'') (Some ''BT'') 0.001 0.001 = Inr (a0, [])"
    "\<not> is_rgb a0" "prox_penalty a0 = Bound (Some (Scaled 0.001 (NonNegativeOrthant 2)))"
    by blast
  from example_set_data [OF a0(2,3)] obtain a1 s where
    a1: "set_data example_pycsou a0 example_measurement = Inr a1"
    "solver a1 = Some s" "prob_dim (the_problem s) = 2"
    by blast
  note T = apply_returns_nonnegative_psf_shaped [OF a0(1) a1(1)]
  have sized: "\<forall>s m it. solver a1 = Some s \<longrightarrow>
      length (iterand_of example_pycsou (update_iterand example_pycsou (the_problem s) m it))
        = dim0 example_psf * dim1 example_psf * dim2 example_psf"
    using a1(2,3) by (simp add: example_pycsou_def example_psf_def)
  have "\<exists>img. snd (apgd_apply example_pycsou a1 3 None) = Inr img"
    by (rule T [THEN conjunct2, rule_format]) (use sized in simp)
  then obtain img where img: "snd (apgd_apply example_pycsou a1 3 None) = Inr img"
    by blast
  have "run_calls example_pycsou a1 [] = a1" by (simp add: run_calls_def)
  with T img have "(dim0 img, dim1 img, dim2 img)
        = (dim0 example_psf, dim1 example_psf, dim2 example_psf)
      \<and> (\<forall>i<dim0 example_psf. \<forall>j<dim1 example_psf. \<forall>c<dim2 example_psf. 0 \<le> at3 img i j c)"
    by metis
  then have "(dim0 img, dim1 img, dim2 img) = (1, 2, 1) \<and> 0 \<le> at3 img 0 1 0"
    by (simp add: example_psf_def)
  with a0(1) a1(1) img show ?thesis by blast
qed

subsection \<open>Reset\<close>

lemma same_binding_update:
  assumes "same_binding a1 a"
  shows "same_binding a1 (fst (apgd_update lib a))"
proof -
  from assms obtain s g s1 where a: "solver a = Some s" "gen a = Some g"
    "solver a1 = Some s1" "the_problem s = the_problem s1" "init_iterand s = init_iterand s1"
    and eq: "a\<lparr>image_est := [], solver := None, gen := None\<rparr>
       = a1\<lparr>image_est := [], solver := None, gen := None\<rparr>"
    unfolding same_binding_def by blast
  obtain s' g' r where n: "gen_next lib s g = (s', g', r)" by (cases "gen_next lib s g")
  have s': "the_problem s' = the_problem s1" "init_iterand s' = init_iterand s1"
    using n a(4,5)
    by (auto simp: gen_next_def pyc_step_def pyc_reset_def Let_def split: if_splits)
  have "solver (fst (apgd_update lib a)) = Some s'" "gen (fst (apgd_update lib a)) = Some g'"
    "(fst (apgd_update lib a))\<lparr>image_est := [], solver := None, gen := None\<rparr>
       = a\<lparr>image_est := [], solver := None, gen := None\<rparr>"
    using n a(1,2) by (auto simp: apgd_update_def Let_def split: sum.splits)
  with a(3) s' eq show ?thesis unfolding same_binding_def by simp
qed

lemma same_binding_progress:
  assumes "same_binding a1 a"
  shows "same_binding a1 (fst (apgd_progress a))"
  using assms unfolding same_binding_def
  by (auto simp: apgd_progress_def)

lemma same_binding_reset:
  assumes "same_binding a1 a"
  shows "same_binding a1 (apgd_reset a)"
  using assms unfolding same_binding_def
  by (auto simp: apgd_reset_def Let_def pyc_reset_def)

lemma same_binding_form_image:
  assumes "same_binding a1 a"
  shows "same_binding a1 (fst (form_image a))"
  using assms unfolding same_binding_def
  by (auto simp: form_image_def Let_def split: sum.splits)

lemma same_binding_apply_loop:
  "same_binding a1 a \<Longrightarrow> same_binding a1 (fst (apply_loop lib disp a k i))"
proof (induction k arbitrary: a i)
  case 0 then show ?case by simp
next
  case (Suc k)
  obtain a2 r2 where u: "apgd_update lib a = (a2, r2)" by (cases "apgd_update lib a")
  have b2: "same_binding a1 a2" using same_binding_update [OF Suc.prems, of lib] u by simp
  show ?case
  proof (cases r2)
    case (Some e) then show ?thesis using u b2 by simp
  next
    case None
    obtain a3 r3 where pr: "(if report_due disp (i + 1) then apgd_progress a2 else (a2, None)) = (a3, r3)"
      by (cases "if report_due disp (i + 1) then apgd_progress a2 else (a2, None)")
    have b3: "same_binding a1 a3"
      using pr b2 same_binding_progress [OF b2] by (auto split: if_splits)
    show ?thesis
      using u None pr b3 Suc.IH [OF b3, of "i + 1"]
      by (cases r3) simp_all
  qed
qed

lemma same_binding_apply:
  assumes "same_binding a1 a"
  shows "same_binding a1 (fst (apgd_apply lib a n disp))"
proof -
  obtain a2 r2 where l: "apply_loop lib disp a n 0 = (a2, r2)" by (cases "apply_loop lib disp a n 0")
  have "same_binding a1 a2" using same_binding_apply_loop [OF assms, of lib disp n 0] l by simp
  then show ?thesis using l same_binding_form_image [of a1 a2] assms
    by (cases r2) (simp_all add: apgd_apply_def)
qed

lemma same_binding_run_calls:
  "same_binding a1 a \<Longrightarrow> same_binding a1 (run_calls lib a calls)"
  unfolding run_calls_def
proof (induction calls arbitrary: a)
  case Nil then show ?case by simp
next
  case (Cons c calls)
  have "same_binding a1 (run_call lib a c)"
    using Cons.prems
    by (cases c) (simp_all add: same_binding_update same_binding_progress same_binding_reset
        same_binding_form_image same_binding_apply)
  from Cons.IH [OF this] show ?case by simp
qed

lemma same_binding_refl: "solver a1 = Some s \<Longrightarrow> gen a1 = Some g \<Longrightarrow> same_binding a1 a1"
  by (simp add: same_binding_def)

lemma same_binding_fields:
  assumes "same_binding a1 a"
  shows "original_size a = original_size a1" and "max_iter a = max_iter a1"
    and "data a = data a1" and "H_op a = H_op a1" and "original_shape a = original_shape a1"
proof -
  from assms have eq: "a\<lparr>image_est := [], solver := None, gen := None\<rparr>
       = a1\<lparr>image_est := [], solver := None, gen := None\<rparr>"
    unfolding same_binding_def by blast
  show "original_size a = original_size a1" using arg_cong [OF eq, of original_size] by simp
  show "max_iter a = max_iter a1" using arg_cong [OF eq, of max_iter] by simp
  show "data a = data a1" using arg_cong [OF eq, of data] by simp
  show "H_op a = H_op a1" using arg_cong [OF eq, of H_op] by simp
  show "original_shape a = original_shape a1" using arg_cong [OF eq, of original_shape] by simp
qed

lemma reset_restores:
  assumes sb: "same_binding a1 a"
    and s1: "solver a1 = Some s1" "iter s1 = 0" "iterand s1 = None"
      "old_iterand s1 = Some (init_iterand s1)"
    and g1: "gen a1 = Some (new_generator (max_iter a1))"
    and im: "image_est a1 = replicate (original_size a1) 0"
  shows "apgd_reset a = a1"
proof -
  from sb obtain s g where a: "solver a = Some s" "gen a = Some g"
    "the_problem s = the_problem s1" "init_iterand s = init_iterand s1"
    and eq: "a\<lparr>image_est := [], solver := None, gen := None\<rparr>
       = a1\<lparr>image_est := [], solver := None, gen := None\<rparr>"
    unfolding same_binding_def using s1(1) by auto
  note F = same_binding_fields [OF sb]
  have sol: "(pyc_reset s)\<lparr>old_iterand := Some (init_iterand s)\<rparr> = s1"
    using a(3,4) s1(2-4) by (simp add: pyc_reset_def)
  have "apgd_reset a = a\<lparr>image_est := replicate (original_size a1) 0, solver := Some s1,
                          gen := Some (new_generator (max_iter a1))\<rparr>"
    using a(1) sol F(1,2) by (simp add: apgd_reset_def Let_def)
  also have "\<dots> = (a\<lparr>image_est := [], solver := None, gen := None\<rparr>)
                     \<lparr>image_est := replicate (original_size a1) 0, solver := Some s1,
                          gen := Some (new_generator (max_iter a1))\<rparr>"
    by simp
  also have "\<dots> = (a1\<lparr>image_est := [], solver := None, gen := None\<rparr>)
                     \<lparr>image_est := replicate (original_size a1) 0, solver := Some s1,
                          gen := Some (new_generator (max_iter a1))\<rparr>"
    by (simp only: eq)
  also have "\<dots> = a1"
    using s1(1) g1 im by simp
  finally show ?thesis .
qed

text \<open>
  Claim C5.  Take a solver constructed and given data by \<open>set_data\<close>, and let any
  sequence of method calls run on it.  Then \<open>reset()\<close> brings it back to the state that
  \<open>set_data\<close> left, which is the state of a freshly constructed solver with the same PSF
  and configuration after \<open>set_data\<close> with the same data; so \<open>apply(n)\<close> after \<open>reset()\<close>
  returns what it returns on the fresh solver.  \<open>reset()\<close> keeps the data and the operator
  and makes the image estimate zero.
\<close>

theorem reset_then_apply_equals_fresh:
  assumes "apgd_init p mx dp pp accel dl pl = Inr (a0, printed)"
    and "set_data lib a0 d = Inr a1"
  shows "apgd_reset (run_calls lib a1 calls) = a1
       \<and> snd (apgd_apply lib (apgd_reset (run_calls lib a1 calls)) n disp_iter)
           = snd (apgd_apply lib a1 n disp_iter)
       \<and> data (apgd_reset (run_calls lib a1 calls)) = data (run_calls lib a1 calls)
       \<and> H_op (apgd_reset (run_calls lib a1 calls)) = H_op (run_calls lib a1 calls)
       \<and> image_est (apgd_reset (run_calls lib a1 calls))
           = replicate (dim0 p * dim1 p * dim2 p) 0"
proof -
  note F = set_data_fields [OF assms(2)]
  note I = apgd_init_fields [OF assms(1)]
  from F(1) obtain s1 where s1: "solver a1 = Some s1" "iter s1 = 0" "iterand s1 = None"
    "old_iterand s1 = Some (init_iterand s1)" by blast
  have g1: "gen a1 = Some (new_generator (max_iter a1))" using F(2,7) by simp
  have im: "image_est a1 = replicate (original_size a1) 0" using F(4,6) I(2,3) by simp
  have sb: "same_binding a1 (run_calls lib a1 calls)"
    using same_binding_run_calls [OF same_binding_refl [OF s1(1) g1]] .
  have r: "apgd_reset (run_calls lib a1 calls) = a1"
    using reset_restores [OF sb s1 g1 im] .
  note B = same_binding_fields [OF sb]
  show ?thesis
    using r B(3,4) im F(6) I(2) by simp
qed

theorem reset_then_apply_equals_fresh_witness:
  "\<exists>(a0 :: real list apgd) a1.
      apgd_init example_psf 5 PNone (PStr ''nonneg'') (Some ''BT'') 0.001 0.001 = Inr (a0, [])
      \<and> set_data example_pycsou a0 example_measurement = Inr a1
      \<and> snd (apgd_apply example_pycsou
               (apgd_reset (run_calls example_pycsou a1 [DoApply 2 None, DoUpdate])) 3 None)
           = snd (apgd_apply example_pycsou a1 3 None)"
proof -
  from example_init obtain a0 :: "real list apgd" where
    a0: "apgd_init example_psf 5 PNone (PStr ''nonneg'') (Some ''BT'') 0.001 0.001 = Inr (a0, [])"
    "\<not> is_rgb a0" "prox_penalty a0 = Bound (Some (Scaled 0.001 (NonNegativeOrthant 2)))"
    by blast
  from example_set_data [OF a0(2,3)] obtain a1 where
    a1: "set_data example_pycsou a0 example_measurement = Inr a1"
    by blast
  from reset_then_apply_equals_fresh [OF a0(1) a1, of "[DoApply 2 None, DoUpdate]" 3 None] a0(1) a1
  show ?thesis by blast
qed

section \<open>Properties of the training loop\<close>

subsection \<open>Skipping a step on NaN gradients\<close>

lemma train_step_no_mask_skip:
  assumes "mask t = None" and "skip_NAN t"
  shows "train_step env t batch acc = Inl AttributeError"
  using assms
  by (auto simp: train_step_def ebind_def mask_parameters_def hook_raises_def Let_def
      split: prod.splits option.splits)

text \<open>
  Claim C6.  The claim says that with \<open>skip_NAN\<close> a step whose gradients hold NaN is
  skipped and training goes on, also without a trainable mask.  The code does not do
  that without a mask: the NaN test of the source iterates over \<open>self.mask.parameters()\<close>
  without the guard \<open>use_mask\<close> that its other uses of the mask have, so for a trainer
  constructed with \<open>mask = None\<close> and \<open>skip_NAN = True\<close> every training step, and with it
  \<open>train_epoch\<close> on a non-empty loader, raises AttributeError.
\<close>

theorem skip_NAN_without_mask_raises:
  assumes "trainer_init recon None True clip lp n_iter name best = Inr t"
  shows "train_step env t batch acc = Inl AttributeError
       \<and> train_epoch env t (batch # rest) = Inl AttributeError"
proof -
  from assms have "mask t = None" "skip_NAN t"
    by (auto simp: trainer_init_def Let_def split: if_splits)
  then have "train_step env t batch a = Inl AttributeError" for a
    by (rule train_step_no_mask_skip)
  then show ?thesis by (simp add: train_epoch_def ebind_def)
qed

theorem skip_NAN_without_mask_raises_witness:
  "\<exists>t. trainer_init [example_param] None True None None 5 ''unrolled_admm'' None = Inr t
     \<and> any_grad_nan (map2 accumulate_grad (recon_params t)
          (fst (snd (forward_backward example_env (recon_params t) (mask t) ()))))
     \<and> train_epoch example_env t [()] = Inl AttributeError"
proof -
  obtain t where t: "trainer_init [example_param] None True None None 5 ''unrolled_admm'' None = Inr t"
    by (simp add: trainer_init_def Let_def)
  then have r: "recon_params t = [example_param]"
    by (auto simp: trainer_init_def Let_def)
  have "any_grad_nan (map2 accumulate_grad (recon_params t)
          (fst (snd (forward_backward example_env (recon_params t) (mask t) ()))))"
    by (simp add: r example_env_def example_param_def any_grad_nan_def accumulate_grad_def
        isnan_any_def)
  with skip_NAN_without_mask_raises [OF t, of example_env "()" "(Fin 0, 1)" "[]"] t
  show ?thesis by (auto simp: train_epoch_def ebind_def)
qed

text \<open>
  With a mask the step is skipped as the claim says: the result is the \<open>continue\<close>
  branch, and the data of every parameter is what it was.  (Stated without gradient
  clipping, whose effect on a NaN gradient is torch's.)
\<close>

lemma map2_accumulate_pdata:
  "length gs = length ps \<Longrightarrow> map pdata (map2 accumulate_grad ps gs) = map pdata ps"
proof (induction ps arbitrary: gs)
  case Nil then show ?case by simp
next
  case (Cons p ps)
  then obtain g gs' where "gs = g # gs'" by (cases gs) auto
  with Cons show ?case
    by (auto simp: accumulate_grad_def split: option.splits)
qed

lemma skip_NAN_with_mask_skips:
  assumes "skip_NAN t" and "mask t = Some mps" and "clip_grad t = None"
    and fb: "forward_backward env (recon_params t) (mask t) batch = (loss_v, rgrads, mgrads)"
    and len: "length rgrads = length (recon_params t)" "length mgrads = length mps"
    and nan: "any_grad_nan (map2 accumulate_grad (recon_params t) rgrads)
            \<or> any_grad_nan (map2 accumulate_grad mps mgrads)"
    and grads: "\<forall>p \<in> set (map2 accumulate_grad mps mgrads). pgrad p \<noteq> None"
  shows "\<exists>t'. train_step env t batch acc = Inr (t', (fst acc, snd acc + 1), True)
           \<and> map pdata (recon_params t') = map pdata (recon_params t)
           \<and> map_option (map pdata) (mask t') = Some (map pdata mps)"
  using assms map2_accumulate_pdata [OF len(1)] map2_accumulate_pdata [OF len(2)]
  by (auto simp: train_step_def ebind_def mask_parameters_def hook_raises_def Let_def)

subsection \<open>The metrics dictionary\<close>

lemma train_step_metrics:
  assumes "train_step env t batch acc = Inr (t', acc', skipped)"
  shows "metrics t' = metrics t"
  using assms
  by (auto simp: train_step_def ebind_def mask_parameters_def Let_def
      split: prod.splits option.splits if_splits sum.splits)

lemma metric_keys_eval:
  "metric_keys = [''LOSS'', ''MSE'', ''MAE'', ''LPIPS_Vgg'', ''LPIPS_Alex'', ''PSNR'', ''SSIM'',
     ''ReconstructionError'', ''n_iter'', ''algorithm'', ''metric_for_best_model'',
     ''best_epoch'', ''best_eval_score'']"
  by (simp add: metric_keys_def initial_metrics_def)

lemma distinct_metric_keys: "distinct metric_keys"
  by (simp add: metric_keys_eval)

lemma list_keys_subset: "set (''LOSS'' # test_metric_names) \<subseteq> set metric_keys"
  by (simp add: metric_keys_eval test_metric_names_def)

lemma initial_metrics_inv: "metrics_inv (initial_metrics n a b) 0 {}"
  unfolding metrics_inv_def
proof (intro conjI allI impI)
  show "map fst (initial_metrics n a b) = metric_keys"
    by (simp add: metric_keys_def initial_metrics_def)
next
  fix k v assume "map_of (initial_metrics n a b) k = Some v"
  then show "case v of
            MList xs \<Rightarrow> k \<in> set (''LOSS'' # test_metric_names)
                         \<and> length xs = (if k \<in> {} then Suc 0 else 0)
          | _ \<Rightarrow> k \<notin> set (''LOSS'' # test_metric_names)"
    by (auto simp: initial_metrics_def test_metric_names_def split: if_splits option.splits)
qed

lemma metrics_inv_equal_lengths:
  assumes "metrics_inv d L {}"
  shows "equal_lengths d"
proof -
  have dist: "distinct (map fst d)"
    using assms distinct_metric_keys by (simp add: metrics_inv_def)
  have "a = L" if "a \<in> set (list_lengths d)" for a
  proof -
    from that obtain k xs where "(k, MList xs) \<in> set d" "a = length xs"
      by (auto simp: list_lengths_def split: mvalue.splits)
    then have "map_of d k = Some (MList xs)" using dist by simp
    with assms \<open>a = length xs\<close> show ?thesis
      by (auto simp: metrics_inv_def dest!: spec [of _ k])
  qed
  then show ?thesis by (auto simp: equal_lengths_def)
qed

lemma extends_refl: "distinct (map fst d) \<Longrightarrow> extends d d"
  by (auto simp: extends_def split: mvalue.splits)

lemma extends_trans:
  assumes "extends d1 d2" and "extends d2 d3" and "distinct (map fst d2)"
  shows "extends d1 d3"
  unfolding extends_def
proof (intro conjI ballI)
  show "map fst d3 = map fst d1" using assms by (simp add: extends_def)
next
  fix x assume x: "x \<in> set d1"
  obtain k v where kv: "x = (k, v)" by (cases x)
  show "case x of (k, v) \<Rightarrow> (case v of MList xs \<Rightarrow> \<exists>ys. map_of d3 k = Some (MList (xs @ ys)) | _ \<Rightarrow> True)"
  proof (cases v)
    case (MList xs)
    with x kv assms(1) obtain ys where 1: "map_of d2 k = Some (MList (xs @ ys))"
      by (fastforce simp: extends_def)
    then have "(k, MList (xs @ ys)) \<in> set d2" by (rule map_of_SomeD)
    with assms(2) obtain zs where "map_of d3 k = Some (MList ((xs @ ys) @ zs))"
      by (fastforce simp: extends_def)
    then show ?thesis using kv MList by auto
  qed (simp_all add: kv)
qed

lemma dict_append_inv:
  assumes "metrics_inv d L S" and "k \<in> set (''LOSS'' # test_metric_names)" and "k \<notin> S"
  shows "\<exists>d'. dict_append d k v = Inr d' \<and> metrics_inv d' L (insert k S) \<and> extends d d'"
proof -
  have keys: "map fst d = metric_keys" using assms(1) by (simp add: metrics_inv_def)
  have dist: "distinct (map fst d)" using keys distinct_metric_keys by simp
  have "k \<in> fst ` set d" using assms(2) list_keys_subset keys
    by (metis (no_types, lifting) list.set_map subsetD)
  then obtain w where w: "map_of d k = Some w"
    by (metis domD dom_map_of_conv_image_fst)
  with assms(1,2) obtain xs where xs: "w = MList xs"
    by (cases w) (auto simp: metrics_inv_def dest!: spec [of _ k])
  have len: "length xs = L" using assms(1,3) w xs
    by (auto simp: metrics_inv_def dest!: spec [of _ k])
  let ?d' = "AList.update k (MList (xs @ [v])) d"
  have app: "dict_append d k v = Inr ?d'" by (simp add: dict_append_def w xs)
  have k': "map fst ?d' = map fst d"
    using \<open>k \<in> fst ` set d\<close> by (simp add: update_keys)
  have m': "map_of ?d' = (map_of d)(k \<mapsto> MList (xs @ [v]))"
    by (simp add: update_conv')
  have inv: "metrics_inv ?d' L (insert k S)"
    unfolding metrics_inv_def
  proof (intro conjI allI impI)
    show "map fst ?d' = metric_keys" using k' keys by simp
  next
    fix k2 v2 assume a: "map_of ?d' k2 = Some v2"
    show "case v2 of
            MList ys \<Rightarrow> k2 \<in> set (''LOSS'' # test_metric_names)
                         \<and> length ys = (if k2 \<in> insert k S then Suc L else L)
          | _ \<Rightarrow> k2 \<notin> set (''LOSS'' # test_metric_names)"
    proof (cases "k2 = k")
      case True
      with a m' have "v2 = MList (xs @ [v])" by simp
      then show ?thesis using True assms(2) len by simp
    next
      case False
      with a m' have "map_of d k2 = Some v2" by simp
      with assms(1) have "case v2 of
            MList ys \<Rightarrow> k2 \<in> set (''LOSS'' # test_metric_names)
                         \<and> length ys = (if k2 \<in> S then Suc L else L)
          | _ \<Rightarrow> k2 \<notin> set (''LOSS'' # test_metric_names)"
        unfolding metrics_inv_def by blast
      then show ?thesis using False by (cases v2) auto
    qed
  qed
  have ext: "extends d ?d'"
    unfolding extends_def
  proof (intro conjI ballI)
    show "map fst ?d' = map fst d" by (rule k')
  next
    fix x assume x: "x \<in> set d"
    obtain k2 v2 where kv: "x = (k2, v2)" by (cases x)
    have mo: "map_of d k2 = Some v2" using x kv dist by simp
    show "case x of (k, v) \<Rightarrow> (case v of MList xs \<Rightarrow> \<exists>ys. map_of ?d' k = Some (MList (xs @ ys)) | _ \<Rightarrow> True)"
    proof (cases v2)
      case (MList ys)
      show ?thesis
      proof (cases "k2 = k")
        case True
        with mo w xs MList have "ys = xs" by simp
        then show ?thesis using kv MList True m' by auto
      next
        case False
        then have "map_of ?d' k2 = Some (MList (ys @ []))" using m' mo MList by simp
        then have "\<exists>zs. map_of ?d' k2 = Some (MList (ys @ zs))" by blast
        then show ?thesis using kv MList by simp
      qed
    qed (simp_all add: kv)
  qed
  from app inv ext show ?thesis by blast
qed

lemma metrics_inv_distinct: "metrics_inv d L S \<Longrightarrow> distinct (map fst d)"
  using distinct_metric_keys by (simp add: metrics_inv_def)

lemma append_all_inv:
  assumes "metrics_inv d L S" and "distinct (map fst cm)"
    and "set (map fst cm) \<subseteq> set (''LOSS'' # test_metric_names)"
    and "set (map fst cm) \<inter> S = {}"
  shows "\<exists>d'. append_all d cm = (d', None) \<and> metrics_inv d' L (S \<union> set (map fst cm))
            \<and> extends d d'"
  using assms
proof (induction cm arbitrary: d S)
  case Nil
  then show ?case using extends_refl metrics_inv_distinct by auto
next
  case (Cons a cm)
  obtain k v where a: "a = (k, v)" by (cases a)
  from Cons.prems a have k: "k \<in> set (''LOSS'' # test_metric_names)" "k \<notin> S"
    by auto
  from dict_append_inv [OF Cons.prems(1) k, of v]
  obtain d1 where d1: "dict_append d k v = Inr d1" "metrics_inv d1 L (insert k S)" "extends d d1"
    by blast
  have "\<exists>d'. append_all d1 cm = (d', None) \<and> metrics_inv d' L (insert k S \<union> set (map fst cm))
            \<and> extends d1 d'"
    using Cons.prems a by (intro Cons.IH [OF d1(2)]) auto
  then obtain d' where d': "append_all d1 cm = (d', None)"
      "metrics_inv d' L (insert k S \<union> set (map fst cm))" "extends d1 d'"
    by blast
  have "extends d d'"
    using extends_trans [OF d1(3) d'(3)] metrics_inv_distinct [OF d1(2)] by simp
  moreover have "insert k S \<union> set (map fst cm) = S \<union> set (map fst (a # cm))"
    using a by auto
  ultimately show ?case using d1(1) d' a by simp
qed

lemma metrics_inv_full:
  assumes "metrics_inv d L S" and "set (''LOSS'' # test_metric_names) \<subseteq> S"
  shows "metrics_inv d (Suc L) {}"
  unfolding metrics_inv_def
proof (intro conjI allI impI)
  show "map fst d = metric_keys" using assms(1) by (simp add: metrics_inv_def)
next
  fix k v assume a: "map_of d k = Some v"
  with assms(1) have c: "case v of
            MList xs \<Rightarrow> k \<in> set (''LOSS'' # test_metric_names)
                         \<and> length xs = (if k \<in> S then Suc L else L)
          | _ \<Rightarrow> k \<notin> set (''LOSS'' # test_metric_names)"
    unfolding metrics_inv_def by blast
  show "case v of
            MList xs \<Rightarrow> k \<in> set (''LOSS'' # test_metric_names)
                         \<and> length xs = (if k \<in> {} then Suc (Suc L) else Suc L)
          | _ \<Rightarrow> k \<notin> set (''LOSS'' # test_metric_names)"
  proof (cases v)
    case (MList xs)
    with c have "k \<in> set (''LOSS'' # test_metric_names)"
      and "length xs = (if k \<in> S then Suc L else L)" by simp_all
    with assms(2) have "k \<in> S" by blast
    with MList c show ?thesis by simp
  qed (use c in simp_all)
qed

lemma evaluate_inv:
  assumes inv: "metrics_inv (metrics t) L {}" and bm: "benchmark_keys_ok env"
    and ev: "evaluate env t mean_loss = (t', r)"
  shows "(\<exists>L'. metrics_inv (metrics t') L' {}) \<and> extends (metrics t) (metrics t')"
proof (cases "has_test_dataset t")
  case False
  with ev have "t' = t" by (simp add: evaluate_def)
  then show ?thesis using inv extends_refl metrics_inv_distinct by blast
next
  case True
  let ?cm = "benchmark env (recon_params t)"
  from bm have cm: "distinct (map fst ?cm)" "set (map fst ?cm) = set test_metric_names"
    by (auto simp: benchmark_keys_ok_def)
  from dict_append_inv [OF inv, of "''LOSS''" mean_loss]
  obtain d1 where d1: "dict_append (metrics t) ''LOSS'' mean_loss = Inr d1"
      "metrics_inv d1 L {''LOSS''}" "extends (metrics t) d1"
    by auto
  have "\<exists>d'. append_all d1 ?cm = (d', None) \<and> metrics_inv d' L ({''LOSS''} \<union> set (map fst ?cm))
            \<and> extends d1 d'"
    using cm by (intro append_all_inv [OF d1(2)]) (auto simp: test_metric_names_def)
  then obtain d2 where d2: "append_all d1 ?cm = (d2, None)"
      "metrics_inv d2 L ({''LOSS''} \<union> set (map fst ?cm))" "extends d1 d2"
    by blast
  have "fst (evaluate env t mean_loss) = t\<lparr>metrics := d2\<rparr>"
    by (simp add: evaluate_def Let_def True d1(1) d2(1))
  then have m: "metrics t' = d2"
    using ev by simp
  have "metrics_inv d2 (Suc L) {}"
    using d2(2) cm(2) by (intro metrics_inv_full [of d2 L]) auto
  moreover have "extends (metrics t) d2"
    using extends_trans [OF d1(3) d2(3)] metrics_inv_distinct [OF d1(2)] by simp
  ultimately show ?thesis using m by blast
qed

lemma update_scalar_inv:
  assumes "metrics_inv d L {}" and "k \<in> set metric_keys"
    and "k \<notin> set (''LOSS'' # test_metric_names)" and "\<forall>xs. v \<noteq> MList xs"
  shows "metrics_inv (AList.update k v d) L {} \<and> extends d (AList.update k v d)"
proof -
  have keys: "map fst d = metric_keys" using assms(1) by (simp add: metrics_inv_def)
  have dist: "distinct (map fst d)" using keys distinct_metric_keys by simp
  have kin: "k \<in> fst ` set d" using assms(2) keys by (metis list.set_map)
  have k': "map fst (AList.update k v d) = map fst d"
    using kin by (simp add: update_keys)
  have m': "map_of (AList.update k v d) = (map_of d)(k \<mapsto> v)"
    by (simp add: update_conv')
  have 1: "metrics_inv (AList.update k v d) L {}"
    unfolding metrics_inv_def
  proof (intro conjI allI impI)
    show "map fst (AList.update k v d) = metric_keys" using k' keys by simp
  next
    fix k2 v2 assume a: "map_of (AList.update k v d) k2 = Some v2"
    show "case v2 of
            MList ys \<Rightarrow> k2 \<in> set (''LOSS'' # test_metric_names)
                         \<and> length ys = (if k2 \<in> {} then Suc L else L)
          | _ \<Rightarrow> k2 \<notin> set (''LOSS'' # test_metric_names)"
    proof (cases "k2 = k")
      case True
      with a m' have "v2 = v" by simp
      then show ?thesis using True assms(3,4) by (cases v) auto
    next
      case False
      with a m' have "map_of d k2 = Some v2" by simp
      with assms(1) show ?thesis unfolding metrics_inv_def by blast
    qed
  qed
  have 2: "extends d (AList.update k v d)"
    unfolding extends_def
  proof (intro conjI ballI)
    show "map fst (AList.update k v d) = map fst d" by (rule k')
  next
    fix x assume x: "x \<in> set d"
    obtain k2 v2 where kv: "x = (k2, v2)" by (cases x)
    have mo: "map_of d k2 = Some v2" using x kv dist by simp
    show "case x of (ka, va) \<Rightarrow> (case va of MList xs \<Rightarrow> \<exists>ys. map_of (AList.update k v d) ka = Some (MList (xs @ ys)) | _ \<Rightarrow> True)"
    proof (cases v2)
      case (MList ys)
      with mo assms(1) have "k2 \<in> set (''LOSS'' # test_metric_names)"
        by (auto simp: metrics_inv_def dest!: spec [of _ k2])
      with assms(3) have "k2 \<noteq> k" by blast
      then have "map_of (AList.update k v d) k2 = Some (MList (ys @ []))"
        using m' mo MList by simp
      then have "\<exists>zs. map_of (AList.update k v d) k2 = Some (MList (ys @ zs))" by blast
      then show ?thesis using kv MList by simp
    qed (simp_all add: kv)
  qed
  from 1 2 show ?thesis ..
qed

lemma on_epoch_end_inv:
  assumes inv: "metrics_inv (metrics t) L {}" and bm: "benchmark_keys_ok env"
    and ev: "on_epoch_end env t mean_loss epoch = (t', r)"
  shows "(\<exists>L'. metrics_inv (metrics t') L' {}) \<and> extends (metrics t) (metrics t')"
proof -
  obtain t1 r1 where e1: "evaluate env t mean_loss = (t1, r1)" by (cases "evaluate env t mean_loss")
  from evaluate_inv [OF inv bm e1] obtain L' where
    i1: "metrics_inv (metrics t1) L' {}" and x1: "extends (metrics t) (metrics t1)"
    by blast
  show ?thesis
  proof (cases "metrics t' = metrics t1")
    case True
    then show ?thesis using i1 x1 by auto
  next
    case False
    have "\<exists>score. metrics t' = AList.update ''best_epoch'' (MInt epoch)
                               (AList.update ''best_eval_score'' (MFloat score) (metrics t1))"
    proof (cases r1)
      case (Inl e)
      then have "t' = t1" using ev e1 by (simp add: on_epoch_end_def)
      with False show ?thesis by simp
    next
      case (Inr ro)
      show ?thesis
      proof (cases ro)
        case None
        then have "t' = t1" using ev e1 Inr by (simp add: on_epoch_end_def)
        with False show ?thesis by simp
      next
        case (Some score)
        show ?thesis
        proof (cases "is_new_best (metrics t1) score")
          case True
          then have "t' = t1\<lparr>metrics := AList.update ''best_epoch'' (MInt epoch)
                               (AList.update ''best_eval_score'' (MFloat score) (metrics t1))\<rparr>"
            using ev e1 Inr Some by (simp add: on_epoch_end_def)
          then show ?thesis by auto
        next
          case nb: False
          then have "t' = t1" using ev e1 Inr Some by (simp add: on_epoch_end_def)
          with False show ?thesis by simp
        qed
      qed
    qed
    then obtain score where
      m: "metrics t' = AList.update ''best_epoch'' (MInt epoch)
                               (AList.update ''best_eval_score'' (MFloat score) (metrics t1))"
      by blast
    let ?d1 = "AList.update ''best_eval_score'' (MFloat score) (metrics t1)"
    have a: "metrics_inv ?d1 L' {} \<and> extends (metrics t1) ?d1"
      by (rule update_scalar_inv [OF i1]) (simp_all add: metric_keys_eval test_metric_names_def)
    then have b: "metrics_inv (AList.update ''best_epoch'' (MInt epoch) ?d1) L' {}
        \<and> extends ?d1 (AList.update ''best_epoch'' (MInt epoch) ?d1)"
      by (intro update_scalar_inv) (simp_all add: metric_keys_eval test_metric_names_def)
    have "extends (metrics t1) (metrics t')"
      using extends_trans [of "metrics t1" ?d1 "metrics t'"] a b m metrics_inv_distinct by auto
    then have "extends (metrics t) (metrics t')"
      using extends_trans [OF x1] metrics_inv_distinct [OF i1] by blast
    then show ?thesis using b m by auto
  qed
qed

lemma reachable_inv:
  assumes "trainer_init recon msk skip clip lp n_iter name best = Inr t0"
    and "benchmark_keys_ok env" and "reachable env t0 t"
  shows "(\<exists>L. metrics_inv (metrics t) L {}) \<and> extends (metrics t0) (metrics t)"
  using assms(3)
proof (induction rule: reachable.induct)
  case start
  have m: "metrics t0 = initial_metrics n_iter name best"
    using assms(1) by (auto simp: trainer_init_def Let_def split: if_splits)
  have i: "metrics_inv (metrics t0) 0 {}"
    unfolding m by (rule initial_metrics_inv)
  from i extends_refl [OF metrics_inv_distinct [OF i]] show ?case by blast
next
  case (step t batch acc t' acc' skipped)
  have "metrics t' = metrics t" using step(2) by (rule train_step_metrics)
  with step(3) show ?case by simp
next
  case (evaluated t mean_loss t' r)
  then obtain L where L: "metrics_inv (metrics t) L {}" and x: "extends (metrics t0) (metrics t)"
    by blast
  from evaluate_inv [OF L assms(2) evaluated(2)] obtain L' where
    L': "metrics_inv (metrics t') L' {}" and x': "extends (metrics t) (metrics t')"
    by blast
  from extends_trans [OF x x' metrics_inv_distinct [OF L]] L' show ?case by blast
next
  case (epoch_end t mean_loss epoch t')
  then obtain L where L: "metrics_inv (metrics t) L {}" and x: "extends (metrics t0) (metrics t)"
    by blast
  from on_epoch_end_inv [OF L assms(2) epoch_end(2)] obtain L' where
    L': "metrics_inv (metrics t') L' {}" and x': "extends (metrics t) (metrics t')"
    by blast
  from extends_trans [OF x x' metrics_inv_distinct [OF L]] L' show ?case by blast
qed

text \<open>
  Claim C9.  For a trainer built by \<open>__init__\<close> and a \<open>benchmark\<close> that reports exactly
  the seven test metrics, in every state that training steps, \<open>evaluate\<close> and
  \<open>on_epoch_end\<close> can reach, all list-valued entries of the metrics dictionary have the
  same length and extend the initial ones by appended values; and every further
  \<open>evaluate\<close> that returns leaves the lists of equal length, each an extension by append of
  what it was.
\<close>

theorem metrics_equal_length_append_only:
  assumes "trainer_init recon msk skip clip lp n_iter name best = Inr t0"
    and "benchmark_keys_ok env"
    and "reachable env t0 t"
  shows "equal_lengths (metrics t) \<and> extends (metrics t0) (metrics t)
       \<and> (\<forall>mean_loss t' r. evaluate env t mean_loss = (t', Inr r)
             \<longrightarrow> equal_lengths (metrics t') \<and> extends (metrics t) (metrics t'))"
proof -
  from reachable_inv [OF assms] obtain L where
    L: "metrics_inv (metrics t) L {}" and x: "extends (metrics t0) (metrics t)"
    by blast
  have "equal_lengths (metrics t') \<and> extends (metrics t) (metrics t')"
    if "evaluate env t mean_loss = (t', Inr r)" for mean_loss t' r
    using evaluate_inv [OF L assms(2) that] metrics_inv_equal_lengths by blast
  then show ?thesis using metrics_inv_equal_lengths [OF L] x by blast
qed

theorem metrics_equal_length_append_only_witness:
  "\<exists>t0 t1. trainer_init [example_param] None False None None 5 ''unrolled_admm'' None = Inr t0
     \<and> benchmark_keys_ok example_env
     \<and> evaluate example_env t0 (Fin 2) = (t1, Inr (Some (Fin 1)))
     \<and> reachable example_env t0 t1
     \<and> equal_lengths (metrics t1) \<and> extends (metrics t0) (metrics t1)
     \<and> map_of (metrics t1) ''LOSS'' = Some (MList [Fin 2])
     \<and> map_of (metrics t1) ''PSNR'' = Some (MList [Fin 1])"
proof -
  obtain t0 where t0: "trainer_init [example_param] None False None None 5 ''unrolled_admm'' None = Inr t0"
    by (simp add: trainer_init_def Let_def)
  then have f: "has_test_dataset t0" "lpips t0 = None"
    "metrics t0 = initial_metrics 5 ''unrolled_admm'' None"
    by (auto simp: trainer_init_def Let_def)
  have bk: "benchmark_keys_ok example_env"
    by (auto simp: benchmark_keys_ok_def example_env_def test_metric_names_def)
  obtain t1 r where e: "evaluate example_env t0 (Fin 2) = (t1, r)"
    by (cases "evaluate example_env t0 (Fin 2)")
  have r: "r = Inr (Some (Fin 1))"
    using e f
    by (simp add: evaluate_def Let_def example_env_def initial_metrics_def dict_append_def
        dict_get_def ebind_def)
  have m: "map_of (metrics t1) ''LOSS'' = Some (MList [Fin 2])"
    "map_of (metrics t1) ''PSNR'' = Some (MList [Fin 1])"
    using e f
    by (auto simp: evaluate_def Let_def example_env_def initial_metrics_def dict_append_def
        dict_get_def ebind_def)
  have re: "reachable example_env t0 t1"
    using reachable.evaluated [OF reachable.start] e r by blast
  from metrics_equal_length_append_only [OF t0 bk re] t0 bk e r re m
  show ?thesis by blast
qed

end
